theory Spec2Isabelle
  imports Main "HOL-Library.Word"
begin

section \<open>Lemonscript compiler front end (Compiler.cpp)\<close>

text \<open>
  A shallow embedding of \<^verbatim>\<open>lemon::Compiler\<close>: line number translation, script loading
  with includes, node building, the global definitions pass and statement shaping.
  C++ \<^verbatim>\<open>uint32\<close> and \<^verbatim>\<open>uint64\<close> are words, \<^verbatim>\<open>size_t\<close> indices into vectors are
  naturals (they never leave the range of the vector they index), a thrown
  \<^verbatim>\<open>CompilerException\<close> is the left injection of a sum.
\<close>

type_synonym uint32 = "32 word"
type_synonym uint64 = "64 word"

subsection \<open>Errors\<close>

text \<open>
  \<open>CompilerException msg line\<close> is the exception of the compiler. \<open>VectorOutOfRange\<close>
  stands for a read of a \<^verbatim>\<open>std::vector\<close> outside its bounds, which the C++ leaves
  undefined; the model makes every such read a value of its own. \<open>DuplicateDefinition\<close>
  is the error of registering a name twice, which the specification requires of the
  symbol tables and for which the sources at hand give no message.
\<close>

datatype error = CompilerException string uint32 | VectorOutOfRange | DuplicateDefinition string

text \<open>
  Modelled from the spec: the macros \<^verbatim>\<open>CHECK_ERROR\<close> and \<^verbatim>\<open>CHECK_ERROR_NOLINE\<close> are not
  part of the sources at hand. Following the error policy of the specification (any rule
  violation throws a compiler-level exception carrying the internal line number),
  \<open>CHECK_ERROR expr msg line\<close> throws when \<open>expr\<close> is false; the variant without a line
  carries line 0.
\<close>

definition CHECK_ERROR :: "bool \<Rightarrow> string \<Rightarrow> uint32 \<Rightarrow> error + unit" where
  "CHECK_ERROR expr errorMessage lineNumber =
     (if expr then Inr () else Inl (CompilerException errorMessage lineNumber))"

definition CHECK_ERROR_NOLINE :: "bool \<Rightarrow> string \<Rightarrow> error + unit" where
  "CHECK_ERROR_NOLINE expr errorMessage = CHECK_ERROR expr errorMessage 0"

text \<open>Checked read of a vector element.\<close>

definition at :: "'a list \<Rightarrow> nat \<Rightarrow> error + 'a" where
  "at xs i = (if i < length xs then Inr (xs ! i) else Inl VectorOutOfRange)"

subsection \<open>Line number translation\<close>

record Interval =
  mStartLineNumber :: uint32
  mFilename :: string
  mLineOffsetInFile :: uint32

text \<open>
  The search loop of \<^verbatim>\<open>translateLineNumber\<close>:
  \<^verbatim>\<open>while (index+1 < mIntervals.size() && mIntervals[index+1].mStartLineNumber < lineNumber) ++index;\<close>
\<close>

function translate_index :: "Interval list \<Rightarrow> uint32 \<Rightarrow> nat \<Rightarrow> nat" where
  "translate_index mIntervals lineNumber index =
     (if index + 1 < length mIntervals \<and>
         mStartLineNumber (mIntervals ! (index + 1)) < lineNumber
      then translate_index mIntervals lineNumber (index + 1)
      else index)"
  by pat_completeness auto
termination
  by (relation "measure (\<lambda>(ivs, l, i). length ivs - i)") auto

declare translate_index.simps [simp del]

text \<open>
  \<open>translateLineNumber_with chk\<close> is the function with the check macro as a parameter:
  when the macro throws, the statement after it is never reached; a macro that only
  reported would fall through to the pair of line 0 and the empty file name.
\<close>

definition translateLineNumber_with ::
  "(bool \<Rightarrow> string \<Rightarrow> error + unit) \<Rightarrow> Interval list \<Rightarrow> uint32 \<Rightarrow> error + (uint32 \<times> string)" where
  "translateLineNumber_with chk mIntervals lineNumber =
     (if mIntervals = [] then
        (case chk False ''Error resolving line number'' of
           Inl e \<Rightarrow> Inl e
         | Inr _ \<Rightarrow> Inr (0, ''''))
      else
        (case at mIntervals (translate_index mIntervals lineNumber 0) of
           Inl e \<Rightarrow> Inl e
         | Inr interval \<Rightarrow>
             Inr (lineNumber - mStartLineNumber interval + mLineOffsetInFile interval,
                  mFilename interval)))"

definition translateLineNumber :: "Interval list \<Rightarrow> uint32 \<Rightarrow> error + (uint32 \<times> string)" where
  "translateLineNumber = translateLineNumber_with CHECK_ERROR_NOLINE"

text \<open>
  \<^verbatim>\<open>push\<close>: the last entry is overwritten when it starts at the same line, otherwise a
  new entry is added at the back.
\<close>

definition push :: "Interval list \<Rightarrow> uint32 \<Rightarrow> string \<Rightarrow> uint32 \<Rightarrow> Interval list" where
  "push mIntervals currentLineNumber filename lineOffsetInFile =
     (let updateLastEntry =
            (mIntervals \<noteq> [] \<and> mStartLineNumber (last mIntervals) = currentLineNumber);
          interval = \<lparr>mStartLineNumber = currentLineNumber, mFilename = filename,
                      mLineOffsetInFile = lineOffsetInFile\<rparr>
      in if updateLastEntry then butlast mIntervals @ [interval]
         else mIntervals @ [interval])"

subsection \<open>Properties of the line number translation\<close>

lemma translate_index_bound:
  "index < length mIntervals \<Longrightarrow> translate_index mIntervals lineNumber index < length mIntervals"
proof (induction mIntervals lineNumber index rule: translate_index.induct)
  case (1 mIntervals lineNumber index)
  then show ?case
    by (subst translate_index.simps) auto
qed

text \<open>
  Claim C10. With an empty interval list, \<^verbatim>\<open>translateLineNumber\<close> raises the compile error
  "Error resolving line number" for every queried line and reads no element of the
  vector; whatever the check macro does, the only other outcome of that branch is the
  fallback pair of line 0 and the empty file name. On no interval list at all does the
  function read outside the vector.
\<close>

theorem translateLineNumber_empty:
  "translateLineNumber [] lineNumber = Inl (CompilerException ''Error resolving line number'' 0)
   \<and> translateLineNumber_with chk [] lineNumber \<in>
       {Inl e | e. chk False ''Error resolving line number'' = Inl e} \<union> {Inr (0, '''')}
   \<and> translateLineNumber mIntervals lineNumber \<noteq> Inl VectorOutOfRange"
proof (intro conjI)
  show "translateLineNumber [] lineNumber = Inl (CompilerException ''Error resolving line number'' 0)"
    by (simp add: translateLineNumber_def translateLineNumber_with_def CHECK_ERROR_NOLINE_def
        CHECK_ERROR_def)
  show "translateLineNumber_with chk [] lineNumber \<in>
       {Inl e | e. chk False ''Error resolving line number'' = Inl e} \<union> {Inr (0, '''')}"
    by (cases "chk False ''Error resolving line number''")
       (simp_all add: translateLineNumber_with_def)
  show "translateLineNumber mIntervals lineNumber \<noteq> Inl VectorOutOfRange"
  proof (cases "mIntervals = []")
    case True
    then show ?thesis
      by (simp add: translateLineNumber_def translateLineNumber_with_def CHECK_ERROR_NOLINE_def
          CHECK_ERROR_def)
  next
    case False
    then have "translate_index mIntervals lineNumber 0 < length mIntervals"
      by (intro translate_index_bound) simp
    with False show ?thesis
      by (simp add: translateLineNumber_def translateLineNumber_with_def at_def)
  qed
qed

theorem translateLineNumber_empty_witness:
  "translateLineNumber [] 7 = Inl (CompilerException ''Error resolving line number'' 0)
   \<and> translateLineNumber_with (\<lambda>c m. Inr ()) [] 7 = Inr (0, '''')
   \<and> translateLineNumber [\<lparr>mStartLineNumber = 1, mFilename = ''main.lemon'', mLineOffsetInFile = 0\<rparr>] 7
       = Inr (6, ''main.lemon'')"
proof -
  have "translateLineNumber_with (\<lambda>c m. Inr ()) [] 7 = Inr (0, '''')"
    using translateLineNumber_empty [of 7 "\<lambda>c m. Inr ()" "[]"] by simp
  moreover have "translateLineNumber [] 7 = Inl (CompilerException ''Error resolving line number'' 0)"
    using translateLineNumber_empty [of 7 "\<lambda>c m. Inr ()" "[]"] by simp
  moreover have "translateLineNumber
      [\<lparr>mStartLineNumber = 1, mFilename = ''main.lemon'', mLineOffsetInFile = 0\<rparr>] 7
       = Inr (6, ''main.lemon'')"
    by (simp add: translateLineNumber_def translateLineNumber_with_def at_def
        translate_index.simps)
  ultimately show ?thesis by simp
qed

text \<open>
  Claim C2, evaluated on the intervals that two calls of \<^verbatim>\<open>push\<close> build (a main file
  starting at output line 1, an included file starting at output line 2): queried at
  line 2, the start line of the second interval, the search loop stops at the first
  interval, because it compares with \<^verbatim>\<open><\<close>; the result is line 1 of the main file and
  not line 0 of the included file.
\<close>

theorem translateLineNumber_at_interval_start:
  "push (push [] 1 ''main.lemon'' 0) 2 ''inc.lemon'' 0 =
     [\<lparr>mStartLineNumber = 1, mFilename = ''main.lemon'', mLineOffsetInFile = 0\<rparr>,
      \<lparr>mStartLineNumber = 2, mFilename = ''inc.lemon'', mLineOffsetInFile = 0\<rparr>]
   \<and> translateLineNumber (push (push [] 1 ''main.lemon'' 0) 2 ''inc.lemon'' 0) 2
       = Inr (1, ''main.lemon'')
   \<and> translateLineNumber (push (push [] 1 ''main.lemon'' 0) 2 ''inc.lemon'' 0) 3
       = Inr (1, ''inc.lemon'')"
  by (simp add: push_def translateLineNumber_def translateLineNumber_with_def at_def
      translate_index.simps)

section \<open>Loading script files with includes\<close>

subsection \<open>State and collaborators of the loader\<close>

text \<open>
  \<^verbatim>\<open>ErrorMessage\<close> and \<^verbatim>\<open>ScriptFile\<close> are declared in the compiler's header; a fresh
  \<^verbatim>\<open>ErrorMessage\<close> has an empty file name and line 0. The fields \<^verbatim>\<open>mFilename\<close> and
  \<^verbatim>\<open>mLineNumber\<close> carry a suffix here, since \<open>Interval\<close> has \<open>mFilename\<close> already.
\<close>

record ErrorMessage =
  mMessage :: string
  mFilename_err :: string
  mLineNumber_err :: uint32

record ScriptFile =
  mBasePath :: string
  mFilename_file :: string
  mFirstLine :: nat
  mContent :: string

text \<open>
  What the loader asks of the world outside the compiler, as parameters:
  \<open>loadFile\<close> is \<^verbatim>\<open>String::loadFile\<close> (\<open>None\<close> when the file cannot be read),
  \<open>getLines\<close> the lines that the \<^verbatim>\<open>getLine\<close> loop cuts the content into,
  \<open>processLines\<close> the preprocessor (\<open>Inl\<close> the message and line of the exception it
  throws), \<open>listFilesByMask\<close> the file names a wildcard mask matches.
\<close>

record environment =
  loadFile :: "string \<Rightarrow> string option"
  getLines :: "string \<Rightarrow> string list"
  processLines :: "string list \<Rightarrow> (string \<times> uint32) + string list"
  listFilesByMask :: "string \<Rightarrow> string list"

text \<open>The members of the compiler that loading writes, and the output lines.\<close>

record loader =
  mErrors :: "ErrorMessage list"
  mScriptFiles :: "ScriptFile list"
  mLineNumberTranslation :: "Interval list"
  outLines :: "string list"

definition newError :: "string \<Rightarrow> ErrorMessage" where
  "newError msg = \<lparr>mMessage = msg, mFilename_err = '''', mLineNumber_err = 0\<rparr>"

definition depthMessage :: "string \<Rightarrow> string \<Rightarrow> string" where
  "depthMessage basepath filename =
     ''Unusually high recursion depth in lemon script includes while loading script file ''
       @ [CHR 0x27] @ filename @ [CHR 0x27] @ '' at '' @ [CHR 0x27] @ basepath @ [CHR 0x27]
       @ '' (possibly some kind of cycle in the includes)''"

definition loadMessage :: "string \<Rightarrow> string \<Rightarrow> string" where
  "loadMessage basepath filename =
     ''Failed to load script file '' @ [CHR 0x27] @ filename @ [CHR 0x27] @ '' at ''
       @ [CHR 0x27] @ basepath @ [CHR 0x27]"

text \<open>
  The string class of the include handling is not among the sources; its operations are
  read by their names. \<open>findCharBackward s ch\<close> is \<^verbatim>\<open>s.findChar(ch, s.length()-1, -1)\<close>:
  the last position of \<open>ch\<close>, or -1. \<open>includeTarget\<close> is the text between
  \<^verbatim>\<open>line.substr(8)\<close> and the recursive call: the name up to the first blank, with
  forward slashes only, split at its last slash into base path and file name.
\<close>

definition findCharBackward :: "string \<Rightarrow> char \<Rightarrow> int" where
  "findCharBackward s ch =
     (case filter (\<lambda>i. s ! i = ch) (rev [0..<length s]) of
        [] \<Rightarrow> -1
      | i # _ \<Rightarrow> int i)"

definition includeTarget :: "string \<Rightarrow> string \<times> string" where
  "includeTarget line =
     (let includeFilename = takeWhile (\<lambda>c. c \<noteq> CHR '' '') (drop 8 line);
          includeFilename = map (\<lambda>c. if c = CHR 0x5C then CHR ''/'' else c) includeFilename;
          pos = findCharBackward includeFilename CHR ''/''
      in if pos > 0
         then (take (nat pos) includeFilename @ ''/'', drop (nat pos + 1) includeFilename)
         else ('''', includeFilename))"

subsection \<open>loadScriptInternal\<close>

text \<open>
  The function returns its \<^verbatim>\<open>bool\<close> and the state it leaves. \<open>load_lines\<close> is the loop
  "Build output" over the preprocessed lines of one file (\<open>fileLineIndex\<close> counts them),
  \<open>load_entries\<close> the loop over the files a wildcard include matched. Both receive the
  inclusion depth as \<^verbatim>\<open>loadScriptInternal\<close> has incremented it. The recursion is
  well-founded because the depth is bounded by 50: the termination proof orders the
  calls by \<open>50 - inclusionDepth\<close>, then by the lines or entries that remain.
\<close>
function loadScriptInternal ::
    "environment \<Rightarrow> string \<Rightarrow> string \<Rightarrow> int \<Rightarrow> loader \<Rightarrow> bool \<times> loader"
  and load_lines ::
    "environment \<Rightarrow> string \<Rightarrow> string \<Rightarrow> int \<Rightarrow> string list \<Rightarrow> nat \<Rightarrow> loader \<Rightarrow> bool \<times> loader"
  and load_entries ::
    "environment \<Rightarrow> string \<Rightarrow> int \<Rightarrow> string list \<Rightarrow> loader \<Rightarrow> bool \<times> loader"
where
  "loadScriptInternal env basepath filename inclusionDepth0 c =
     (let inclusionDepth = inclusionDepth0 + 1 in
      if inclusionDepth \<ge> 50 then
        (False, c\<lparr>mErrors := mErrors c @ [newError (depthMessage basepath filename)]\<rparr>)
      else
        let scriptFile = \<lparr>mBasePath = basepath, mFilename_file = filename,
                           mFirstLine = length (outLines c) + 1, mContent = ''''\<rparr>
        in case loadFile env (basepath @ filename) of
             None \<Rightarrow>
               (False, c\<lparr>mScriptFiles := mScriptFiles c @ [scriptFile],
                          mErrors := mErrors c @ [newError (loadMessage basepath filename)]\<rparr>)
           | Some content \<Rightarrow>
               (let c1 = c\<lparr>mScriptFiles := mScriptFiles c @ [scriptFile\<lparr>mContent := content\<rparr>],
                           mLineNumberTranslation :=
                             push (mLineNumberTranslation c) (of_nat (length (outLines c)) + 1) filename 0\<rparr>
                in (case processLines env (getLines env content) of
                      Inl (msg, line) \<Rightarrow>
                        (False, c1\<lparr>mErrors := mErrors c1 @
                            [\<lparr>mMessage = msg, mFilename_err = filename, mLineNumber_err = line\<rparr>]\<rparr>)
                    | Inr fileLines \<Rightarrow>
                        load_lines env basepath filename inclusionDepth fileLines 0 c1)))"
| "load_lines env basepath filename inclusionDepth [] fileLineIndex c = (True, c)"
| "load_lines env basepath filename inclusionDepth (line # rest) fileLineIndex c =
     (if take 8 line = ''include '' then
        (case includeTarget line of (includeBasepath, includeFilename) \<Rightarrow>
          (case (if includeFilename = ''?''
                 then load_entries env (basepath @ includeBasepath) inclusionDepth
                        (listFilesByMask env (basepath @ includeBasepath @ ''*.lemon'')) c
                 else loadScriptInternal env (basepath @ includeBasepath)
                        (includeFilename @ ''.lemon'') inclusionDepth c) of
             (ok, c1) \<Rightarrow>
               if \<not> ok then (False, c1)
               else load_lines env basepath filename inclusionDepth rest (fileLineIndex + 1)
                      (c1\<lparr>mLineNumberTranslation :=
                            push (mLineNumberTranslation c1) (of_nat (length (outLines c1)) + 1)
                              filename (of_nat fileLineIndex)\<rparr>)))
      else load_lines env basepath filename inclusionDepth rest (fileLineIndex + 1)
             (c\<lparr>outLines := outLines c @ [line]\<rparr>))"
| "load_entries env path inclusionDepth [] c = (True, c)"
| "load_entries env path inclusionDepth (fileEntry # rest) c =
     (case loadScriptInternal env path fileEntry inclusionDepth c of
        (ok, c1) \<Rightarrow> if \<not> ok then (False, c1) else load_entries env path inclusionDepth rest c1)"
  by pat_completeness auto

text \<open>
  Termination. The definition comes with the relation of its recursive calls
  (\<open>loadScriptInternal_load_lines_load_entries_rel callee caller\<close>, over the arguments of the
  three functions as a sum) and with the domain on which the recursion ends, the
  accessible part of that relation. Every argument is in the domain.
\<close>

lemma loadScriptInternal_total: "All loadScriptInternal_load_lines_load_entries_dom"
  by (relation "inv_image (less_than <*lex*> less_than <*lex*> less_than)
        (\<lambda>x. case x of
           Inl (env, b, f, d, c) \<Rightarrow> (nat (50 - d), 0::nat, 0::nat)
         | Inr (Inl (env, b, f, d, ls, i, c)) \<Rightarrow> (nat (50 - d), 2, length ls)
         | Inr (Inr (env, p, d, es, c)) \<Rightarrow> (nat (50 - d), 1, length es))")
     auto

termination loadScriptInternal
  by (rule loadScriptInternal_total)

declare loadScriptInternal.simps [simp del] load_lines.simps [simp del]
  load_entries.simps [simp del]

text \<open>
  An activation of one of the three functions, and the value that its variable
  \<^verbatim>\<open>inclusionDepth\<close> has while its body runs: for \<^verbatim>\<open>loadScriptInternal\<close> the argument after
  the increment at the top, for the two loops the value they are given. \<open>isInclude\<close> tells
  the activations of \<^verbatim>\<open>loadScriptInternal\<close>, one per file that is included.
\<close>

type_synonym activation =
  "(environment \<times> string \<times> string \<times> int \<times> loader) +
   (environment \<times> string \<times> string \<times> int \<times> string list \<times> nat \<times> loader) +
   (environment \<times> string \<times> int \<times> string list \<times> loader)"

definition depthOf :: "activation \<Rightarrow> int" where
  "depthOf a =
     (case a of
        Inl (env, basepath, filename, inclusionDepth0, c) \<Rightarrow> inclusionDepth0 + 1
      | Inr (Inl (env, basepath, filename, inclusionDepth, fileLines, fileLineIndex, c)) \<Rightarrow>
          inclusionDepth
      | Inr (Inr (env, path, inclusionDepth, fileEntries, c)) \<Rightarrow> inclusionDepth)"

definition isInclude :: "activation \<Rightarrow> bool" where
  "isInclude a = (case a of Inl _ \<Rightarrow> True | Inr _ \<Rightarrow> False)"

text \<open>
  An environment in which every include graph is cyclic or endless: every file can be
  read and holds an include line after any number of other lines; the include is plain,
  or it has the wildcard and every wildcard mask matches at least one file.
\<close>

definition always_includes :: "environment \<Rightarrow> bool" where
  "always_includes env \<longleftrightarrow>
     (\<forall>p. \<exists>content before l ls. loadFile env p = Some content
         \<and> processLines env (getLines env content) = Inr (before @ l # ls)
         \<and> (\<forall>x \<in> set before. take 8 x \<noteq> ''include '')
         \<and> take 8 l = ''include ''
         \<and> (snd (includeTarget l) = ''?'' \<longrightarrow> (\<forall>mask. listFilesByMask env mask \<noteq> [])))"

subsection \<open>The recursion depth ceiling\<close>

lemma loadScriptInternal_ceiling: "49 \<le> d \<Longrightarrow> loadScriptInternal env b f d c =
   (False, c\<lparr>mErrors := mErrors c @ [newError (depthMessage b f)]\<rparr>)"
  by (simp add: loadScriptInternal.simps)

lemma load_lines_other:
  assumes "\<forall>x \<in> set before. take 8 x \<noteq> ''include ''"
  shows "load_lines env b f d (before @ rest) i c =
    load_lines env b f d rest (i + length before) (c\<lparr>outLines := outLines c @ before\<rparr>)"
  using assms
proof (induction before arbitrary: i c)
  case Nil
  then show ?case by simp
next
  case (Cons x xs)
  then have "load_lines env b f d ((x # xs) @ rest) i c =
      load_lines env b f d (xs @ rest) (i + 1) (c\<lparr>outLines := outLines c @ [x]\<rparr>)"
    by (simp add: load_lines.simps)
  also have "\<dots> = load_lines env b f d rest (i + 1 + length xs)
      (c\<lparr>outLines := outLines c @ [x]\<rparr>\<lparr>outLines := outLines (c\<lparr>outLines := outLines c @ [x]\<rparr>) @ xs\<rparr>)"
    using Cons.prems by (intro Cons.IH) simp
  finally show ?case by simp
qed

lemma loadScriptInternal_cycle:
  assumes "always_includes env"
  shows "n = nat (49 - d) \<Longrightarrow> \<exists>c' b' f'. loadScriptInternal env b f d c = (False, c')
     \<and> mErrors c' = mErrors c @ [newError (depthMessage b' f')]
     \<and> length (mScriptFiles c') = length (mScriptFiles c) + nat (49 - d)"
proof (induction n arbitrary: d b f c)
  case 0
  then have "49 \<le> d" by simp
  then have "loadScriptInternal env b f d c =
      (False, c\<lparr>mErrors := mErrors c @ [newError (depthMessage b f)]\<rparr>)"
    by (rule loadScriptInternal_ceiling)
  moreover have "nat (49 - d) = 0" using \<open>49 \<le> d\<close> by simp
  ultimately show ?case by (intro exI [of _ "c\<lparr>mErrors := mErrors c @ [newError (depthMessage b f)]\<rparr>"]
      exI [of _ b] exI [of _ f]) simp
next
  case (Suc n)
  then have d: "d + 1 < 50" and n: "n = nat (49 - (d + 1))" by simp_all
  from assms obtain content before l ls where lf: "loadFile env (b @ f) = Some content"
    and pl: "processLines env (getLines env content) = Inr (before @ l # ls)"
    and other: "\<forall>x \<in> set before. take 8 x \<noteq> ''include ''"
    and inc: "take 8 l = ''include ''"
    and wild: "snd (includeTarget l) = ''?'' \<longrightarrow> (\<forall>mask. listFilesByMask env mask \<noteq> [])"
    unfolding always_includes_def by blast
  obtain ib ifn where it: "includeTarget l = (ib, ifn)" by (cases "includeTarget l")
  define c1 where "c1 = c\<lparr>mScriptFiles := mScriptFiles c @
        [\<lparr>mBasePath = b, mFilename_file = f, mFirstLine = length (outLines c) + 1, mContent = content\<rparr>],
      mLineNumberTranslation := push (mLineNumberTranslation c) (of_nat (length (outLines c)) + 1) f 0\<rparr>"
  define c2 where "c2 = c1\<lparr>outLines := outLines c1 @ before\<rparr>"
  have nested: "\<exists>c' b' f'. loadScriptInternal env (b @ ib) g (d + 1) c2 = (False, c')
     \<and> mErrors c' = mErrors c2 @ [newError (depthMessage b' f')]
     \<and> length (mScriptFiles c') = length (mScriptFiles c2) + nat (49 - (d + 1))" for g
    by (rule Suc.IH [OF n])
  have "\<exists>c' b' f'. (if ifn = ''?''
           then load_entries env (b @ ib) (d + 1) (listFilesByMask env (b @ ib @ ''*.lemon'')) c2
           else loadScriptInternal env (b @ ib) (ifn @ ''.lemon'') (d + 1) c2) = (False, c')
     \<and> mErrors c' = mErrors c2 @ [newError (depthMessage b' f')]
     \<and> length (mScriptFiles c') = length (mScriptFiles c2) + nat (49 - (d + 1))"
  proof (cases "ifn = ''?''")
    case True
    with wild it obtain e es where entries: "listFilesByMask env (b @ ib @ ''*.lemon'') = e # es"
      by (cases "listFilesByMask env (b @ ib @ ''*.lemon'')") auto
    from nested [of e] obtain c' b' f' where
      "loadScriptInternal env (b @ ib) e (d + 1) c2 = (False, c')"
      "mErrors c' = mErrors c2 @ [newError (depthMessage b' f')]"
      "length (mScriptFiles c') = length (mScriptFiles c2) + nat (49 - (d + 1))"
      by blast
    then show ?thesis
      using True entries by (auto simp: load_entries.simps)
  next
    case False
    with nested [of "ifn @ ''.lemon''"] show ?thesis by simp
  qed
  then obtain c' b' f' where r: "(if ifn = ''?''
           then load_entries env (b @ ib) (d + 1) (listFilesByMask env (b @ ib @ ''*.lemon'')) c2
           else loadScriptInternal env (b @ ib) (ifn @ ''.lemon'') (d + 1) c2) = (False, c')"
     and e: "mErrors c' = mErrors c2 @ [newError (depthMessage b' f')]"
     and s: "length (mScriptFiles c') = length (mScriptFiles c2) + nat (49 - (d + 1))"
    by blast
  have "loadScriptInternal env b f d c = load_lines env b f (d + 1) (before @ l # ls) 0 c1"
    using d lf pl by (simp add: loadScriptInternal.simps c1_def Let_def)
  also have "\<dots> = load_lines env b f (d + 1) (l # ls) (0 + length before) c2"
    unfolding c2_def by (rule load_lines_other [OF other])
  also have "\<dots> = (False, c')"
    using inc it r by (simp add: load_lines.simps)
  finally have "loadScriptInternal env b f d c = (False, c')" .
  moreover have "mErrors c' = mErrors c @ [newError (depthMessage b' f')]"
    using e by (simp add: c1_def c2_def)
  moreover have "length (mScriptFiles c') = length (mScriptFiles c) + nat (49 - d)"
    using s d by (simp add: c1_def c2_def nat_diff_distrib)
  ultimately show ?case by blast
qed

lemma nested_call_depth:
  assumes "loadScriptInternal_load_lines_load_entries_rel callee caller"
  shows "depthOf callee = (if isInclude callee then depthOf caller + 1 else depthOf caller)
    \<and> (isInclude caller \<longrightarrow> depthOf caller < 50)"
  using assms
  by (cases rule: loadScriptInternal_load_lines_load_entries_rel.cases)
     (simp_all add: depthOf_def isInclude_def)

text \<open>
  Claim C4. \<^verbatim>\<open>loadScriptInternal\<close> terminates for every input, also on cyclic include
  graphs: every argument is in the domain on which the recursion ends. In every recursive
  call the inclusion depth of the callee is that of the caller, plus exactly one when the
  callee is \<^verbatim>\<open>loadScriptInternal\<close> itself (a nested include, plain or by wildcard, at any
  line of the file) and unchanged when it is one of the two loops; and a
  \<^verbatim>\<open>loadScriptInternal\<close> that calls anything has a depth below 50. Called with a depth that
  the increment takes to 50 or more, it appends the recursion depth diagnostic and returns
  false without loading anything. So where every file holds an include, a call at depth \<open>d\<close>
  returns false with that single diagnostic after registering exactly \<open>49 - d\<close> script files,
  one per level of nesting.
\<close>

theorem loadScriptInternal_depth_ceiling:
  "loadScriptInternal_load_lines_load_entries_dom (Inl (env, basepath, filename, inclusionDepth, c))
   \<and> (loadScriptInternal_load_lines_load_entries_rel callee caller \<longrightarrow>
        depthOf callee = (if isInclude callee then depthOf caller + 1 else depthOf caller)
        \<and> (isInclude caller \<longrightarrow> depthOf caller < 50))
   \<and> (50 \<le> inclusionDepth + 1 \<longrightarrow>
      loadScriptInternal env basepath filename inclusionDepth c =
        (False, c\<lparr>mErrors := mErrors c @ [newError (depthMessage basepath filename)]\<rparr>))
   \<and> (always_includes env \<longrightarrow>
        (\<exists>c' b' f'. loadScriptInternal env basepath filename inclusionDepth c = (False, c')
           \<and> mErrors c' = mErrors c @ [newError (depthMessage b' f')]
           \<and> length (mScriptFiles c') = length (mScriptFiles c) + nat (49 - inclusionDepth)))"
proof -
  have total: "loadScriptInternal_load_lines_load_entries_dom
      (Inl (env, basepath, filename, inclusionDepth, c))"
    using loadScriptInternal_total by simp
  have ceiling: "loadScriptInternal env basepath filename inclusionDepth c =
        (False, c\<lparr>mErrors := mErrors c @ [newError (depthMessage basepath filename)]\<rparr>)"
    if "50 \<le> inclusionDepth + 1"
    using that by (intro loadScriptInternal_ceiling) simp
  have cycle: "\<exists>c' b' f'. loadScriptInternal env basepath filename inclusionDepth c = (False, c')
           \<and> mErrors c' = mErrors c @ [newError (depthMessage b' f')]
           \<and> length (mScriptFiles c') = length (mScriptFiles c) + nat (49 - inclusionDepth)"
    if "always_includes env"
    using that by (rule loadScriptInternal_cycle) simp
  from total nested_call_depth [of callee caller] ceiling cycle show ?thesis
    by blast
qed

text \<open>
  The witness: a file that includes itself, and a file whose second line includes every
  file of its directory, both loaded from depth 0; the call at the ceiling; and the call
  of \<^verbatim>\<open>loadScriptInternal\<close> for the first entry of a wildcard include.
\<close>

definition self_include :: environment where
  "self_include = \<lparr>loadFile = (\<lambda>p. Some ''include a''), getLines = (\<lambda>content. [content]),
     processLines = Inr, listFilesByMask = (\<lambda>mask. [])\<rparr>"

definition wildcard_include :: environment where
  "wildcard_include = \<lparr>loadFile = (\<lambda>p. Some ''x''), getLines = (\<lambda>content. [content, ''include ?'']),
     processLines = Inr, listFilesByMask = (\<lambda>mask. [''a.lemon'', ''b.lemon''])\<rparr>"

definition empty_loader :: loader where
  "empty_loader = \<lparr>mErrors = [], mScriptFiles = [], mLineNumberTranslation = [], outLines = []\<rparr>"

theorem loadScriptInternal_depth_ceiling_witness:
  "fst (loadScriptInternal self_include '''' ''a.lemon'' 0 empty_loader) = False
   \<and> length (mErrors (snd (loadScriptInternal self_include '''' ''a.lemon'' 0 empty_loader))) = 1
   \<and> length (mScriptFiles (snd (loadScriptInternal self_include '''' ''a.lemon'' 0 empty_loader))) = 49
   \<and> loadScriptInternal self_include '''' ''a.lemon'' 49 empty_loader =
        (False, empty_loader\<lparr>mErrors := [newError (depthMessage '''' ''a.lemon'')]\<rparr>)
   \<and> fst (loadScriptInternal wildcard_include '''' ''a.lemon'' 0 empty_loader) = False
   \<and> length (mErrors (snd (loadScriptInternal wildcard_include '''' ''a.lemon'' 0 empty_loader))) = 1
   \<and> length (mScriptFiles (snd (loadScriptInternal wildcard_include '''' ''a.lemon'' 0 empty_loader))) = 49
   \<and> loadScriptInternal_load_lines_load_entries_rel
        (Inl (wildcard_include, ''d/'', ''a.lemon'', 7, empty_loader))
        (Inr (Inr (wildcard_include, ''d/'', 7, [''a.lemon'', ''b.lemon''], empty_loader)))
   \<and> depthOf (Inl (wildcard_include, ''d/'', ''a.lemon'', 7, empty_loader)) = 8
   \<and> depthOf (Inr (Inr (wildcard_include, ''d/'', 7, [''a.lemon'', ''b.lemon''], empty_loader))) = 7"
proof -
  have inc: "always_includes self_include"
    unfolding always_includes_def
  proof (intro allI)
    fix p
    have "loadFile self_include p = Some ''include a''
         \<and> processLines self_include (getLines self_include ''include a'') = Inr ([] @ ''include a'' # [])
         \<and> (\<forall>x \<in> set []. take 8 x \<noteq> ''include '')
         \<and> take 8 ''include a'' = ''include ''
         \<and> (snd (includeTarget ''include a'') = ''?'' \<longrightarrow> (\<forall>mask. listFilesByMask self_include mask \<noteq> []))"
      by (simp add: self_include_def includeTarget_def findCharBackward_def)
    then show "\<exists>content before l ls. loadFile self_include p = Some content
         \<and> processLines self_include (getLines self_include content) = Inr (before @ l # ls)
         \<and> (\<forall>x \<in> set before. take 8 x \<noteq> ''include '')
         \<and> take 8 l = ''include ''
         \<and> (snd (includeTarget l) = ''?'' \<longrightarrow> (\<forall>mask. listFilesByMask self_include mask \<noteq> []))"
      by blast
  qed
  have wild: "always_includes wildcard_include"
    unfolding always_includes_def
  proof (intro allI)
    fix p
    have "loadFile wildcard_include p = Some ''x''
         \<and> processLines wildcard_include (getLines wildcard_include ''x'') = Inr ([''x''] @ ''include ?'' # [])
         \<and> (\<forall>x \<in> set [''x'']. take 8 x \<noteq> ''include '')
         \<and> take 8 ''include ?'' = ''include ''
         \<and> (snd (includeTarget ''include ?'') = ''?'' \<longrightarrow> (\<forall>mask. listFilesByMask wildcard_include mask \<noteq> []))"
      by (simp add: wildcard_include_def)
    then show "\<exists>content before l ls. loadFile wildcard_include p = Some content
         \<and> processLines wildcard_include (getLines wildcard_include content) = Inr (before @ l # ls)
         \<and> (\<forall>x \<in> set before. take 8 x \<noteq> ''include '')
         \<and> take 8 l = ''include ''
         \<and> (snd (includeTarget l) = ''?'' \<longrightarrow> (\<forall>mask. listFilesByMask wildcard_include mask \<noteq> []))"
      by blast
  qed
  let ?callee = "Inl (wildcard_include, ''d/'', ''a.lemon'', 7, empty_loader)"
  let ?caller = "Inr (Inr (wildcard_include, ''d/'', 7, [''a.lemon'', ''b.lemon''], empty_loader))"
  have call: "loadScriptInternal_load_lines_load_entries_rel ?callee ?caller"
    by (rule loadScriptInternal_load_lines_load_entries_rel.intros)
  from loadScriptInternal_depth_ceiling [of self_include "''''" "''a.lemon''" 0 empty_loader] inc
  obtain c' b' f' where 1:
    "loadScriptInternal self_include '''' ''a.lemon'' 0 empty_loader = (False, c')"
    "mErrors c' = mErrors empty_loader @ [newError (depthMessage b' f')]"
    "length (mScriptFiles c') = length (mScriptFiles empty_loader) + nat (49 - 0)"
    by blast
  from loadScriptInternal_depth_ceiling [of wildcard_include "''''" "''a.lemon''" 0 empty_loader] wild
  obtain c'' b'' f'' where 2:
    "loadScriptInternal wildcard_include '''' ''a.lemon'' 0 empty_loader = (False, c'')"
    "mErrors c'' = mErrors empty_loader @ [newError (depthMessage b'' f'')]"
    "length (mScriptFiles c'') = length (mScriptFiles empty_loader) + nat (49 - 0)"
    by blast
  have 3: "loadScriptInternal self_include '''' ''a.lemon'' 49 empty_loader =
        (False, empty_loader\<lparr>mErrors := [newError (depthMessage '''' ''a.lemon'')]\<rparr>)"
    using loadScriptInternal_depth_ceiling [of self_include "''''" "''a.lemon''" 49 empty_loader]
    by (simp add: empty_loader_def)
  from loadScriptInternal_depth_ceiling [of _ _ _ _ _ ?callee ?caller] call
  have 4: "depthOf ?callee = depthOf ?caller + 1"
    by (simp add: isInclude_def)
  have 5: "depthOf ?caller = 7"
    by (simp add: depthOf_def)
  from 1 2 3 4 5 call show ?thesis by (simp add: empty_loader_def)
qed

section \<open>Tokens and nodes\<close>

text \<open>
  The enumerations of the lexer. \<open>Keyword\<close> lists the reserved words and the two block
  markers. Of the operators, the compiler names six; \<open>OTHER_OPERATOR\<close> stands for the
  rest of the enumeration (arithmetic, bitwise, logical, comparison, member access).
\<close>

datatype Keyword =
    BLOCK_BEGIN | BLOCK_END | FUNCTION | GLOBAL | DEFINE | RETURN | CALL | JUMP
  | BREAK | CONTINUE | IF | ELSE | WHILE | FOR

datatype Operator =
    ASSIGN | PARENTHESIS_LEFT | PARENTHESIS_RIGHT | COMMA_SEPARATOR | SEMICOLON_SEPARATOR
  | COLON | OTHER_OPERATOR nat

text \<open>A \<^verbatim>\<open>const DataTypeDefinition*\<close> is the name of the type it points to.\<close>

type_synonym DataTypeDefinition = string

text \<open>The tokens of the lexer (\<^verbatim>\<open>ParserToken\<close>), one constructor per \<^verbatim>\<open>ParserToken::Type\<close>.\<close>

datatype ParserToken =
    KeywordParserToken Keyword
  | VarTypeParserToken DataTypeDefinition
  | OperatorParserToken Operator
  | LabelParserToken string
  | PragmaParserToken string
  | ConstantParserToken uint64
  | StringLiteralParserToken string
  | IdentifierParserToken string

text \<open>
  The tokens of the compiler. Modelled from the spec: the token classes are not among the
  sources; a \<open>StatementToken\<close> is an evaluated expression tree that owns its children
  in order, produced only by token processing, and it is the only token that
  \<^verbatim>\<open>isStatement()\<close> accepts.
\<close>

datatype Token =
    KeywordToken (mKeyword: Keyword)
  | VarTypeToken (mDataType: DataTypeDefinition)
  | OperatorToken (mOperator: Operator)
  | LabelToken (mName: string)
  | ConstantToken (mValue: uint64)
  | IdentifierToken (mIdentifierName: string)
  | StatementToken "Token list"

text \<open>\<^verbatim>\<open>Token::Type\<close> and \<^verbatim>\<open>getType()\<close>.\<close>

datatype TokenType = KEYWORD | VARTYPE | OPERATOR | LABEL | CONSTANT | IDENTIFIER | STATEMENT

fun getType :: "Token \<Rightarrow> TokenType" where
  "getType (KeywordToken _) = KEYWORD"
| "getType (VarTypeToken _) = VARTYPE"
| "getType (OperatorToken _) = OPERATOR"
| "getType (LabelToken _) = LABEL"
| "getType (ConstantToken _) = CONSTANT"
| "getType (IdentifierToken _) = IDENTIFIER"
| "getType (StatementToken _) = STATEMENT"

fun isStatement :: "Token \<Rightarrow> bool" where
  "isStatement (StatementToken _) = True"
| "isStatement _ = False"

fun isOperator :: "Token \<Rightarrow> Operator \<Rightarrow> bool" where
  "isOperator (OperatorToken operator) op = (operator = op)"
| "isOperator _ op = False"

text \<open>
  Nodes: a line number and one alternative per \<^verbatim>\<open>Node::Type\<close>. A pointer to a content
  node that may be null is an option; \<^verbatim>\<open>FunctionNode::mFunction\<close> points into the
  module's functions and is the position of the function there.
\<close>

datatype SubType = EXTERNAL_CALL | EXTERNAL_JUMP

datatype Node = Node (getLineNumber: uint32) (getKind: NodeKind)
and NodeKind =
    BlockNode (mNodes: "Node list")
  | UndefinedNode (mTokenList: "Token list")
  | PragmaNode (mPragmaContent: string)
  | FunctionNode (mFunction: nat) (mFunctionContent: "Node option")
  | StatementNode (mStatementToken: Token)
  | ReturnNode "Token option"
  | ExternalNode Token SubType
  | JumpNode Token
  | LabelNode string
  | BreakNode
  | ContinueNode
  | IfStatementNode (mConditionToken: Token) (mContentIf: "Node option") (mContentElse: "Node option")
  | ElseStatementNode
  | WhileStatementNode Token "Node option"
  | ForStatementNode "Token option" "Token option" "Token option" "Node option"

definition setLineNumber :: "uint32 \<Rightarrow> Node \<Rightarrow> Node" where
  "setLineNumber lineNumber node = Node lineNumber (getKind node)"

section \<open>Module and globals lookup\<close>

record StoredString =
  getString :: string
  getHash :: uint64

record GlobalVariable =
  mGlobalName :: string
  mGlobalDataType :: DataTypeDefinition
  mInitialValue :: "uint64 option"

record Define =
  mDefineName :: string
  mDefineDataType :: DataTypeDefinition
  mDefineContent :: "Token list"

record Parameter =
  mType :: DataTypeDefinition
  mIdentifier :: string

record LocalVariable =
  mLocalName :: string
  mLocalDataType :: DataTypeDefinition
  mLocalId :: nat
  mLocalLineNumber :: uint32

record ScriptFunction =
  mFunctionName :: string
  mReturnType :: DataTypeDefinition
  mParameters :: "Parameter list"
  mLocalVariablesById :: "LocalVariable list"
  mPragmas :: "string list"
  mSourceFilename :: string
  mSourceBaseLineOffset :: uint32

record Module =
  mStringLiterals :: "StoredString list"
  mGlobalVariables :: "GlobalVariable list"
  mDefines :: "Define list"
  mScriptFunctions :: "ScriptFunction list"

text \<open>
  The lookup resolves names across modules. It refers to the variables, defines and
  functions of the module; here it holds the names (for a function, the name and the
  types of the parameters) that are registered.
\<close>

record GlobalsLookup =
  mAllStringLiterals :: "StoredString list"
  mVariableNames :: "string list"
  mDefineNames :: "string list"
  mFunctionSignatures :: "(string \<times> DataTypeDefinition list) list"

text \<open>
  Modelled from the spec: \<^verbatim>\<open>GlobalsLookup::getStringLiteralByHash\<close> and
  \<^verbatim>\<open>Module::addStringLiteral\<close> are not among the sources. The string table maps a hash to
  a stored string; adding a string whose hash is registered already returns the stored
  entry and changes nothing (collisions are resolved by deduplication on the hash),
  otherwise the string is stored under its hash. The result is the pointer that the
  caller tests against null; the specification names no way for interning to fail.
\<close>

definition getStringLiteralByHash :: "StoredString list \<Rightarrow> uint64 \<Rightarrow> StoredString option" where
  "getStringLiteralByHash table hash = find (\<lambda>s. getHash s = hash) table"

definition addStringLiteral_hash :: "Module \<Rightarrow> string \<Rightarrow> uint64 \<Rightarrow> StoredString option \<times> Module" where
  "addStringLiteral_hash module str hash =
     (case getStringLiteralByHash (mStringLiterals module) hash of
        Some stored \<Rightarrow> (Some stored, module)
      | None \<Rightarrow>
          (let stored = \<lparr>getString = str, getHash = hash\<rparr>
           in (Some stored, module\<lparr>mStringLiterals := mStringLiterals module @ [stored]\<rparr>)))"

text \<open>
  The collaborators of node building, as parameters: the lexer
  \<^verbatim>\<open>Parser::splitLineIntoTokens\<close> (it may throw) and the hash \<^verbatim>\<open>rmx::getMurmur2_64\<close>.
\<close>

record lexer =
  splitLineIntoTokens :: "string \<Rightarrow> uint32 \<Rightarrow> error + ParserToken list"
  getMurmur2_64 :: "string \<Rightarrow> uint64"

definition addStringLiteral :: "lexer \<Rightarrow> Module \<Rightarrow> string \<Rightarrow> StoredString option \<times> Module" where
  "addStringLiteral lx module str = addStringLiteral_hash module str (getMurmur2_64 lx str)"

section \<open>Building nodes from code lines\<close>

text \<open>
  \<^verbatim>\<open>blockStack\<close> holds pointers to the block nodes that are open, the root first. Here the
  stack holds the open blocks themselves, innermost first, each as the line number of
  the block node and the children it has so far. In the C++ a block is a child of its
  parent as soon as it is opened; here it is appended to the parent when it is closed.
  Nothing is added to the parent in between, so the tree that results is the same.
\<close>

type_synonym BlockStack = "(uint32 \<times> Node list) list"

text \<open>\<^verbatim>\<open>addNode\<close>: append a node to the block on top of the stack.\<close>

definition addNode :: "BlockStack \<Rightarrow> Node \<Rightarrow> error + BlockStack" where
  "addNode blockStack node =
     (case blockStack of
        [] \<Rightarrow> Inl VectorOutOfRange
      | (blockLine, nodes) # rest \<Rightarrow> Inr ((blockLine, nodes @ [node]) # rest))"

text \<open>The loop "Collect all string literals".\<close>

fun collectStringLiterals :: "lexer \<Rightarrow> ParserToken list \<Rightarrow> Module \<Rightarrow> Module" where
  "collectStringLiterals lx [] module = module"
| "collectStringLiterals lx (StringLiteralParserToken str # rest) module =
     collectStringLiterals lx rest (snd (addStringLiteral lx module str))"
| "collectStringLiterals lx (_ # rest) module = collectStringLiterals lx rest module"

text \<open>
  The translation of one parser token into the compiler tokens it adds to the token list
  of an undefined node (none for a pragma token).
\<close>

fun translateToken ::
    "lexer \<Rightarrow> GlobalsLookup \<Rightarrow> ParserToken \<Rightarrow> Module \<Rightarrow> error + (Token list \<times> Module)" where
  "translateToken lx gl (KeywordParserToken keyword) module = Inr ([KeywordToken keyword], module)"
| "translateToken lx gl (VarTypeParserToken dataType) module = Inr ([VarTypeToken dataType], module)"
| "translateToken lx gl (OperatorParserToken operator) module = Inr ([OperatorToken operator], module)"
| "translateToken lx gl (LabelParserToken name) module = Inr ([LabelToken name], module)"
| "translateToken lx gl (PragmaParserToken pragmaContent) module = Inr ([], module)"
| "translateToken lx gl (ConstantParserToken val) module = Inr ([ConstantToken val], module)"
| "translateToken lx gl (StringLiteralParserToken str) module =
     (let hash = getMurmur2_64 lx str in
      case getStringLiteralByHash (mAllStringLiterals gl) hash of
        Some storedString \<Rightarrow> Inr ([ConstantToken (getHash storedString)], module)
      | None \<Rightarrow>
          (case addStringLiteral_hash module str hash of
             (None, module1) \<Rightarrow>
               Inl (CompilerException
                 ''Failed to create new string literal, there's possibly too many (more than 65536)'' 0)
           | (Some storedString, module1) \<Rightarrow>
               Inr ([ConstantToken (getHash storedString)], module1)))"
| "translateToken lx gl (IdentifierParserToken identifier) module =
     Inr ([IdentifierToken identifier], module)"

fun translateTokens ::
    "lexer \<Rightarrow> GlobalsLookup \<Rightarrow> ParserToken list \<Rightarrow> Module \<Rightarrow> error + (Token list \<times> Module)" where
  "translateTokens lx gl [] module = Inr ([], module)"
| "translateTokens lx gl (parserToken # rest) module =
     (case translateToken lx gl parserToken module of
        Inl e \<Rightarrow> Inl e
      | Inr (tokens, module1) \<Rightarrow>
          (case translateTokens lx gl rest module1 of
             Inl e \<Rightarrow> Inl e
           | Inr (others, module2) \<Rightarrow> Inr (tokens @ others, module2)))"

text \<open>The body of the loop over the lines, for a line that has tokens.\<close>

definition blockBegin :: "uint32 \<Rightarrow> ParserToken list \<Rightarrow> BlockStack \<Rightarrow> error + BlockStack" where
  "blockBegin lineNumber parserTokens blockStack =
     (case CHECK_ERROR (length parserTokens = 1) ''Curly brace must use its own line'' lineNumber of
        Inl e \<Rightarrow> Inl e
      | Inr _ \<Rightarrow> Inr ((lineNumber, []) # blockStack))"

definition blockEnd :: "uint32 \<Rightarrow> ParserToken list \<Rightarrow> BlockStack \<Rightarrow> error + BlockStack" where
  "blockEnd lineNumber parserTokens blockStack =
     (case CHECK_ERROR (length parserTokens = 1) ''Curly brace must use its own line'' lineNumber of
        Inl e \<Rightarrow> Inl e
      | Inr _ \<Rightarrow>
          (case blockStack of
             [] \<Rightarrow> Inl VectorOutOfRange
           | (blockLine, nodes) # rest \<Rightarrow>
               (case CHECK_ERROR (rest \<noteq> []) ''Closed too many blocks'' lineNumber of
                  Inl e \<Rightarrow> Inl e
                | Inr _ \<Rightarrow> addNode rest (Node blockLine (BlockNode nodes)))))"

definition buildNode ::
    "lexer \<Rightarrow> GlobalsLookup \<Rightarrow> uint32 \<Rightarrow> ParserToken list \<Rightarrow> BlockStack \<Rightarrow> Module
      \<Rightarrow> error + (BlockStack \<times> Module)" where
  "buildNode lx gl lineNumber parserTokens blockStack module0 =
     (let module = collectStringLiterals lx parserTokens module0 in
      case hd parserTokens of
        KeywordParserToken BLOCK_BEGIN \<Rightarrow>
          (case blockBegin lineNumber parserTokens blockStack of
             Inl e \<Rightarrow> Inl e
           | Inr blockStack1 \<Rightarrow> Inr (blockStack1, module))
      | KeywordParserToken BLOCK_END \<Rightarrow>
          (case blockEnd lineNumber parserTokens blockStack of
             Inl e \<Rightarrow> Inl e
           | Inr blockStack1 \<Rightarrow> Inr (blockStack1, module))
      | PragmaParserToken pragmaContent \<Rightarrow>
          (case addNode blockStack (Node lineNumber (PragmaNode pragmaContent)) of
             Inl e \<Rightarrow> Inl e
           | Inr blockStack1 \<Rightarrow> Inr (blockStack1, module))
      | _ \<Rightarrow>
          (case translateTokens lx gl parserTokens module of
             Inl e \<Rightarrow> Inl e
           | Inr (tokens, module1) \<Rightarrow>
               (case addNode blockStack (Node lineNumber (UndefinedNode tokens)) of
                  Inl e \<Rightarrow> Inl e
                | Inr blockStack1 \<Rightarrow> Inr (blockStack1, module1))))"

text \<open>The loop over the lines; \<open>lineNumber\<close> is the number of the line before.\<close>

fun buildLines ::
    "lexer \<Rightarrow> GlobalsLookup \<Rightarrow> string list \<Rightarrow> uint32 \<Rightarrow> BlockStack \<Rightarrow> Module
      \<Rightarrow> error + (uint32 \<times> BlockStack \<times> Module)" where
  "buildLines lx gl [] lineNumber blockStack module = Inr (lineNumber, blockStack, module)"
| "buildLines lx gl (line # rest) lineNumber0 blockStack module =
     (let lineNumber = lineNumber0 + 1 in
      case splitLineIntoTokens lx line lineNumber of
        Inl e \<Rightarrow> Inl e
      | Inr parserTokens \<Rightarrow>
          if parserTokens = [] then buildLines lx gl rest lineNumber blockStack module
          else
            (case buildNode lx gl lineNumber parserTokens blockStack module of
               Inl e \<Rightarrow> Inl e
             | Inr (blockStack1, module1) \<Rightarrow> buildLines lx gl rest lineNumber blockStack1 module1))"

text \<open>
  \<^verbatim>\<open>buildNodesFromCodeLines\<close>: the root block comes in as its line number and children and
  is returned as a node, with the module as the lines left it.
\<close>

definition buildNodesFromCodeLines ::
    "lexer \<Rightarrow> GlobalsLookup \<Rightarrow> uint32 \<times> Node list \<Rightarrow> string list \<Rightarrow> Module
      \<Rightarrow> error + (Node \<times> Module)" where
  "buildNodesFromCodeLines lx gl rootNode lines module =
     (case buildLines lx gl lines 0 [rootNode] module of
        Inl e \<Rightarrow> Inl e
      | Inr (lineNumber, blockStack, module1) \<Rightarrow>
          (case CHECK_ERROR (length blockStack = 1) ''More blocks opened than closed'' lineNumber of
             Inl e \<Rightarrow> Inl e
           | Inr _ \<Rightarrow>
               (case blockStack of
                  [] \<Rightarrow> Inl VectorOutOfRange
                | (rootLine, nodes) # _ \<Rightarrow> Inr (Node rootLine (BlockNode nodes), module1))))"

subsection \<open>Bracket structure of a line sequence\<close>

text \<open>
  A line begins or ends a block when its first token is the keyword. \<open>unmatched\<close> is the
  usual matching of brackets over the tokenised lines: from nesting depth \<open>depth\<close> and
  the number \<open>n\<close> of the line before, it gives the line numbers of the closing lines
  that have no opening line, and the number of opening lines left open at the end.
\<close>

definition isBlockBegin :: "ParserToken list \<Rightarrow> bool" where
  "isBlockBegin parserTokens =
     (case parserTokens of KeywordParserToken BLOCK_BEGIN # _ \<Rightarrow> True | _ \<Rightarrow> False)"

definition isBlockEnd :: "ParserToken list \<Rightarrow> bool" where
  "isBlockEnd parserTokens =
     (case parserTokens of KeywordParserToken BLOCK_END # _ \<Rightarrow> True | _ \<Rightarrow> False)"

fun unmatched :: "nat \<Rightarrow> uint32 \<Rightarrow> ParserToken list list \<Rightarrow> uint32 list \<times> nat" where
  "unmatched depth n [] = ([], depth)"
| "unmatched depth n (t # ts) =
     (if isBlockBegin t then unmatched (depth + 1) (n + 1) ts
      else if isBlockEnd t then
        (if depth = 0 then (case unmatched 0 (n + 1) ts of (closes, opens) \<Rightarrow> ((n + 1) # closes, opens))
         else unmatched (depth - 1) (n + 1) ts)
      else unmatched depth (n + 1) ts)"

text \<open>
  \<open>lexes lx n lines toks\<close>: the lexer splits every line, numbered from \<open>n + 1\<close>, into the
  tokens \<open>toks\<close> without a lexical error. \<open>braces_alone\<close>: a curly brace has its line to
  itself.
\<close>

fun lexes :: "lexer \<Rightarrow> uint32 \<Rightarrow> string list \<Rightarrow> ParserToken list list \<Rightarrow> bool" where
  "lexes lx n [] [] = True"
| "lexes lx n (line # lines) (t # ts) =
     (splitLineIntoTokens lx line (n + 1) = Inr t \<and> lexes lx (n + 1) lines ts)"
| "lexes lx n _ _ = False"

definition braces_alone :: "ParserToken list list \<Rightarrow> bool" where
  "braces_alone toks = list_all (\<lambda>t. (isBlockBegin t \<or> isBlockEnd t) \<longrightarrow> length t = 1) toks"

subsection \<open>Node building and the bracket structure\<close>

lemma translateToken_succeeds:
  "\<exists>tokens module1. translateToken lx gl parserToken module = Inr (tokens, module1)"
  by (cases parserToken)
     (simp_all add: Let_def addStringLiteral_hash_def split: option.split)

lemma translateTokens_succeeds:
  "\<exists>tokens module1. translateTokens lx gl parserTokens module = Inr (tokens, module1)"
proof (induction parserTokens arbitrary: module)
  case Nil
  then show ?case by simp
next
  case (Cons p ps)
  obtain ts m1 where 1: "translateToken lx gl p module = Inr (ts, m1)"
    using translateToken_succeeds by blast
  obtain ts2 m2 where 2: "translateTokens lx gl ps m1 = Inr (ts2, m2)"
    using Cons.IH by blast
  show ?case by (simp add: 1 2)
qed

lemma buildNode_begin:
  assumes "isBlockBegin t" "length t = 1"
  shows "buildNode lx gl lineNumber t blockStack module =
           Inr ((lineNumber, []) # blockStack, collectStringLiterals lx t module)"
proof -
  from assms have "t = [KeywordParserToken BLOCK_BEGIN]"
    by (cases t) (auto simp: isBlockBegin_def split: ParserToken.splits Keyword.splits)
  then show ?thesis
    by (simp add: buildNode_def blockBegin_def CHECK_ERROR_def)
qed

lemma buildNode_end_last:
  assumes "isBlockEnd t" "length t = 1" "length blockStack = 1"
  shows "buildNode lx gl lineNumber t blockStack module =
           Inl (CompilerException ''Closed too many blocks'' lineNumber)"
proof -
  from assms have t: "t = [KeywordParserToken BLOCK_END]"
    by (cases t) (auto simp: isBlockEnd_def split: ParserToken.splits Keyword.splits)
  from assms obtain b where "blockStack = [b]"
    by (cases blockStack) auto
  with t show ?thesis
    by (cases b) (simp add: buildNode_def blockEnd_def CHECK_ERROR_def)
qed

lemma buildNode_end_inner:
  assumes "isBlockEnd t" "length t = 1" "length blockStack = Suc (Suc d)"
  shows "\<exists>blockStack1 module1. buildNode lx gl lineNumber t blockStack module =
           Inr (blockStack1, module1) \<and> length blockStack1 = Suc d"
proof -
  from assms have t: "t = [KeywordParserToken BLOCK_END]"
    by (cases t) (auto simp: isBlockEnd_def split: ParserToken.splits Keyword.splits)
  from assms obtain b p rest where bs: "blockStack = b # p # rest" and "length rest = d"
    by (cases blockStack; cases "tl blockStack") auto
  with t show ?thesis
    by (cases b; cases p) (simp add: buildNode_def blockEnd_def CHECK_ERROR_def addNode_def)
qed

lemma buildNode_other:
  assumes "\<not> isBlockBegin t" "\<not> isBlockEnd t" "t \<noteq> []" "blockStack \<noteq> []"
  shows "\<exists>blockStack1 module1. buildNode lx gl lineNumber t blockStack module =
           Inr (blockStack1, module1) \<and> length blockStack1 = length blockStack"
proof -
  obtain b rest where bs: "blockStack = b # rest"
    using assms(4) by (cases blockStack) auto
  obtain bl ns where b: "b = (bl, ns)" by (cases b)
  obtain p where hd: "hd t = p" by simp
  obtain ts m1 where tr: "translateTokens lx gl t (collectStringLiterals lx t module) = Inr (ts, m1)"
    using translateTokens_succeeds by blast
  have nb: "p \<noteq> KeywordParserToken BLOCK_BEGIN" and ne: "p \<noteq> KeywordParserToken BLOCK_END"
    using assms(1-3) hd by (auto simp: isBlockBegin_def isBlockEnd_def split: list.splits)
  show ?thesis
    using tr nb ne unfolding buildNode_def Let_def bs b addNode_def hd
    by (cases p) (auto split: Keyword.splits)
qed

lemma buildLines_unmatched:
  assumes "lexes lx n lines toks" "braces_alone toks" "length blockStack = Suc depth"
  shows "case fst (unmatched depth n toks) of
           k # _ \<Rightarrow> buildLines lx gl lines n blockStack module =
                      Inl (CompilerException ''Closed too many blocks'' k)
         | [] \<Rightarrow> (\<exists>blockStack1 module1. buildLines lx gl lines n blockStack module =
                      Inr (n + of_nat (length lines), blockStack1, module1)
                    \<and> length blockStack1 = Suc (snd (unmatched depth n toks)))"
  using assms
proof (induction lines arbitrary: toks n blockStack module depth)
  case Nil
  then have "toks = []" by (cases toks) auto
  with Nil show ?case by simp
next
  case (Cons line lines)
  then obtain t ts where toks: "toks = t # ts" by (cases toks) auto
  with Cons.prems have split: "splitLineIntoTokens lx line (n + 1) = Inr t"
    and lex: "lexes lx (n + 1) lines ts" and alone: "braces_alone ts"
    and t_alone: "isBlockBegin t \<or> isBlockEnd t \<Longrightarrow> length t = 1"
    by (auto simp: braces_alone_def)
  have len: "n + 1 + of_nat (length lines) = n + of_nat (length (line # lines))"
    by simp
  consider (c_empty) "t = []" | (c_begin) "isBlockBegin t" | (end_last) "isBlockEnd t" "depth = 0"
    | (end_inner) d where "isBlockEnd t" "depth = Suc d"
    | (other) "t \<noteq> []" "\<not> isBlockBegin t" "\<not> isBlockEnd t"
    by (cases depth) auto
  then show ?case
  proof cases
    case c_empty
    then have nb: "\<not> isBlockBegin t" "\<not> isBlockEnd t"
      by (simp_all add: isBlockBegin_def isBlockEnd_def)
    from Cons.IH [OF lex alone Cons.prems(3), of module] c_empty nb show ?thesis
      by (auto simp add: toks split Let_def len simp del: of_nat_Suc split: list.splits prod.splits)
  next
    case c_begin
    then have nb: "\<not> isBlockEnd t" "t \<noteq> []"
      by (auto simp: isBlockBegin_def isBlockEnd_def split: list.splits ParserToken.splits Keyword.splits)
    have bn: "buildNode lx gl (n + 1) t blockStack module =
        Inr ((n + 1, []) # blockStack, collectStringLiterals lx t module)"
      using c_begin t_alone by (intro buildNode_begin) auto
    have "length ((n + 1, []) # blockStack) = Suc (depth + 1)"
      using Cons.prems(3) by simp
    from Cons.IH [OF lex alone this, of "collectStringLiterals lx t module"] c_begin nb bn
    show ?thesis
      by (auto simp add: toks split Let_def len simp del: of_nat_Suc split: list.splits prod.splits)
  next
    case end_last
    then have nb: "\<not> isBlockBegin t" "t \<noteq> []"
      by (auto simp: isBlockBegin_def isBlockEnd_def split: list.splits ParserToken.splits Keyword.splits)
    have "buildNode lx gl (n + 1) t blockStack module =
        Inl (CompilerException ''Closed too many blocks'' (n + 1))"
      using end_last t_alone Cons.prems(3) by (intro buildNode_end_last) auto
    with end_last nb show ?thesis
      by (auto simp add: toks split Let_def split: prod.splits list.splits)
  next
    case (end_inner d)
    then have nb: "\<not> isBlockBegin t" "t \<noteq> []"
      by (auto simp: isBlockBegin_def isBlockEnd_def split: list.splits ParserToken.splits Keyword.splits)
    obtain bs1 m1 where bn: "buildNode lx gl (n + 1) t blockStack module = Inr (bs1, m1)"
      and l1: "length bs1 = Suc d"
      using buildNode_end_inner [of t blockStack d lx gl "n + 1" module] end_inner t_alone Cons.prems(3)
      by auto
    from Cons.IH [OF lex alone l1, of m1] end_inner nb bn show ?thesis
      by (auto simp add: toks split Let_def len simp del: of_nat_Suc split: list.splits prod.splits)
  next
    case other
    obtain bs1 m1 where bn: "buildNode lx gl (n + 1) t blockStack module = Inr (bs1, m1)"
      and l1: "length bs1 = Suc depth"
      using buildNode_other [of t blockStack lx gl "n + 1" module] other Cons.prems(3)
      by fastforce
    from Cons.IH [OF lex alone l1, of m1] other bn show ?thesis
      by (auto simp add: toks split Let_def len simp del: of_nat_Suc split: list.splits prod.splits)
  qed
qed

text \<open>
  Claim C1, as amended. Let the lexer split every line without an error, and let every
  line that begins with a curly brace hold no other token. If the block begin and block
  end lines are balanced, \<^verbatim>\<open>buildNodesFromCodeLines\<close> raises no error at all. If exactly one
  block end line has no partner (and no block is left open), it throws "Closed too many
  blocks" with the number \<open>k\<close> of that line. If exactly one block begin line has no partner,
  it throws "More blocks opened than closed" with the number of the last line. An
  exception ends the function, so it is the only error.
\<close>

theorem buildNodesFromCodeLines_brackets:
  assumes "lexes lx 0 lines toks" and "braces_alone toks"
  shows "(unmatched 0 0 toks = ([], 0) \<longrightarrow>
            (\<exists>root module1. buildNodesFromCodeLines lx gl rootNode lines module = Inr (root, module1)))
       \<and> (\<forall>k. unmatched 0 0 toks = ([k], 0) \<longrightarrow>
            buildNodesFromCodeLines lx gl rootNode lines module =
              Inl (CompilerException ''Closed too many blocks'' k))
       \<and> (unmatched 0 0 toks = ([], 1) \<longrightarrow>
            buildNodesFromCodeLines lx gl rootNode lines module =
              Inl (CompilerException ''More blocks opened than closed'' (of_nat (length lines))))"
proof -
  note main = buildLines_unmatched [OF assms, of "[rootNode]" 0 gl module]
  have balanced: "\<exists>root module1. buildNodesFromCodeLines lx gl rootNode lines module = Inr (root, module1)"
    if "unmatched 0 0 toks = ([], 0)"
  proof -
    from main that obtain blockStack1 module1 where
      "buildLines lx gl lines 0 [rootNode] module = Inr (of_nat (length lines), blockStack1, module1)"
      "length blockStack1 = 1"
      by auto
    then show ?thesis
      by (cases blockStack1) (auto simp: buildNodesFromCodeLines_def CHECK_ERROR_def)
  qed
  have extra_close: "buildNodesFromCodeLines lx gl rootNode lines module =
      Inl (CompilerException ''Closed too many blocks'' k)"
    if "unmatched 0 0 toks = ([k], 0)" for k
    using main that by (simp add: buildNodesFromCodeLines_def)
  have extra_open: "buildNodesFromCodeLines lx gl rootNode lines module =
      Inl (CompilerException ''More blocks opened than closed'' (of_nat (length lines)))"
    if "unmatched 0 0 toks = ([], 1)"
  proof -
    from main that obtain blockStack1 module1 where
      "buildLines lx gl lines 0 [rootNode] module = Inr (of_nat (length lines), blockStack1, module1)"
      "length blockStack1 = 2"
      by auto
    then show ?thesis
      by (simp add: buildNodesFromCodeLines_def CHECK_ERROR_def)
  qed
  from balanced extra_close extra_open show ?thesis by blast
qed

text \<open>
  The witness: a lexer that knows the two braces, the empty line, a pragma and a lexical
  error, and reads every other line as an identifier followed by two string literals;
  the hash of a string is its length.
\<close>

definition toy_lexer :: lexer where
  "toy_lexer = \<lparr>splitLineIntoTokens = (\<lambda>line n.
       if line = ''{'' then Inr [KeywordParserToken BLOCK_BEGIN]
       else if line = ''}'' then Inr [KeywordParserToken BLOCK_END]
       else if line = '''' then Inr []
       else if line = ''#'' then Inr [PragmaParserToken ''p'']
       else if line = ''?'' then Inl (CompilerException ''lexical error'' n)
       else Inr [IdentifierParserToken line, StringLiteralParserToken line,
                 StringLiteralParserToken ''x'']),
     getMurmur2_64 = (\<lambda>s. of_nat (length s))\<rparr>"

definition empty_lookup :: GlobalsLookup where
  "empty_lookup = \<lparr>mAllStringLiterals = [], mVariableNames = [], mDefineNames = [],
     mFunctionSignatures = []\<rparr>"

definition empty_module :: Module where
  "empty_module = \<lparr>mStringLiterals = [], mGlobalVariables = [], mDefines = [],
     mScriptFunctions = []\<rparr>"

theorem buildNodesFromCodeLines_brackets_witness:
  "(\<exists>root module1. buildNodesFromCodeLines toy_lexer empty_lookup (0, []) [''{'', ''#'', ''}''] empty_module
       = Inr (root, module1))
   \<and> buildNodesFromCodeLines toy_lexer empty_lookup (0, []) [''{'', ''}'', ''}'', ''#''] empty_module
       = Inl (CompilerException ''Closed too many blocks'' 3)
   \<and> buildNodesFromCodeLines toy_lexer empty_lookup (0, []) [''{'', ''{'', ''}''] empty_module
       = Inl (CompilerException ''More blocks opened than closed'' 3)"
proof -
  let ?b = "[KeywordParserToken BLOCK_BEGIN]" and ?e = "[KeywordParserToken BLOCK_END]"
  let ?p = "[PragmaParserToken ''p'']"
  have 1: "lexes toy_lexer 0 [''{'', ''#'', ''}''] [?b, ?p, ?e]" "braces_alone [?b, ?p, ?e]"
    "unmatched 0 0 [?b, ?p, ?e] = ([], 0)"
    by (simp_all add: toy_lexer_def braces_alone_def isBlockBegin_def isBlockEnd_def)
  have 2: "lexes toy_lexer 0 [''{'', ''}'', ''}'', ''#''] [?b, ?e, ?e, ?p]" "braces_alone [?b, ?e, ?e, ?p]"
    "unmatched 0 0 [?b, ?e, ?e, ?p] = ([3], 0)"
    by (simp_all add: toy_lexer_def braces_alone_def isBlockBegin_def isBlockEnd_def)
  have 3: "lexes toy_lexer 0 [''{'', ''{'', ''}''] [?b, ?b, ?e]" "braces_alone [?b, ?b, ?e]"
    "unmatched 0 0 [?b, ?b, ?e] = ([], 1)"
    by (simp_all add: toy_lexer_def braces_alone_def isBlockBegin_def isBlockEnd_def)
  show ?thesis
    using buildNodesFromCodeLines_brackets [OF 1(1,2), of empty_lookup "(0, [])" empty_module]
      buildNodesFromCodeLines_brackets [OF 2(1,2), of empty_lookup "(0, [])" empty_module]
      buildNodesFromCodeLines_brackets [OF 3(1,2), of empty_lookup "(0, [])" empty_module]
      1(3) 2(3) 3(3)
    by simp
qed

text \<open>
  The claim as stated, for every line sequence, fails where a line begins with a curly
  brace and holds a further token. With a lexer that splits the line \<^verbatim>\<open>{ x\<close> into the block
  begin keyword and an identifier, the lines \<^verbatim>\<open>{ x\<close>, \<^verbatim>\<open>}\<close>, \<^verbatim>\<open>}\<close> have exactly one block end
  line without a partner, line 3; the error is "Curly brace must use its own line" at line
  1, not "Closed too many blocks" at line 3. The balanced lines \<^verbatim>\<open>{ x\<close>, \<^verbatim>\<open>}\<close> raise the same
  error.
\<close>

definition brace_lexer :: lexer where
  "brace_lexer = \<lparr>splitLineIntoTokens = (\<lambda>line n.
       if line = ''{ x'' then Inr [KeywordParserToken BLOCK_BEGIN, IdentifierParserToken ''x'']
       else if line = ''}'' then Inr [KeywordParserToken BLOCK_END]
       else Inr []),
     getMurmur2_64 = (\<lambda>s. of_nat (length s))\<rparr>"

theorem brace_with_further_token_counterexample:
  "lexes brace_lexer 0 [''{ x'', ''}'', ''}'']
     [[KeywordParserToken BLOCK_BEGIN, IdentifierParserToken ''x''],
      [KeywordParserToken BLOCK_END], [KeywordParserToken BLOCK_END]]
   \<and> unmatched 0 0
       [[KeywordParserToken BLOCK_BEGIN, IdentifierParserToken ''x''],
        [KeywordParserToken BLOCK_END], [KeywordParserToken BLOCK_END]] = ([3], 0)
   \<and> buildNodesFromCodeLines brace_lexer empty_lookup (0, []) [''{ x'', ''}'', ''}''] empty_module =
       Inl (CompilerException ''Curly brace must use its own line'' 1)
   \<and> unmatched 0 0
       [[KeywordParserToken BLOCK_BEGIN, IdentifierParserToken ''x''],
        [KeywordParserToken BLOCK_END]] = ([], 0)
   \<and> buildNodesFromCodeLines brace_lexer empty_lookup (0, []) [''{ x'', ''}''] empty_module =
       Inl (CompilerException ''Curly brace must use its own line'' 1)"
  by (simp add: brace_lexer_def isBlockBegin_def isBlockEnd_def buildNodesFromCodeLines_def
      buildNode_def blockBegin_def CHECK_ERROR_def Let_def)

subsection \<open>String literals\<close>

text \<open>
  The hashes registered in the string table of a module, and the token list that the
  specification describes for an undefined node: every parser token becomes the
  compiler token of its kind, a pragma token is dropped, and a string literal becomes a
  constant that carries the hash of the string.
\<close>

definition registered :: "Module \<Rightarrow> uint64 set" where
  "registered module = getHash ` set (mStringLiterals module)"

definition deduplicated :: "Module \<Rightarrow> bool" where
  "deduplicated module = distinct (map getHash (mStringLiterals module))"

fun spec_token :: "lexer \<Rightarrow> ParserToken \<Rightarrow> Token list" where
  "spec_token lx (KeywordParserToken k) = [KeywordToken k]"
| "spec_token lx (VarTypeParserToken t) = [VarTypeToken t]"
| "spec_token lx (OperatorParserToken op) = [OperatorToken op]"
| "spec_token lx (LabelParserToken name) = [LabelToken name]"
| "spec_token lx (PragmaParserToken pragmaContent) = []"
| "spec_token lx (ConstantParserToken v) = [ConstantToken v]"
| "spec_token lx (StringLiteralParserToken str) = [ConstantToken (getMurmur2_64 lx str)]"
| "spec_token lx (IdentifierParserToken name) = [IdentifierToken name]"

text \<open>\<open>isUndefinedLine\<close>: the line is neither a block marker nor a pragma.\<close>

definition isUndefinedLine :: "ParserToken list \<Rightarrow> bool" where
  "isUndefinedLine parserTokens =
     (case parserTokens of
        [] \<Rightarrow> False
      | KeywordParserToken BLOCK_BEGIN # _ \<Rightarrow> False
      | KeywordParserToken BLOCK_END # _ \<Rightarrow> False
      | PragmaParserToken _ # _ \<Rightarrow> False
      | _ \<Rightarrow> True)"

text \<open>\<open>grows m m1\<close>: every hash of \<open>m\<close> stays registered, and no hash is stored twice.\<close>

definition grows :: "Module \<Rightarrow> Module \<Rightarrow> bool" where
  "grows m m1 = (registered m \<subseteq> registered m1 \<and> (deduplicated m \<longrightarrow> deduplicated m1))"

lemma grows_refl: "grows m m"
  by (simp add: grows_def)

lemma grows_trans: "grows m m1 \<Longrightarrow> grows m1 m2 \<Longrightarrow> grows m m2"
  by (auto simp: grows_def)

lemma getStringLiteralByHash_None:
  "getStringLiteralByHash table hash = None \<longleftrightarrow> hash \<notin> getHash ` set table"
  by (auto simp: getStringLiteralByHash_def find_None_iff)

lemma getStringLiteralByHash_Some:
  "getStringLiteralByHash table hash = Some stored \<Longrightarrow> getHash stored = hash \<and> stored \<in> set table"
  by (auto simp: getStringLiteralByHash_def find_Some_iff)

lemma addStringLiteral_hash_all:
  assumes "addStringLiteral_hash m str hash = (r, m1)"
  shows "grows m m1 \<and> hash \<in> registered m1 \<and> (\<exists>stored. r = Some stored \<and> getHash stored = hash)"
proof (cases "getStringLiteralByHash (mStringLiterals m) hash")
  case None
  then have new: "hash \<notin> getHash ` set (mStringLiterals m)"
    by (simp add: getStringLiteralByHash_None)
  from None assms have m1: "m1 = m\<lparr>mStringLiterals := mStringLiterals m @ [\<lparr>getString = str, getHash = hash\<rparr>]\<rparr>"
    and r: "r = Some \<lparr>getString = str, getHash = hash\<rparr>"
    by (auto simp: addStringLiteral_hash_def Let_def)
  have "grows m m1" using new by (auto simp: m1 grows_def registered_def deduplicated_def)
  moreover have "hash \<in> registered m1" by (simp add: m1 registered_def)
  ultimately show ?thesis by (simp add: r)
next
  case (Some stored)
  with assms have m1: "m1 = m" and r: "r = Some stored"
    by (auto simp: addStringLiteral_hash_def)
  from getStringLiteralByHash_Some [OF Some] have st: "getHash stored = hash" "stored \<in> set (mStringLiterals m)"
    by simp_all
  have "hash \<in> registered m1" using st by (auto simp: m1 registered_def)
  then show ?thesis using st by (simp add: m1 r grows_refl)
qed

lemma addStringLiteral_hash_result:
  assumes "addStringLiteral_hash m str hash = (r, m1)"
  shows "grows m m1" and "hash \<in> registered m1" and "\<exists>stored. r = Some stored \<and> getHash stored = hash"
  using addStringLiteral_hash_all [OF assms] by simp_all

lemma collectStringLiterals_grows:
  "grows m (collectStringLiterals lx t m)"
proof (induction lx t m rule: collectStringLiterals.induct)
  case (2 lx str rest m)
  have "grows m (snd (addStringLiteral lx m str))"
    using addStringLiteral_hash_result(1) [of m str "getMurmur2_64 lx str"]
    by (cases "addStringLiteral lx m str") (simp add: addStringLiteral_def)
  with 2 show ?case by (auto intro: grows_trans)
qed (simp_all add: grows_refl)

lemma collectStringLiterals_registers:
  "StringLiteralParserToken str \<in> set t \<Longrightarrow>
     getMurmur2_64 lx str \<in> registered (collectStringLiterals lx t m)"
proof (induction lx t m rule: collectStringLiterals.induct)
  case (2 lx s rest m)
  let ?m1 = "snd (addStringLiteral lx m s)"
  show ?case
  proof (cases "str = s")
    case True
    have "getMurmur2_64 lx s \<in> registered ?m1"
      using addStringLiteral_hash_result(2) [of m s "getMurmur2_64 lx s"]
      by (cases "addStringLiteral lx m s") (simp add: addStringLiteral_def)
    moreover have "grows ?m1 (collectStringLiterals lx rest ?m1)"
      by (rule collectStringLiterals_grows)
    ultimately show ?thesis using True by (auto simp: grows_def)
  next
    case False
    with 2 show ?thesis by simp
  qed
qed auto

lemma translateToken_spec:
  assumes "translateToken lx gl p m = Inr (ts, m1)"
  shows "ts = spec_token lx p \<and> grows m m1"
proof (cases p)
  case (StringLiteralParserToken str)
  show ?thesis
  proof (cases "getStringLiteralByHash (mAllStringLiterals gl) (getMurmur2_64 lx str)")
    case None
    obtain r m2 where add: "addStringLiteral_hash m str (getMurmur2_64 lx str) = (r, m2)"
      by (cases "addStringLiteral_hash m str (getMurmur2_64 lx str)")
    from addStringLiteral_hash_result [OF add] assms None add StringLiteralParserToken
    show ?thesis by (auto simp: Let_def)
  next
    case (Some stored)
    with assms StringLiteralParserToken getStringLiteralByHash_Some [OF Some]
    show ?thesis by (auto simp: Let_def grows_refl)
  qed
qed (use assms in \<open>auto simp: grows_refl\<close>)

lemma translateTokens_spec:
  "translateTokens lx gl ps m = Inr (ts, m1) \<Longrightarrow>
     ts = concat (map (spec_token lx) ps) \<and> grows m m1"
proof (induction ps arbitrary: m ts m1)
  case Nil
  then show ?case by (simp add: grows_refl)
next
  case (Cons p ps)
  from Cons.prems obtain t1 ma t2 where
    1: "translateToken lx gl p m = Inr (t1, ma)" and
    2: "translateTokens lx gl ps ma = Inr (t2, m1)" and ts: "ts = t1 @ t2"
    by (auto split: sum.splits)
  from translateToken_spec [OF 1] Cons.IH [OF 2] ts show ?case
    by (auto intro: grows_trans)
qed

lemma buildNode_strings:
  assumes "buildNode lx gl lineNumber t blockStack m = Inr (blockStack1, m1)"
  shows "grows m m1"
    and "StringLiteralParserToken str \<in> set t \<Longrightarrow> getMurmur2_64 lx str \<in> registered m1"
    and "isUndefinedLine t \<Longrightarrow> \<exists>blockLine nodes rest. blockStack1 =
           (blockLine, nodes @ [Node lineNumber (UndefinedNode (concat (map (spec_token lx) t)))]) # rest"
proof -
  let ?mc = "collectStringLiterals lx t m"
  have c: "grows m ?mc" by (rule collectStringLiterals_grows)
  have g: "grows ?mc m1"
    using assms unfolding buildNode_def Let_def
    by (auto simp: grows_refl split: ParserToken.splits Keyword.splits sum.splits
        dest: translateTokens_spec)
  from c g show "grows m m1" by (rule grows_trans)
  show "getMurmur2_64 lx str \<in> registered m1" if "StringLiteralParserToken str \<in> set t"
    using collectStringLiterals_registers [OF that, of lx m] g by (auto simp: grows_def)
  show "\<exists>blockLine nodes rest. blockStack1 =
           (blockLine, nodes @ [Node lineNumber (UndefinedNode (concat (map (spec_token lx) t)))]) # rest"
    if "isUndefinedLine t"
  proof -
    from that obtain p ps where t: "t = p # ps" and hd: "hd t = p"
      by (cases t) (auto simp: isUndefinedLine_def)
    from that t have p: "p \<noteq> KeywordParserToken BLOCK_BEGIN" "p \<noteq> KeywordParserToken BLOCK_END"
      "\<And>c. p \<noteq> PragmaParserToken c"
      by (auto simp: isUndefinedLine_def)
    from assms p obtain ts where tr: "translateTokens lx gl t ?mc = Inr (ts, m1)"
      and add: "addNode blockStack (Node lineNumber (UndefinedNode ts)) = Inr blockStack1"
      unfolding buildNode_def Let_def hd
      by (cases p) (auto split: Keyword.splits sum.splits)
    from translateTokens_spec [OF tr] have "ts = concat (map (spec_token lx) t)" by simp
    with add show ?thesis
      by (auto simp: addNode_def split: list.splits)
  qed
qed

lemma buildLines_strings:
  assumes "lexes lx n lines toks"
    and "buildLines lx gl lines n blockStack m = Inr (n1, blockStack1, m1)"
  shows "grows m m1 \<and> (\<forall>t \<in> set toks. \<forall>str. StringLiteralParserToken str \<in> set t \<longrightarrow>
           getMurmur2_64 lx str \<in> registered m1)"
  using assms
proof (induction lines arbitrary: toks n blockStack m)
  case Nil
  then show ?case by (cases toks) (auto simp: grows_refl)
next
  case (Cons line lines)
  then obtain t ts where toks: "toks = t # ts" by (cases toks) auto
  with Cons.prems have split: "splitLineIntoTokens lx line (n + 1) = Inr t"
    and lex: "lexes lx (n + 1) lines ts"
    by auto
  show ?case
  proof (cases "t = []")
    case True
    with Cons.prems(2) split have "buildLines lx gl lines (n + 1) blockStack m = Inr (n1, blockStack1, m1)"
      by (simp add: Let_def)
    from Cons.IH [OF lex this] True show ?thesis by (simp add: toks)
  next
    case False
    with Cons.prems(2) split obtain bs2 m2 where
      bn: "buildNode lx gl (n + 1) t blockStack m = Inr (bs2, m2)" and
      rest: "buildLines lx gl lines (n + 1) bs2 m2 = Inr (n1, blockStack1, m1)"
      by (auto simp: Let_def split: sum.splits)
    from Cons.IH [OF lex rest] have ih: "grows m2 m1"
      "\<forall>t \<in> set ts. \<forall>str. StringLiteralParserToken str \<in> set t \<longrightarrow>
           getMurmur2_64 lx str \<in> registered m1" by simp_all
    have "grows m m1" using buildNode_strings(1) [OF bn] ih(1) by (rule grows_trans)
    moreover have "getMurmur2_64 lx str \<in> registered m1" if "StringLiteralParserToken str \<in> set t" for str
      using buildNode_strings(2) [OF bn that] ih(1) by (auto simp: grows_def)
    ultimately show ?thesis using ih(2) by (simp add: toks)
  qed
qed

text \<open>
  Claim C7. When \<^verbatim>\<open>buildNodesFromCodeLines\<close> returns, the hash of every string literal
  token of every line is registered in the string table of the module, the literals that
  were registered before still are, and the table holds no hash twice if it held none
  twice before. The literals of a line are interned by the first loop over its tokens,
  before the line is classified. The node of a line that is neither a block marker nor a
  pragma holds the token list of the specification, in which each string literal is the
  constant of its hash.
\<close>

theorem string_literals_interned:
  assumes "lexes lx 0 lines toks"
    and "buildNodesFromCodeLines lx gl rootNode lines m = Inr (root, m1)"
  shows "(\<forall>t \<in> set toks. \<forall>str. StringLiteralParserToken str \<in> set t \<longrightarrow>
            getMurmur2_64 lx str \<in> registered m1)
       \<and> registered m \<subseteq> registered m1
       \<and> (deduplicated m \<longrightarrow> deduplicated m1)
       \<and> (\<forall>t module str. StringLiteralParserToken str \<in> set t \<longrightarrow>
            getMurmur2_64 lx str \<in> registered (collectStringLiterals lx t module))
       \<and> (\<forall>t lineNumber blockStack module blockStack1 module1.
            isUndefinedLine t \<and> buildNode lx gl lineNumber t blockStack module = Inr (blockStack1, module1) \<longrightarrow>
            (\<exists>blockLine nodes rest. blockStack1 =
               (blockLine, nodes @ [Node lineNumber (UndefinedNode (concat (map (spec_token lx) t)))]) # rest))"
proof -
  from assms(2) obtain n1 bs1 where
    "buildLines lx gl lines 0 [rootNode] m = Inr (n1, bs1, m1)"
    by (auto simp: buildNodesFromCodeLines_def split: sum.splits list.splits)
  from buildLines_strings [OF assms(1) this] show ?thesis
    by (auto simp: grows_def collectStringLiterals_registers dest: buildNode_strings(3))
qed

theorem string_literals_interned_witness:
  "buildNodesFromCodeLines toy_lexer empty_lookup (0, []) [''ab'', ''{'', ''abc'', ''}''] empty_module =
     Inr (Node 0 (BlockNode
            [Node 1 (UndefinedNode [IdentifierToken ''ab'', ConstantToken 2, ConstantToken 1]),
             Node 2 (BlockNode
               [Node 3 (UndefinedNode [IdentifierToken ''abc'', ConstantToken 3, ConstantToken 1])])]),
          empty_module\<lparr>mStringLiterals :=
            [\<lparr>getString = ''ab'', getHash = 2\<rparr>, \<lparr>getString = ''x'', getHash = 1\<rparr>,
             \<lparr>getString = ''abc'', getHash = 3\<rparr>]\<rparr>)
   \<and> {2, 1, 3} \<subseteq> registered (empty_module\<lparr>mStringLiterals :=
            [\<lparr>getString = ''ab'', getHash = 2\<rparr>, \<lparr>getString = ''x'', getHash = 1\<rparr>,
             \<lparr>getString = ''abc'', getHash = 3\<rparr>]\<rparr>)
   \<and> deduplicated (empty_module\<lparr>mStringLiterals :=
            [\<lparr>getString = ''ab'', getHash = 2\<rparr>, \<lparr>getString = ''x'', getHash = 1\<rparr>,
             \<lparr>getString = ''abc'', getHash = 3\<rparr>]\<rparr>)"
proof -
  let ?m1 = "empty_module\<lparr>mStringLiterals :=
            [\<lparr>getString = ''ab'', getHash = 2\<rparr>, \<lparr>getString = ''x'', getHash = 1\<rparr>,
             \<lparr>getString = ''abc'', getHash = 3\<rparr>]\<rparr>"
  let ?toks = "[[IdentifierParserToken ''ab'', StringLiteralParserToken ''ab'', StringLiteralParserToken ''x''],
     [KeywordParserToken BLOCK_BEGIN],
     [IdentifierParserToken ''abc'', StringLiteralParserToken ''abc'', StringLiteralParserToken ''x''],
     [KeywordParserToken BLOCK_END]]"
  have lex: "lexes toy_lexer 0 [''ab'', ''{'', ''abc'', ''}''] ?toks"
    by (simp add: toy_lexer_def)
  have run: "buildNodesFromCodeLines toy_lexer empty_lookup (0, []) [''ab'', ''{'', ''abc'', ''}''] empty_module =
     Inr (Node 0 (BlockNode
            [Node 1 (UndefinedNode [IdentifierToken ''ab'', ConstantToken 2, ConstantToken 1]),
             Node 2 (BlockNode
               [Node 3 (UndefinedNode [IdentifierToken ''abc'', ConstantToken 3, ConstantToken 1])])]),
          ?m1)"
    by (simp add: buildNodesFromCodeLines_def toy_lexer_def empty_lookup_def empty_module_def
        buildNode_def blockBegin_def blockEnd_def addNode_def CHECK_ERROR_def Let_def
        addStringLiteral_def addStringLiteral_hash_def getStringLiteralByHash_def)
  have dd: "deduplicated empty_module"
    by (simp add: deduplicated_def empty_module_def)
  note interned = string_literals_interned [OF lex run]
  have a: "getMurmur2_64 toy_lexer ''ab'' \<in> registered ?m1"
    by (rule interned [THEN conjunct1, rule_format,
          of "[IdentifierParserToken ''ab'', StringLiteralParserToken ''ab'', StringLiteralParserToken ''x'']"])
       simp_all
  have b: "getMurmur2_64 toy_lexer ''x'' \<in> registered ?m1"
    by (rule interned [THEN conjunct1, rule_format,
          of "[IdentifierParserToken ''ab'', StringLiteralParserToken ''ab'', StringLiteralParserToken ''x'']"])
       simp_all
  have c: "getMurmur2_64 toy_lexer ''abc'' \<in> registered ?m1"
    by (rule interned [THEN conjunct1, rule_format,
          of "[IdentifierParserToken ''abc'', StringLiteralParserToken ''abc'', StringLiteralParserToken ''x'']"])
       simp_all
  have d: "deduplicated ?m1"
    by (rule interned [THEN conjunct2, THEN conjunct2, THEN conjunct1, rule_format, OF dd])
  from a b c have "{2, 1, 3} \<subseteq> registered ?m1"
    by (simp add: toy_lexer_def)
  with d run show ?thesis
    by simp
qed

section \<open>The global definitions pass\<close>

subsection \<open>Symbol tables\<close>

text \<open>
  Modelled from the spec: the classes \<^verbatim>\<open>Module\<close>, \<^verbatim>\<open>GlobalsLookup\<close> and
  \<^verbatim>\<open>ScriptFunction\<close> are not among the sources. A module collects the global variables,
  defines and script functions in the order of their declaration. Registering a
  global variable or a define under a name that is registered already is an error;
  functions may share a name (overloads), but registering the same name with the same
  parameter types twice is an error. A new global variable has no initial value, a new
  function has no local variables and no pragmas. A local variable is added at the end
  of the by-id list of its function, its id is its position there, and it is looked up
  by its name.
\<close>

definition addGlobalVariable :: "Module \<Rightarrow> string \<Rightarrow> DataTypeDefinition \<Rightarrow> Module" where
  "addGlobalVariable module identifier dataType =
     module\<lparr>mGlobalVariables := mGlobalVariables module @
       [\<lparr>mGlobalName = identifier, mGlobalDataType = dataType, mInitialValue = None\<rparr>]\<rparr>"

definition registerVariable :: "GlobalsLookup \<Rightarrow> string \<Rightarrow> error + GlobalsLookup" where
  "registerVariable gl identifier =
     (if identifier \<in> set (mVariableNames gl) then Inl (DuplicateDefinition identifier)
      else Inr (gl\<lparr>mVariableNames := mVariableNames gl @ [identifier]\<rparr>))"

text \<open>\<^verbatim>\<open>variable.mInitialValue = value\<close>, for the variable that was added last.\<close>

definition setInitialValue :: "Module \<Rightarrow> uint64 \<Rightarrow> Module" where
  "setInitialValue module val =
     module\<lparr>mGlobalVariables := butlast (mGlobalVariables module) @
       [(last (mGlobalVariables module))\<lparr>mInitialValue := Some val\<rparr>]\<rparr>"

definition addDefine :: "Module \<Rightarrow> string \<Rightarrow> DataTypeDefinition \<Rightarrow> Token list \<Rightarrow> Module" where
  "addDefine module identifier dataType tokens =
     module\<lparr>mDefines := mDefines module @
       [\<lparr>mDefineName = identifier, mDefineDataType = dataType, mDefineContent = tokens\<rparr>]\<rparr>"

definition registerDefine :: "GlobalsLookup \<Rightarrow> string \<Rightarrow> error + GlobalsLookup" where
  "registerDefine gl identifier =
     (if identifier \<in> set (mDefineNames gl) then Inl (DuplicateDefinition identifier)
      else Inr (gl\<lparr>mDefineNames := mDefineNames gl @ [identifier]\<rparr>))"

definition addScriptFunction ::
    "Module \<Rightarrow> string \<Rightarrow> DataTypeDefinition \<Rightarrow> Parameter list \<Rightarrow> nat \<times> Module" where
  "addScriptFunction module functionName returnType parameters =
     (length (mScriptFunctions module),
      module\<lparr>mScriptFunctions := mScriptFunctions module @
        [\<lparr>mFunctionName = functionName, mReturnType = returnType, mParameters = parameters,
          mLocalVariablesById = [], mPragmas = [], mSourceFilename = '''',
          mSourceBaseLineOffset = 0\<rparr>]\<rparr>)"

definition registerFunction ::
    "GlobalsLookup \<Rightarrow> string \<Rightarrow> Parameter list \<Rightarrow> error + GlobalsLookup" where
  "registerFunction gl functionName parameters =
     (if (functionName, map mType parameters) \<in> set (mFunctionSignatures gl)
      then Inl (DuplicateDefinition functionName)
      else Inr (gl\<lparr>mFunctionSignatures := mFunctionSignatures gl @
                  [(functionName, map mType parameters)]\<rparr>))"

definition getLocalVariableByIdentifier :: "ScriptFunction \<Rightarrow> string \<Rightarrow> LocalVariable option" where
  "getLocalVariableByIdentifier function identifier =
     find (\<lambda>v. mLocalName v = identifier) (mLocalVariablesById function)"

definition addLocalVariable ::
    "ScriptFunction \<Rightarrow> string \<Rightarrow> DataTypeDefinition \<Rightarrow> uint32 \<Rightarrow> ScriptFunction" where
  "addLocalVariable function identifier dataType lineNumber =
     function\<lparr>mLocalVariablesById := mLocalVariablesById function @
       [\<lparr>mLocalName = identifier, mLocalDataType = dataType,
         mLocalId = length (mLocalVariablesById function), mLocalLineNumber = lineNumber\<rparr>]\<rparr>"

subsection \<open>The members of the compiler\<close>

text \<open>
  The members that the pass reads and writes. \<open>mIntervals\<close> is the interval list of
  \<^verbatim>\<open>mLineNumberTranslation\<close>. \<open>mFunctionNodes\<close> holds the function nodes that the pass
  creates (pointers into the tree in the C++).
\<close>

record Compiler =
  mModule :: Module
  mGlobalsLookup :: GlobalsLookup
  mIntervals :: "Interval list"
  mFunctionNodes :: "Node list"

text \<open>A check that guards the rest of a function: the rest runs when the check passes.\<close>

definition CHECKED :: "bool \<Rightarrow> string \<Rightarrow> uint32 \<Rightarrow> error + 'a \<Rightarrow> error + 'a" where
  "CHECKED expr errorMessage lineNumber rest =
     (case CHECK_ERROR expr errorMessage lineNumber of Inl e \<Rightarrow> Inl e | Inr _ \<Rightarrow> rest)"

subsection \<open>processFunctionHeader\<close>

text \<open>
  The loop "Here come the parameters", from \<open>offset\<close> on: a type, an identifier and then a
  comma or the closing parenthesis. The parameters are returned in the order in which
  the loop appends them.
\<close>

function parseParameters :: "uint32 \<Rightarrow> Token list \<Rightarrow> nat \<Rightarrow> error + Parameter list" where
  "parseParameters lineNumber tokens offset =
     (if \<not> offset + 2 < length tokens then
        Inl (CompilerException ''Expected function parameter definition'' lineNumber)
      else if getType (tokens ! offset) \<noteq> VARTYPE then
        Inl (CompilerException ''Expected type in function parameter definition'' lineNumber)
      else if getType (tokens ! (offset + 1)) \<noteq> IDENTIFIER then
        Inl (CompilerException ''Expected identifier in function parameter definition'' lineNumber)
      else if getType (tokens ! (offset + 2)) \<noteq> OPERATOR then
        Inl (CompilerException
          ''Expected comma or closing parentheses after function parameter definition'' lineNumber)
      else
        (let parameter = \<lparr>mType = mDataType (tokens ! offset),
                           mIdentifier = mIdentifierName (tokens ! (offset + 1))\<rparr>;
             op = mOperator (tokens ! (offset + 2))
         in if op = PARENTHESIS_RIGHT then Inr [parameter]
            else if op \<noteq> COMMA_SEPARATOR then
              Inl (CompilerException
                ''Expected comma or closing parentheses after function parameter definition'' lineNumber)
            else
              (case parseParameters lineNumber tokens (offset + 3) of
                 Inl e \<Rightarrow> Inl e
               | Inr parameters \<Rightarrow> Inr (parameter # parameters))))"
  by pat_completeness auto
termination
  by (relation "measure (\<lambda>(lineNumber, tokens, offset). length tokens - offset)") auto

declare parseParameters.simps [simp del]

text \<open>The header up to the closing parenthesis: name, return type and parameters.\<close>

definition parseFunctionHeader ::
    "uint32 \<Rightarrow> Token list \<Rightarrow> error + (string \<times> DataTypeDefinition \<times> Parameter list)" where
  "parseFunctionHeader lineNumber tokens =
     CHECKED (1 < length tokens \<and> getType (tokens ! 1) = VARTYPE)
       ''Expected a typename after 'function' keyword'' lineNumber
     (CHECKED (2 < length tokens \<and> getType (tokens ! 2) = IDENTIFIER)
       ''Expected an identifier in function definition'' lineNumber
     (CHECKED (3 < length tokens \<and> isOperator (tokens ! 3) PARENTHESIS_LEFT)
       ''Expected opening parentheses in function definition'' lineNumber
     (CHECKED (4 < length tokens) ''Unexpected end of function definition'' lineNumber
     (let returnType = mDataType (tokens ! 1); functionName = mIdentifierName (tokens ! 2) in
      if getType (tokens ! 4) = OPERATOR then
        CHECKED (mOperator (tokens ! 4) = PARENTHESIS_RIGHT)
          ''Expected closing parentheses or parameter definition'' lineNumber
          (Inr (functionName, returnType, []))
      else
        (case parseParameters lineNumber tokens 4 of
           Inl e \<Rightarrow> Inl e
         | Inr parameters \<Rightarrow> Inr (functionName, returnType, parameters))))))"

text \<open>The loop "Create new variables for parameters".\<close>

fun addParameterVariables ::
    "uint32 \<Rightarrow> Parameter list \<Rightarrow> ScriptFunction \<Rightarrow> error + ScriptFunction" where
  "addParameterVariables lineNumber [] function = Inr function"
| "addParameterVariables lineNumber (parameter # rest) function =
     CHECKED (getLocalVariableByIdentifier function (mIdentifier parameter) = None)
       ''Parameter name already used'' lineNumber
       (addParameterVariables lineNumber rest
          (addLocalVariable function (mIdentifier parameter) (mType parameter) lineNumber))"

text \<open>
  \<^verbatim>\<open>processFunctionHeader\<close> returns the position of the new function in the module, for
  the reference that the C++ returns.
\<close>

definition processFunctionHeader :: "Compiler \<Rightarrow> uint32 \<Rightarrow> Token list \<Rightarrow> error + (nat \<times> Compiler)" where
  "processFunctionHeader c lineNumber tokens =
     (case parseFunctionHeader lineNumber tokens of
        Inl e \<Rightarrow> Inl e
      | Inr (functionName, returnType, parameters) \<Rightarrow>
          (case addScriptFunction (mModule c) functionName returnType parameters of
             (index, module1) \<Rightarrow>
               (case registerFunction (mGlobalsLookup c) functionName parameters of
                  Inl e \<Rightarrow> Inl e
                | Inr gl1 \<Rightarrow>
                    (case addParameterVariables lineNumber
                            (mParameters (mScriptFunctions module1 ! index))
                            (mScriptFunctions module1 ! index) of
                       Inl e \<Rightarrow> Inl e
                     | Inr function1 \<Rightarrow>
                         (case translateLineNumber (mIntervals c) lineNumber of
                            Inl e \<Rightarrow> Inl e
                          | Inr pair \<Rightarrow>
                              (let function2 = function1\<lparr>mSourceFilename := snd pair,
                                     mSourceBaseLineOffset := lineNumber - fst pair\<rparr>
                               in Inr (index,
                                    c\<lparr>mModule := module1\<lparr>mScriptFunctions :=
                                          (mScriptFunctions module1)[index := function2]\<rparr>,
                                      mGlobalsLookup := gl1\<rparr>)))))))"

subsection \<open>processGlobalDefinitions\<close>

text \<open>The three keyword cases of the scan, each for the tokens of one undefined node.\<close>

definition globalKeyword :: "Compiler \<Rightarrow> uint32 \<Rightarrow> Token list \<Rightarrow> error + Compiler" where
  "globalKeyword c lineNumber tokens =
     CHECKED (1 < length tokens \<and> getType (tokens ! 1) = VARTYPE)
       ''Expected a typename after 'global' keyword'' lineNumber
     (CHECKED (2 < length tokens \<and> getType (tokens ! 2) = IDENTIFIER)
       ''Expected an identifier in global variable definition'' lineNumber
     (let dataType = mDataType (tokens ! 1); identifier = mIdentifierName (tokens ! 2);
          offset = 3;
          module1 = addGlobalVariable (mModule c) identifier dataType
      in case registerVariable (mGlobalsLookup c) identifier of
           Inl e \<Rightarrow> Inl e
         | Inr gl1 \<Rightarrow>
             if offset + 2 \<le> length tokens \<and> isOperator (tokens ! offset) ASSIGN then
               CHECKED (offset + 2 = length tokens \<and> getType (tokens ! (offset + 1)) = CONSTANT)
                 ''Expected a constant value for initializing the global variable'' lineNumber
                 (Inr (c\<lparr>mModule := setInitialValue module1 (mValue (tokens ! (offset + 1))),
                         mGlobalsLookup := gl1\<rparr>))
             else Inr (c\<lparr>mModule := module1, mGlobalsLookup := gl1\<rparr>)))"

definition defineKeyword :: "Compiler \<Rightarrow> uint32 \<Rightarrow> Token list \<Rightarrow> error + Compiler" where
  "defineKeyword c lineNumber tokens =
     (let typed = (1 < length tokens \<and> getType (tokens ! 1) = VARTYPE);
          offset = (if typed then 2 else 1)
      in
      CHECKED (offset < length tokens \<and> getType (tokens ! offset) = IDENTIFIER)
        ''Expected an identifier for define'' lineNumber
      (CHECKED (offset + 1 < length tokens \<and> isOperator (tokens ! (offset + 1)) ASSIGN)
        ''Expected '=' in define'' lineNumber
      (CHECKED (offset + 2 < length tokens) ''Missing define content'' lineNumber
      (CHECKED (typed \<or> getType (tokens ! (offset + 2)) = VARTYPE)
        ''Data type of define could not be determined'' lineNumber
      (let identifier = mIdentifierName (tokens ! offset);
           dataType = (if typed then mDataType (tokens ! 1) else mDataType (tokens ! (offset + 2)))
       in case registerDefine (mGlobalsLookup c) identifier of
            Inl e \<Rightarrow> Inl e
          | Inr gl1 \<Rightarrow>
              Inr (c\<lparr>mModule := addDefine (mModule c) identifier dataType (drop (offset + 2) tokens),
                     mGlobalsLookup := gl1\<rparr>))))))"

text \<open>
  The case of the keyword \<^verbatim>\<open>function\<close>: \<open>following\<close> are the nodes after the header. The
  result is the function node that replaces the header, and the compiler with the
  function registered, the node recorded and the pending pragmas attached.
\<close>

definition functionKeyword ::
    "Compiler \<Rightarrow> string list \<Rightarrow> uint32 \<Rightarrow> Token list \<Rightarrow> Node list \<Rightarrow> error + (Node \<times> Compiler)" where
  "functionKeyword c currentPragmas lineNumber tokens following =
     CHECKED (following \<noteq> []) ''Function definition as last node is not allowed'' lineNumber
     (CHECKED (case getKind (hd following) of BlockNode _ \<Rightarrow> True | _ \<Rightarrow> False)
        ''Expected block node after function header'' lineNumber
     (case processFunctionHeader c lineNumber tokens of
        Inl e \<Rightarrow> Inl e
      | Inr (index, c1) \<Rightarrow>
          (let newNode = Node lineNumber (FunctionNode index (Some (hd following)));
               functions = mScriptFunctions (mModule c1);
               function = functions ! index;
               function1 = function\<lparr>mPragmas := mPragmas function @ currentPragmas\<rparr>
           in Inr (newNode,
                c1\<lparr>mFunctionNodes := mFunctionNodes c1 @ [newNode],
                   mModule := (mModule c1)\<lparr>mScriptFunctions := functions[index := function1]\<rparr>\<rparr>))))"

text \<open>
  The scan over the top-level nodes. \<open>currentPragmas\<close> are the contents of the pragma
  nodes that are pending. The block after a function header is skipped by the scan and
  erased from the node list at its end; here it is left out of the result when it is
  skipped.
\<close>

fun scanGlobalDefinitions ::
    "Compiler \<Rightarrow> string list \<Rightarrow> Node list \<Rightarrow> error + (Node list \<times> Compiler)" where
  "scanGlobalDefinitions c currentPragmas [] = Inr ([], c)"
| "scanGlobalDefinitions c currentPragmas (node # following) =
     (case getKind node of
        PragmaNode pragmaContent \<Rightarrow>
          (case scanGlobalDefinitions c (currentPragmas @ [pragmaContent]) following of
             Inl e \<Rightarrow> Inl e
           | Inr (nodes, c1) \<Rightarrow> Inr (node # nodes, c1))
      | UndefinedNode tokens \<Rightarrow>
          (if tokens = [] then Inl VectorOutOfRange
           else if hd tokens = KeywordToken FUNCTION then
             (case functionKeyword c currentPragmas (getLineNumber node) tokens following of
                Inl e \<Rightarrow> Inl e
              | Inr (newNode, c1) \<Rightarrow>
                  (case scanGlobalDefinitions c1 [] (tl following) of
                     Inl e \<Rightarrow> Inl e
                   | Inr (nodes, c2) \<Rightarrow> Inr (newNode # nodes, c2)))
           else
             (case (if hd tokens = KeywordToken GLOBAL then globalKeyword c (getLineNumber node) tokens
                    else if hd tokens = KeywordToken DEFINE then defineKeyword c (getLineNumber node) tokens
                    else Inr c) of
                Inl e \<Rightarrow> Inl e
              | Inr c1 \<Rightarrow>
                  (case scanGlobalDefinitions c1 [] following of
                     Inl e \<Rightarrow> Inl e
                   | Inr (nodes, c2) \<Rightarrow> Inr (node # nodes, c2))))
      | _ \<Rightarrow>
          (case scanGlobalDefinitions c currentPragmas following of
             Inl e \<Rightarrow> Inl e
           | Inr (nodes, c1) \<Rightarrow> Inr (node # nodes, c1)))"

definition processGlobalDefinitions :: "Compiler \<Rightarrow> Node list \<Rightarrow> error + (Node list \<times> Compiler)" where
  "processGlobalDefinitions c nodes = scanGlobalDefinitions c [] nodes"

subsection \<open>Global variable declarations\<close>

lemma CHECKED_if [simp]:
  "CHECKED expr errorMessage lineNumber rest =
     (if expr then rest else Inl (CompilerException errorMessage lineNumber))"
  by (simp add: CHECKED_def CHECK_ERROR_def)

text \<open>The compiler after a global variable without initial value has been registered.\<close>

definition withGlobal :: "Compiler \<Rightarrow> string \<Rightarrow> DataTypeDefinition \<Rightarrow> uint64 option \<Rightarrow> Compiler" where
  "withGlobal c identifier dataType initialValue =
     c\<lparr>mModule := (mModule c)\<lparr>mGlobalVariables := mGlobalVariables (mModule c) @
          [\<lparr>mGlobalName = identifier, mGlobalDataType = dataType, mInitialValue = initialValue\<rparr>]\<rparr>,
       mGlobalsLookup := (mGlobalsLookup c)\<lparr>mVariableNames :=
          mVariableNames (mGlobalsLookup c) @ [identifier]\<rparr>\<rparr>"

lemma globalKeyword_trailing:
  assumes "identifier \<notin> set (mVariableNames (mGlobalsLookup c))"
  shows "globalKeyword c lineNumber
           (KeywordToken GLOBAL # VarTypeToken dataType # IdentifierToken identifier # trailing) =
         (if 2 \<le> length trailing \<and> isOperator (hd trailing) ASSIGN then
            (if length trailing = 2 \<and> getType (trailing ! 1) = CONSTANT
             then Inr (withGlobal c identifier dataType (Some (mValue (trailing ! 1))))
             else Inl (CompilerException
                    ''Expected a constant value for initializing the global variable'' lineNumber))
          else Inr (withGlobal c identifier dataType None))"
proof -
  have hd: "trailing ! 0 = hd trailing" if "2 \<le> length trailing"
    using that by (cases trailing) auto
  have len: "3 + 2 \<le> length (KeywordToken GLOBAL # VarTypeToken dataType # IdentifierToken identifier # trailing)
      \<longleftrightarrow> 2 \<le> length trailing" by auto
  show ?thesis
    using assms hd
    by (auto simp: globalKeyword_def registerVariable_def Let_def withGlobal_def
        addGlobalVariable_def setInitialValue_def numeral_3_eq_3 numeral_2_eq_2)
qed

text \<open>
  Claim C9. For a top-level node \<^verbatim>\<open>global <type> <identifier>\<close> followed by the tokens
  \<open>trailing\<close>, with a name that is not registered yet: unless \<open>trailing\<close> has at least two
  tokens and starts with the assignment operator, the variable is registered without an
  initial value, the trailing tokens are ignored and no error is raised (so for a lone
  \<^verbatim>\<open>=\<close>, and for tokens that do not start with \<^verbatim>\<open>=\<close>). The error "Expected a constant
  value for initializing the global variable" is raised exactly when \<^verbatim>\<open>=\<close> is followed by
  tokens that are not one constant that ends the line.
\<close>

theorem global_trailing_tokens_ignored:
  assumes "identifier \<notin> set (mVariableNames (mGlobalsLookup c))"
    and "tokens = KeywordToken GLOBAL # VarTypeToken dataType # IdentifierToken identifier # trailing"
  shows "(\<not> (2 \<le> length trailing \<and> isOperator (hd trailing) ASSIGN) \<longrightarrow>
            processGlobalDefinitions c [Node lineNumber (UndefinedNode tokens)] =
              Inr ([Node lineNumber (UndefinedNode tokens)], withGlobal c identifier dataType None))
       \<and> (processGlobalDefinitions c [Node lineNumber (UndefinedNode tokens)] =
            Inl (CompilerException
                  ''Expected a constant value for initializing the global variable'' lineNumber)
          \<longleftrightarrow> 2 \<le> length trailing \<and> isOperator (hd trailing) ASSIGN
               \<and> \<not> (\<exists>v. tl trailing = [ConstantToken v]))
       \<and> (\<forall>v. trailing = [OperatorToken ASSIGN, ConstantToken v] \<longrightarrow>
            processGlobalDefinitions c [Node lineNumber (UndefinedNode tokens)] =
              Inr ([Node lineNumber (UndefinedNode tokens)], withGlobal c identifier dataType (Some v)))"
proof -
  have scan: "processGlobalDefinitions c [Node lineNumber (UndefinedNode tokens)] =
      (case globalKeyword c lineNumber tokens of
         Inl e \<Rightarrow> Inl e
       | Inr c1 \<Rightarrow> Inr ([Node lineNumber (UndefinedNode tokens)], c1))"
    by (simp add: processGlobalDefinitions_def assms(2) split: sum.splits)
  note gk = globalKeyword_trailing [OF assms(1), of lineNumber dataType trailing, folded assms(2)]
  have const: "(length trailing = 2 \<and> getType (trailing ! 1) = CONSTANT) \<longleftrightarrow> (\<exists>v. tl trailing = [ConstantToken v])"
    if "2 \<le> length trailing"
  proof -
    from that obtain a b rest where t: "trailing = a # b # rest"
      by (cases trailing; cases "tl trailing") auto
    show ?thesis by (cases b) (auto simp: t)
  qed
  show ?thesis
    unfolding scan gk using const
    by (auto simp: numeral_2_eq_2)
qed

text \<open>The witness: a lone \<^verbatim>\<open>=\<close>, a trailing identifier, and \<^verbatim>\<open>= x 1\<close>.\<close>

definition toy_compiler :: Compiler where
  "toy_compiler = \<lparr>mModule = empty_module, mGlobalsLookup = empty_lookup,
     mIntervals = [\<lparr>mStartLineNumber = 1, mFilename = ''main.lemon'', mLineOffsetInFile = 0\<rparr>],
     mFunctionNodes = []\<rparr>"

theorem global_trailing_tokens_ignored_witness:
  "processGlobalDefinitions toy_compiler
     [Node 1 (UndefinedNode [KeywordToken GLOBAL, VarTypeToken ''u8'', IdentifierToken ''x'',
        OperatorToken ASSIGN])] =
     Inr ([Node 1 (UndefinedNode [KeywordToken GLOBAL, VarTypeToken ''u8'', IdentifierToken ''x'',
        OperatorToken ASSIGN])], withGlobal toy_compiler ''x'' ''u8'' None)
   \<and> processGlobalDefinitions toy_compiler
     [Node 1 (UndefinedNode [KeywordToken GLOBAL, VarTypeToken ''u8'', IdentifierToken ''x'',
        IdentifierToken ''y'', ConstantToken 5])] =
     Inr ([Node 1 (UndefinedNode [KeywordToken GLOBAL, VarTypeToken ''u8'', IdentifierToken ''x'',
        IdentifierToken ''y'', ConstantToken 5])], withGlobal toy_compiler ''x'' ''u8'' None)
   \<and> processGlobalDefinitions toy_compiler
     [Node 1 (UndefinedNode [KeywordToken GLOBAL, VarTypeToken ''u8'', IdentifierToken ''x'',
        OperatorToken ASSIGN, IdentifierToken ''y'', ConstantToken 1])] =
     Inl (CompilerException ''Expected a constant value for initializing the global variable'' 1)"
proof -
  have fresh: "''x'' \<notin> set (mVariableNames (mGlobalsLookup toy_compiler))"
    by (simp add: toy_compiler_def empty_lookup_def)
  note t = global_trailing_tokens_ignored [OF fresh refl, of _ 1 "''u8''"]
  from t [of "[OperatorToken ASSIGN]"] t [of "[IdentifierToken ''y'', ConstantToken 5]"]
    t [of "[OperatorToken ASSIGN, IdentifierToken ''y'', ConstantToken 1]"]
  show ?thesis by simp
qed

section \<open>Scopes and function parameters\<close>

text \<open>
  Modelled from the spec: \<^verbatim>\<open>ScopeContext\<close> is not among the sources. It holds the local
  variables that are visible and a stack of open scopes. Every block opens a scope on
  entry and closes it on exit; a scope that is opened for a number of nodes (the
  \<^verbatim>\<open>for\<close> statement opens one for two nodes, its header and its body) is closed by
  \<^verbatim>\<open>onNodeProcessed\<close> when that many nodes have been processed. Closing a scope drops
  the local variables that were declared in it. A scope on the stack is the number of
  local variables that were visible when it was opened, and the number of nodes it still
  lasts for, if it is limited.
\<close>

record ScopeContext =
  mLocalVariables :: "LocalVariable list"
  mScopeStack :: "(nat \<times> nat option) list"

definition beginScope :: "nat option \<Rightarrow> ScopeContext \<Rightarrow> ScopeContext" where
  "beginScope numNodes sc =
     sc\<lparr>mScopeStack := (length (mLocalVariables sc), numNodes) # mScopeStack sc\<rparr>"



text \<open>
  The loop "Build scope context for processing" of \<^verbatim>\<open>processSingleFunction\<close>: every local
  variable that the function has so far is pushed to the scope.
\<close>

definition buildScopeContext :: "ScriptFunction \<Rightarrow> ScopeContext" where
  "buildScopeContext function =
     foldl (\<lambda>scopeContext localVariable.
              scopeContext\<lparr>mLocalVariables := mLocalVariables scopeContext @ [localVariable]\<rparr>)
       \<lparr>mLocalVariables = [], mScopeStack = []\<rparr> (mLocalVariablesById function)"

subsection \<open>Parameters are the first local variables\<close>

text \<open>
  The local variables of the parameters \<open>ps\<close>, with ids from \<open>first\<close> on, in the order of
  the parameters; and the tokens of a parameter list as it is written in a header, up to
  the closing parenthesis.
\<close>

definition parameterVariables :: "uint32 \<Rightarrow> nat \<Rightarrow> Parameter list \<Rightarrow> LocalVariable list" where
  "parameterVariables lineNumber first ps =
     map (\<lambda>(i, p). \<lparr>mLocalName = mIdentifier p, mLocalDataType = mType p, mLocalId = i,
                      mLocalLineNumber = lineNumber\<rparr>) (enumerate first ps)"

fun renderParameters :: "Parameter list \<Rightarrow> Token list" where
  "renderParameters [] = []"
| "renderParameters [p] =
     [VarTypeToken (mType p), IdentifierToken (mIdentifier p), OperatorToken PARENTHESIS_RIGHT]"
| "renderParameters (p # q # ps) =
     [VarTypeToken (mType p), IdentifierToken (mIdentifier p), OperatorToken COMMA_SEPARATOR]
       @ renderParameters (q # ps)"

lemma buildScopeContext_locals:
  "mLocalVariables (buildScopeContext function) = mLocalVariablesById function"
proof -
  have "mLocalVariables (foldl (\<lambda>sc v. sc\<lparr>mLocalVariables := mLocalVariables sc @ [v]\<rparr>) sc0 vs)
      = mLocalVariables sc0 @ vs" for sc0 :: ScopeContext and vs
    by (induction vs arbitrary: sc0) simp_all
  then show ?thesis by (simp add: buildScopeContext_def)
qed

lemma addParameterVariables_eq:
  "addParameterVariables lineNumber ps f =
     (if distinct (map mIdentifier ps)
         \<and> set (map mIdentifier ps) \<inter> mLocalName ` set (mLocalVariablesById f) = {}
      then Inr (f\<lparr>mLocalVariablesById := mLocalVariablesById f @
                  parameterVariables lineNumber (length (mLocalVariablesById f)) ps\<rparr>)
      else Inl (CompilerException ''Parameter name already used'' lineNumber))"
proof (induction ps arbitrary: f)
  case Nil
  then show ?case by (simp add: parameterVariables_def)
next
  case (Cons p ps)
  have none: "getLocalVariableByIdentifier f (mIdentifier p) = None \<longleftrightarrow>
      mIdentifier p \<notin> mLocalName ` set (mLocalVariablesById f)"
    by (force simp: getLocalVariableByIdentifier_def find_None_iff)
  show ?case
    by (auto simp: none Cons.IH addLocalVariable_def parameterVariables_def)
qed

lemma parseParameters_render:
  "ps \<noteq> [] \<Longrightarrow> parseParameters lineNumber (pre @ renderParameters ps) (length pre) = Inr ps"
proof (induction ps arbitrary: pre rule: renderParameters.induct)
  case 1
  then show ?case by simp
next
  case (2 p)
  show ?case
    by (subst parseParameters.simps) (simp add: nth_append)
next
  case (3 p q ps)
  let ?three = "[VarTypeToken (mType p), IdentifierToken (mIdentifier p), OperatorToken COMMA_SEPARATOR]"
  have "parseParameters lineNumber ((pre @ ?three) @ renderParameters (q # ps)) (length (pre @ ?three)) =
      Inr (q # ps)"
    by (rule 3) simp
  then have rest: "parseParameters lineNumber (pre @ renderParameters (p # q # ps)) (length pre + 3) =
      Inr (q # ps)"
    by (simp add: numeral_3_eq_3)
  show ?case
    using rest by (subst parseParameters.simps) (simp add: nth_append)
qed

lemma processFunctionHeader_success:
  assumes "processFunctionHeader c lineNumber tokens = Inr (index, c1)"
  shows "\<exists>functionName returnType parameters.
           parseFunctionHeader lineNumber tokens = Inr (functionName, returnType, parameters)
         \<and> distinct (map mIdentifier parameters)
         \<and> mScriptFunctions (mModule c1) = mScriptFunctions (mModule c) @
             [\<lparr>mFunctionName = functionName, mReturnType = returnType, mParameters = parameters,
               mLocalVariablesById = parameterVariables lineNumber 0 parameters, mPragmas = [],
               mSourceFilename = snd (projr (translateLineNumber (mIntervals c) lineNumber)),
               mSourceBaseLineOffset =
                 lineNumber - fst (projr (translateLineNumber (mIntervals c) lineNumber))\<rparr>]
         \<and> index = length (mScriptFunctions (mModule c))
         \<and> mFunctionNodes c1 = mFunctionNodes c"
proof -
  from assms obtain functionName returnType parameters where
    parse: "parseFunctionHeader lineNumber tokens = Inr (functionName, returnType, parameters)"
    by (auto simp: processFunctionHeader_def split: sum.splits)
  let ?fresh = "\<lparr>mFunctionName = functionName, mReturnType = returnType, mParameters = parameters,
          mLocalVariablesById = [], mPragmas = [], mSourceFilename = '''',
          mSourceBaseLineOffset = 0\<rparr>"
  have nth: "(mScriptFunctions (mModule c) @ [?fresh]) ! length (mScriptFunctions (mModule c)) = ?fresh"
    by simp
  from assms parse obtain gl1 function1 pair where
    reg: "registerFunction (mGlobalsLookup c) functionName parameters = Inr gl1" and
    add: "addParameterVariables lineNumber parameters ?fresh = Inr function1" and
    tr: "translateLineNumber (mIntervals c) lineNumber = Inr pair" and
    c1: "c1 = c\<lparr>mModule := (mModule c)\<lparr>mScriptFunctions :=
            (mScriptFunctions (mModule c) @ [?fresh])[length (mScriptFunctions (mModule c)) :=
               function1\<lparr>mSourceFilename := snd pair, mSourceBaseLineOffset := lineNumber - fst pair\<rparr>]\<rparr>,
          mGlobalsLookup := gl1\<rparr>" and
    idx: "index = length (mScriptFunctions (mModule c))"
    by (auto simp: processFunctionHeader_def addScriptFunction_def Let_def nth split: sum.splits)
  from add have d: "distinct (map mIdentifier parameters)"
    and f1: "function1 = ?fresh\<lparr>mLocalVariablesById := parameterVariables lineNumber 0 parameters\<rparr>"
    by (auto simp: addParameterVariables_eq split: if_splits)
  show ?thesis
    using parse d idx by (simp add: c1 f1 tr)
qed

text \<open>
  Claim C6. When \<^verbatim>\<open>processFunctionHeader\<close> succeeds, the by-id list of local variables of
  the new function is one local variable per parameter of the header, in the order of
  the parameters, with the ids 0, 1, 2 and so on, and the parameter names are distinct;
  the scope context that \<^verbatim>\<open>processSingleFunction\<close> builds from a function holds exactly
  the local variables of its by-id list, so for this function exactly these. A header
  that parses (and whose signature is new) with a parameter name that occurs twice is
  the compile error "Parameter name already used". The parameters are those of the
  header in the order in which they are written.
\<close>

theorem parameters_are_first_locals:
  "(processFunctionHeader c lineNumber tokens = Inr (index, c1) \<longrightarrow>
      (\<exists>functionName returnType parameters.
          parseFunctionHeader lineNumber tokens = Inr (functionName, returnType, parameters)
        \<and> index < length (mScriptFunctions (mModule c1))
        \<and> mParameters (mScriptFunctions (mModule c1) ! index) = parameters
        \<and> mLocalVariablesById (mScriptFunctions (mModule c1) ! index) =
            parameterVariables lineNumber 0 parameters
        \<and> distinct (map mIdentifier parameters)
        \<and> mLocalVariables (buildScopeContext (mScriptFunctions (mModule c1) ! index)) =
            parameterVariables lineNumber 0 parameters))
   \<and> (parseFunctionHeader lineNumber tokens = Inr (name, returnType, ps)
        \<and> (name, map mType ps) \<notin> set (mFunctionSignatures (mGlobalsLookup c))
        \<and> \<not> distinct (map mIdentifier ps) \<longrightarrow>
      processFunctionHeader c lineNumber tokens =
        Inl (CompilerException ''Parameter name already used'' lineNumber))
   \<and> (ps \<noteq> [] \<longrightarrow>
      parseFunctionHeader lineNumber
        (KeywordToken FUNCTION # VarTypeToken returnType # IdentifierToken name
           # OperatorToken PARENTHESIS_LEFT # renderParameters ps) = Inr (name, returnType, ps))"
proof (intro conjI impI)
  assume "processFunctionHeader c lineNumber tokens = Inr (index, c1)"
  from processFunctionHeader_success [OF this]
  show "\<exists>functionName returnType parameters.
          parseFunctionHeader lineNumber tokens = Inr (functionName, returnType, parameters)
        \<and> index < length (mScriptFunctions (mModule c1))
        \<and> mParameters (mScriptFunctions (mModule c1) ! index) = parameters
        \<and> mLocalVariablesById (mScriptFunctions (mModule c1) ! index) =
            parameterVariables lineNumber 0 parameters
        \<and> distinct (map mIdentifier parameters)
        \<and> mLocalVariables (buildScopeContext (mScriptFunctions (mModule c1) ! index)) =
            parameterVariables lineNumber 0 parameters"
    by (auto simp: buildScopeContext_locals)
next
  assume a: "parseFunctionHeader lineNumber tokens = Inr (name, returnType, ps)
        \<and> (name, map mType ps) \<notin> set (mFunctionSignatures (mGlobalsLookup c))
        \<and> \<not> distinct (map mIdentifier ps)"
  then show "processFunctionHeader c lineNumber tokens =
        Inl (CompilerException ''Parameter name already used'' lineNumber)"
    by (simp add: processFunctionHeader_def addScriptFunction_def registerFunction_def
        addParameterVariables_eq)
next
  assume ps: "ps \<noteq> []"
  let ?pre = "[KeywordToken FUNCTION, VarTypeToken returnType, IdentifierToken name,
     OperatorToken PARENTHESIS_LEFT]"
  have parse: "parseParameters lineNumber (?pre @ renderParameters ps) (length ?pre) = Inr ps"
    using ps by (rule parseParameters_render)
  obtain t rest where "renderParameters ps = VarTypeToken t # rest"
    using ps by (cases ps rule: renderParameters.cases) auto
  with parse show "parseFunctionHeader lineNumber
        (KeywordToken FUNCTION # VarTypeToken returnType # IdentifierToken name
           # OperatorToken PARENTHESIS_LEFT # renderParameters ps) = Inr (name, returnType, ps)"
    by (simp add: parseFunctionHeader_def numeral_3_eq_3 numeral_2_eq_2 eval_nat_numeral)
qed

theorem parameters_are_first_locals_witness:
  "(\<exists>c1. processFunctionHeader toy_compiler 4
      (KeywordToken FUNCTION # VarTypeToken ''void'' # IdentifierToken ''f''
         # OperatorToken PARENTHESIS_LEFT
         # renderParameters [\<lparr>mType = ''u8'', mIdentifier = ''a''\<rparr>,
                             \<lparr>mType = ''u16'', mIdentifier = ''b''\<rparr>]) = Inr (0, c1)
      \<and> mLocalVariablesById (mScriptFunctions (mModule c1) ! 0) =
          [\<lparr>mLocalName = ''a'', mLocalDataType = ''u8'', mLocalId = 0, mLocalLineNumber = 4\<rparr>,
           \<lparr>mLocalName = ''b'', mLocalDataType = ''u16'', mLocalId = 1, mLocalLineNumber = 4\<rparr>]
      \<and> mLocalVariables (buildScopeContext (mScriptFunctions (mModule c1) ! 0)) =
          [\<lparr>mLocalName = ''a'', mLocalDataType = ''u8'', mLocalId = 0, mLocalLineNumber = 4\<rparr>,
           \<lparr>mLocalName = ''b'', mLocalDataType = ''u16'', mLocalId = 1, mLocalLineNumber = 4\<rparr>])
   \<and> processFunctionHeader toy_compiler 4
      (KeywordToken FUNCTION # VarTypeToken ''void'' # IdentifierToken ''f''
         # OperatorToken PARENTHESIS_LEFT
         # renderParameters [\<lparr>mType = ''u8'', mIdentifier = ''a''\<rparr>,
                             \<lparr>mType = ''u16'', mIdentifier = ''a''\<rparr>]) =
      Inl (CompilerException ''Parameter name already used'' 4)"
proof -
  let ?ab = "[\<lparr>mType = ''u8'', mIdentifier = ''a''\<rparr>, \<lparr>mType = ''u16'', mIdentifier = ''b''\<rparr>]"
  let ?aa = "[\<lparr>mType = ''u8'', mIdentifier = ''a''\<rparr>, \<lparr>mType = ''u16'', mIdentifier = ''a''\<rparr>]"
  let ?header = "\<lambda>ps. KeywordToken FUNCTION # VarTypeToken ''void'' # IdentifierToken ''f''
         # OperatorToken PARENTHESIS_LEFT # renderParameters ps"
  note t = parameters_are_first_locals [of toy_compiler 4 _ _ _ "''f''" "''void''"]
  have p_ab: "parseFunctionHeader 4 (?header ?ab) = Inr (''f'', ''void'', ?ab)"
    using t [of "?header ?ab" 0 toy_compiler ?ab] by simp
  have p_aa: "parseFunctionHeader 4 (?header ?aa) = Inr (''f'', ''void'', ?aa)"
    using t [of "?header ?aa" 0 toy_compiler ?aa] by simp
  have dup: "processFunctionHeader toy_compiler 4 (?header ?aa) =
      Inl (CompilerException ''Parameter name already used'' 4)"
    using t [of "?header ?aa" 0 toy_compiler ?aa] p_aa
    by (simp add: toy_compiler_def empty_lookup_def)
  obtain c1 where run: "processFunctionHeader toy_compiler 4 (?header ?ab) = Inr (0, c1)"
    using p_ab
    by (simp add: processFunctionHeader_def addScriptFunction_def registerFunction_def
        addParameterVariables_eq toy_compiler_def empty_lookup_def empty_module_def
        translateLineNumber_def translateLineNumber_with_def at_def translate_index.simps Let_def)
  from t [of "?header ?ab" 0 c1 ?ab] run p_ab
  have "mLocalVariablesById (mScriptFunctions (mModule c1) ! 0) = parameterVariables 4 0 ?ab"
    "mLocalVariables (buildScopeContext (mScriptFunctions (mModule c1) ! 0)) = parameterVariables 4 0 ?ab"
    by auto
  with run dup show ?thesis
    by (auto simp: parameterVariables_def)
qed

section \<open>Pragmas\<close>

text \<open>The pragma nodes of the pragma lines \<open>ps\<close>, each a line number and a content.\<close>

definition pragmaNodes :: "(uint32 \<times> string) list \<Rightarrow> Node list" where
  "pragmaNodes ps = map (\<lambda>(lineNumber, pragmaContent). Node lineNumber (PragmaNode pragmaContent)) ps"

lemma globalKeyword_functions:
  "globalKeyword c lineNumber tokens = Inr c1 \<Longrightarrow>
     mScriptFunctions (mModule c1) = mScriptFunctions (mModule c)"
  by (auto simp: globalKeyword_def Let_def registerVariable_def addGlobalVariable_def
      setInitialValue_def split: if_splits)

lemma defineKeyword_functions:
  "defineKeyword c lineNumber tokens = Inr c1 \<Longrightarrow>
     mScriptFunctions (mModule c1) = mScriptFunctions (mModule c)"
  by (auto simp: defineKeyword_def Let_def registerDefine_def addDefine_def split: if_splits)

lemma functionKeyword_functions:
  assumes "functionKeyword c currentPragmas lineNumber tokens following = Inr (newNode, c1)"
  shows "\<exists>f. mScriptFunctions (mModule c1) = mScriptFunctions (mModule c) @ [f]
           \<and> mPragmas f = currentPragmas"
proof -
  from assms obtain index c2 where
    header: "processFunctionHeader c lineNumber tokens = Inr (index, c2)" and
    c1: "c1 = c2\<lparr>mFunctionNodes := mFunctionNodes c2 @ [Node lineNumber (FunctionNode index (Some (hd following)))],
            mModule := (mModule c2)\<lparr>mScriptFunctions := (mScriptFunctions (mModule c2))
              [index := (mScriptFunctions (mModule c2) ! index)
                 \<lparr>mPragmas := mPragmas (mScriptFunctions (mModule c2) ! index) @ currentPragmas\<rparr>]\<rparr>\<rparr>"
    by (auto simp: functionKeyword_def Let_def split: if_splits sum.splits)
  from processFunctionHeader_success [OF header] obtain f where
    "mScriptFunctions (mModule c2) = mScriptFunctions (mModule c) @ [f]" "mPragmas f = []"
    "index = length (mScriptFunctions (mModule c))"
    by auto
  then show ?thesis by (simp add: c1)
qed

lemma scanGlobalDefinitions_functions:
  "scanGlobalDefinitions c currentPragmas nodes = Inr (nodes1, c1) \<Longrightarrow>
     \<exists>new. mScriptFunctions (mModule c1) = mScriptFunctions (mModule c) @ new"
proof (induction "length nodes" arbitrary: nodes c currentPragmas nodes1 c1 rule: less_induct)
  case less
  note IH = less.hyps
  show ?case
  proof (cases nodes)
    case Nil
    with less.prems show ?thesis by simp
  next
    case (Cons node following)
    note prems = less.prems [unfolded Cons]
    have shorter: "length following < length nodes" "length (tl following) < length nodes"
      by (simp_all add: Cons)
    show ?thesis
    proof (cases "getKind node")
      case (PragmaNode pragmaContent)
      with prems obtain ns where
        "scanGlobalDefinitions c (currentPragmas @ [pragmaContent]) following = Inr (ns, c1)"
        by (auto split: sum.splits)
      from IH [OF shorter(1) this] show ?thesis .
    next
      case (UndefinedNode tokens)
      show ?thesis
      proof (cases "hd tokens = KeywordToken FUNCTION")
        case True
        with prems UndefinedNode obtain newNode c2 ns where
          fk: "functionKeyword c currentPragmas (getLineNumber node) tokens following = Inr (newNode, c2)" and
          rest: "scanGlobalDefinitions c2 [] (tl following) = Inr (ns, c1)"
          by (auto split: sum.splits if_splits)
        from IH [OF shorter(2) rest]
        obtain new where "mScriptFunctions (mModule c1) = mScriptFunctions (mModule c2) @ new" ..
        with functionKeyword_functions [OF fk] show ?thesis by auto
      next
        case False
        let ?step = "if hd tokens = KeywordToken GLOBAL then globalKeyword c (getLineNumber node) tokens
                      else if hd tokens = KeywordToken DEFINE then defineKeyword c (getLineNumber node) tokens
                      else Inr c"
        from prems UndefinedNode False obtain c2 ns where
          step: "?step = Inr c2" and
          rest: "scanGlobalDefinitions c2 [] following = Inr (ns, c1)"
          by (auto split: sum.splits if_splits)
        from step have same: "mScriptFunctions (mModule c2) = mScriptFunctions (mModule c)"
          by (auto split: if_splits dest: globalKeyword_functions defineKeyword_functions)
        from IH [OF shorter(1) rest] same show ?thesis by simp
      qed
    qed (use prems IH [OF shorter(1)] in \<open>auto split: sum.splits\<close>)
  qed
qed

lemma scanGlobalDefinitions_pragmaNodes:
  "scanGlobalDefinitions c currentPragmas (pragmaNodes ps @ nodes) =
     (case scanGlobalDefinitions c (currentPragmas @ map snd ps) nodes of
        Inl e \<Rightarrow> Inl e
      | Inr (nodes1, c1) \<Rightarrow> Inr (pragmaNodes ps @ nodes1, c1))"
proof (induction ps arbitrary: currentPragmas)
  case Nil
  then show ?case by (simp add: pragmaNodes_def split: sum.splits)
next
  case (Cons p ps)
  obtain l pc where p: "p = (l, pc)" by (cases p)
  have "pragmaNodes (p # ps) = Node l (PragmaNode pc) # pragmaNodes ps"
    by (simp add: pragmaNodes_def p)
  then show ?case
    using Cons.IH [of "currentPragmas @ [pc]"]
    by (simp add: p split: sum.splits)
qed

lemma scanGlobalDefinitions_attach:
  assumes "scanGlobalDefinitions c currentPragmas
       (pragmaNodes ps @ Node lineNumber (UndefinedNode (KeywordToken FUNCTION # tokens)) # following) =
       Inr (nodes1, c1)"
  shows "\<exists>newNode c2 nodes2 f.
     functionKeyword c (currentPragmas @ map snd ps) lineNumber (KeywordToken FUNCTION # tokens)
       following = Inr (newNode, c2) \<and>
     scanGlobalDefinitions c2 [] (tl following) = Inr (nodes2, c1) \<and>
     mScriptFunctions (mModule c2) = mScriptFunctions (mModule c) @ [f] \<and>
     mPragmas f = currentPragmas @ map snd ps \<and>
     length (mScriptFunctions (mModule c)) < length (mScriptFunctions (mModule c1)) \<and>
     mScriptFunctions (mModule c1) ! length (mScriptFunctions (mModule c)) = f"
proof -
  let ?header = "Node lineNumber (UndefinedNode (KeywordToken FUNCTION # tokens))"
  from assms obtain ns where scan:
    "scanGlobalDefinitions c (currentPragmas @ map snd ps) (?header # following) = Inr (ns, c1)"
    by (auto simp: scanGlobalDefinitions_pragmaNodes split: sum.splits)
  then obtain newNode c2 ns2 where
    fk: "functionKeyword c (currentPragmas @ map snd ps) lineNumber (KeywordToken FUNCTION # tokens)
           following = Inr (newNode, c2)" and
    rest: "scanGlobalDefinitions c2 [] (tl following) = Inr (ns2, c1)"
    by (auto split: sum.splits)
  from functionKeyword_functions [OF fk] obtain f where
    f: "mScriptFunctions (mModule c2) = mScriptFunctions (mModule c) @ [f]"
       "mPragmas f = currentPragmas @ map snd ps"
    by auto
  from scanGlobalDefinitions_functions [OF rest] obtain new where
    "mScriptFunctions (mModule c1) = mScriptFunctions (mModule c2) @ new" ..
  with f have "length (mScriptFunctions (mModule c)) < length (mScriptFunctions (mModule c1))"
    "mScriptFunctions (mModule c1) ! length (mScriptFunctions (mModule c)) = f"
    by (simp_all add: nth_append)
  with fk rest f show ?thesis by blast
qed

text \<open>
  Claim C8, as amended. During the scan of the top-level nodes, the contents of the pragma
  nodes seen since the last undefined node are pending. A function declaration receives
  the pending pragmas in their order as its pragma list, and it clears them: the next
  function declaration receives only the pragmas that stand between the two. Any other
  undefined node, so also a global declaration, receives nothing: the scan goes on from it
  exactly as if no pragma were pending, and the pending pragmas are dropped. A block node
  between pragma nodes and a declaration leaves the pending pragmas as they are.
\<close>

theorem pragmas_attach_to_the_next_function:
  "(scanGlobalDefinitions c currentPragmas
       (pragmaNodes ps @ Node lineNumber (UndefinedNode (KeywordToken FUNCTION # tokens)) # following) =
       Inr (nodes1, c1) \<longrightarrow>
     length (mScriptFunctions (mModule c)) < length (mScriptFunctions (mModule c1)) \<and>
     mPragmas (mScriptFunctions (mModule c1) ! length (mScriptFunctions (mModule c))) =
       currentPragmas @ map snd ps)
   \<and> (scanGlobalDefinitions c currentPragmas
       (pragmaNodes ps @ Node lineNumber (UndefinedNode (KeywordToken FUNCTION # tokens)) # block #
        pragmaNodes qs @ Node lineNumber2 (UndefinedNode (KeywordToken FUNCTION # tokens2)) # following2) =
       Inr (nodes1, c1) \<longrightarrow>
     Suc (length (mScriptFunctions (mModule c))) < length (mScriptFunctions (mModule c1)) \<and>
     mPragmas (mScriptFunctions (mModule c1) ! length (mScriptFunctions (mModule c))) =
       currentPragmas @ map snd ps \<and>
     mPragmas (mScriptFunctions (mModule c1) ! Suc (length (mScriptFunctions (mModule c)))) =
       map snd qs)
   \<and> (token \<noteq> KeywordToken FUNCTION \<longrightarrow>
       scanGlobalDefinitions c currentPragmas
         (Node lineNumber (UndefinedNode (token # tokens)) # following) =
       scanGlobalDefinitions c []
         (Node lineNumber (UndefinedNode (token # tokens)) # following))
   \<and> scanGlobalDefinitions c currentPragmas (Node lineNumber (BlockNode body) # following) =
       (case scanGlobalDefinitions c currentPragmas following of
          Inl e \<Rightarrow> Inl e
        | Inr (nodes2, c2) \<Rightarrow> Inr (Node lineNumber (BlockNode body) # nodes2, c2))"
proof -
  let ?header = "Node lineNumber (UndefinedNode (KeywordToken FUNCTION # tokens))"
  let ?header2 = "Node lineNumber2 (UndefinedNode (KeywordToken FUNCTION # tokens2))"
  have attach: "length (mScriptFunctions (mModule c)) < length (mScriptFunctions (mModule c1)) \<and>
     mPragmas (mScriptFunctions (mModule c1) ! length (mScriptFunctions (mModule c))) =
       currentPragmas @ map snd ps"
    if "scanGlobalDefinitions c currentPragmas (pragmaNodes ps @ ?header # following) =
       Inr (nodes1, c1)"
    using scanGlobalDefinitions_attach [OF that] by auto
  have cleared: "Suc (length (mScriptFunctions (mModule c))) < length (mScriptFunctions (mModule c1)) \<and>
     mPragmas (mScriptFunctions (mModule c1) ! length (mScriptFunctions (mModule c))) =
       currentPragmas @ map snd ps \<and>
     mPragmas (mScriptFunctions (mModule c1) ! Suc (length (mScriptFunctions (mModule c)))) =
       map snd qs"
    if "scanGlobalDefinitions c currentPragmas
       (pragmaNodes ps @ ?header # block # pragmaNodes qs @ ?header2 # following2) = Inr (nodes1, c1)"
  proof -
    from scanGlobalDefinitions_attach [OF that] obtain c2 nodes2 f where
      rest: "scanGlobalDefinitions c2 [] (pragmaNodes qs @ ?header2 # following2) = Inr (nodes2, c1)"
      and f: "mScriptFunctions (mModule c2) = mScriptFunctions (mModule c) @ [f]"
        "mPragmas f = currentPragmas @ map snd ps"
        "mScriptFunctions (mModule c1) ! length (mScriptFunctions (mModule c)) = f"
      by auto
    from scanGlobalDefinitions_attach [OF rest] obtain g where
      "mPragmas g = [] @ map snd qs"
      "length (mScriptFunctions (mModule c2)) < length (mScriptFunctions (mModule c1))"
      "mScriptFunctions (mModule c1) ! length (mScriptFunctions (mModule c2)) = g"
      by auto
    with f show ?thesis by simp
  qed
  have discard: "scanGlobalDefinitions c currentPragmas
         (Node lineNumber (UndefinedNode (token # tokens)) # following) =
       scanGlobalDefinitions c []
         (Node lineNumber (UndefinedNode (token # tokens)) # following)"
    if "token \<noteq> KeywordToken FUNCTION"
    using that by simp
  have keep: "scanGlobalDefinitions c currentPragmas (Node lineNumber (BlockNode body) # following) =
       (case scanGlobalDefinitions c currentPragmas following of
          Inl e \<Rightarrow> Inl e
        | Inr (nodes2, c2) \<Rightarrow> Inr (Node lineNumber (BlockNode body) # nodes2, c2))"
    by simp
  from attach cleared discard keep show ?thesis by blast
qed

text \<open>
  The claim as stated fails for a global declaration: the pragma of line 1 stands before
  the declaration of the global variable \<open>x\<close>. After the pass the module holds \<open>x\<close> and
  the function \<open>f\<close> of line 3, whose pragma list is empty; the pragma is attached to
  nothing.
\<close>

theorem pragma_before_global_counterexample:
  "processGlobalDefinitions toy_compiler
     [Node 1 (PragmaNode ''p''),
      Node 2 (UndefinedNode [KeywordToken GLOBAL, VarTypeToken ''u8'', IdentifierToken ''x'']),
      Node 3 (UndefinedNode [KeywordToken FUNCTION, VarTypeToken ''void'', IdentifierToken ''f'',
         OperatorToken PARENTHESIS_LEFT, OperatorToken PARENTHESIS_RIGHT]),
      Node 4 (BlockNode [])] =
   Inr ([Node 1 (PragmaNode ''p''),
         Node 2 (UndefinedNode [KeywordToken GLOBAL, VarTypeToken ''u8'', IdentifierToken ''x'']),
         Node 3 (FunctionNode 0 (Some (Node 4 (BlockNode []))))],
        \<lparr>mModule =
           \<lparr>mStringLiterals = [],
             mGlobalVariables =
               [\<lparr>mGlobalName = ''x'', mGlobalDataType = ''u8'', mInitialValue = None\<rparr>],
             mDefines = [],
             mScriptFunctions =
               [\<lparr>mFunctionName = ''f'', mReturnType = ''void'', mParameters = [],
                 mLocalVariablesById = [], mPragmas = [], mSourceFilename = ''main.lemon'',
                 mSourceBaseLineOffset = 1\<rparr>]\<rparr>,
         mGlobalsLookup =
           \<lparr>mAllStringLiterals = [], mVariableNames = [''x''], mDefineNames = [],
             mFunctionSignatures = [(''f'', [])]\<rparr>,
         mIntervals =
           [\<lparr>mStartLineNumber = 1, mFilename = ''main.lemon'', mLineOffsetInFile = 0\<rparr>],
         mFunctionNodes = [Node 3 (FunctionNode 0 (Some (Node 4 (BlockNode []))))]\<rparr>)"
  by (simp add: processGlobalDefinitions_def toy_compiler_def empty_module_def empty_lookup_def
      globalKeyword_def functionKeyword_def processFunctionHeader_def parseFunctionHeader_def
      registerVariable_def addGlobalVariable_def addScriptFunction_def registerFunction_def
      translateLineNumber_def translateLineNumber_with_def at_def translate_index.simps Let_def)

text \<open>
  The witness: two pragma lines and then a function; a pragma line before a global
  declaration; and a pragma line, a function \<open>f\<close> and a function \<open>g\<close>, where \<open>g\<close> receives
  nothing.
\<close>

theorem pragmas_attach_to_the_next_function_witness:
  "(\<exists>nodes1 c1. scanGlobalDefinitions toy_compiler []
       (pragmaNodes [(1, ''p''), (2, ''q'')] @
        Node 3 (UndefinedNode (KeywordToken FUNCTION # [VarTypeToken ''void'', IdentifierToken ''f'',
          OperatorToken PARENTHESIS_LEFT, OperatorToken PARENTHESIS_RIGHT])) # [Node 4 (BlockNode [])]) =
       Inr (nodes1, c1)
     \<and> mPragmas (mScriptFunctions (mModule c1) ! length (mScriptFunctions (mModule toy_compiler))) =
         [''p'', ''q''])
   \<and> scanGlobalDefinitions toy_compiler [''p'']
        (Node 2 (UndefinedNode (KeywordToken GLOBAL # [VarTypeToken ''u8'', IdentifierToken ''x''])) # []) =
      scanGlobalDefinitions toy_compiler []
        (Node 2 (UndefinedNode (KeywordToken GLOBAL # [VarTypeToken ''u8'', IdentifierToken ''x''])) # [])
   \<and> (\<exists>nodes1 c1. scanGlobalDefinitions toy_compiler []
       (pragmaNodes [(1, ''p'')] @
        Node 2 (UndefinedNode (KeywordToken FUNCTION # [VarTypeToken ''void'', IdentifierToken ''f'',
          OperatorToken PARENTHESIS_LEFT, OperatorToken PARENTHESIS_RIGHT])) # Node 3 (BlockNode []) #
        pragmaNodes [] @
        Node 5 (UndefinedNode (KeywordToken FUNCTION # [VarTypeToken ''void'', IdentifierToken ''g'',
          OperatorToken PARENTHESIS_LEFT, OperatorToken PARENTHESIS_RIGHT])) # [Node 6 (BlockNode [])]) =
       Inr (nodes1, c1)
     \<and> mPragmas (mScriptFunctions (mModule c1) ! length (mScriptFunctions (mModule toy_compiler))) =
         [''p'']
     \<and> mPragmas (mScriptFunctions (mModule c1) ! Suc (length (mScriptFunctions (mModule toy_compiler)))) =
         [])"
proof -
  let ?tokens = "[VarTypeToken ''void'', IdentifierToken ''f'',
          OperatorToken PARENTHESIS_LEFT, OperatorToken PARENTHESIS_RIGHT]"
  let ?tokens2 = "[VarTypeToken ''void'', IdentifierToken ''g'',
          OperatorToken PARENTHESIS_LEFT, OperatorToken PARENTHESIS_RIGHT]"
  let ?nodes = "pragmaNodes [(1, ''p''), (2, ''q'')] @
        Node 3 (UndefinedNode (KeywordToken FUNCTION # ?tokens)) # [Node 4 (BlockNode [])]"
  let ?two = "pragmaNodes [(1, ''p'')] @
        Node 2 (UndefinedNode (KeywordToken FUNCTION # ?tokens)) # Node 3 (BlockNode []) #
        pragmaNodes [] @
        Node 5 (UndefinedNode (KeywordToken FUNCTION # ?tokens2)) # [Node 6 (BlockNode [])]"
  obtain nodes1 c1 where run: "scanGlobalDefinitions toy_compiler [] ?nodes = Inr (nodes1, c1)"
    by (simp add: pragmaNodes_def toy_compiler_def empty_module_def empty_lookup_def
      functionKeyword_def processFunctionHeader_def parseFunctionHeader_def
      addScriptFunction_def registerFunction_def
      translateLineNumber_def translateLineNumber_with_def at_def translate_index.simps Let_def)
  obtain nodes2 c2 where run2: "scanGlobalDefinitions toy_compiler [] ?two = Inr (nodes2, c2)"
    by (simp add: pragmaNodes_def toy_compiler_def empty_module_def empty_lookup_def
      functionKeyword_def processFunctionHeader_def parseFunctionHeader_def
      addScriptFunction_def registerFunction_def
      translateLineNumber_def translateLineNumber_with_def at_def translate_index.simps Let_def)
  from pragmas_attach_to_the_next_function
    [of toy_compiler "[]" "[(1, ''p''), (2, ''q'')]" 3 ?tokens "[Node 4 (BlockNode [])]" nodes1 c1
        _ _ _ _ _ "KeywordToken GLOBAL"] run
  have 1: "mPragmas (mScriptFunctions (mModule c1) ! length (mScriptFunctions (mModule toy_compiler))) =
         [''p'', ''q'']"
    by simp
  have 2: "scanGlobalDefinitions toy_compiler [''p'']
        (Node 2 (UndefinedNode (KeywordToken GLOBAL # [VarTypeToken ''u8'', IdentifierToken ''x''])) # []) =
      scanGlobalDefinitions toy_compiler []
        (Node 2 (UndefinedNode (KeywordToken GLOBAL # [VarTypeToken ''u8'', IdentifierToken ''x''])) # [])"
    using pragmas_attach_to_the_next_function
      [of toy_compiler "[''p'']" "[]" 2 "[VarTypeToken ''u8'', IdentifierToken ''x'']" "[]" _ _
          _ _ _ _ _ "KeywordToken GLOBAL"]
    by simp
  from pragmas_attach_to_the_next_function
    [of toy_compiler "[]" "[(1, ''p'')]" 2 ?tokens _ nodes2 c2
        "Node 3 (BlockNode [])" "[]" 5 ?tokens2 "[Node 6 (BlockNode [])]"] run2
  have 3: "mPragmas (mScriptFunctions (mModule c2) ! length (mScriptFunctions (mModule toy_compiler))) =
         [''p'']"
    "mPragmas (mScriptFunctions (mModule c2) ! Suc (length (mScriptFunctions (mModule toy_compiler)))) =
         []"
    by simp_all
  from 1 2 3 run run2 show ?thesis by blast
qed

section \<open>Classifying the nodes of a function\<close>

subsection \<open>Token processing\<close>

text \<open>
  \<^verbatim>\<open>TokenProcessing::processTokens\<close> is not among the sources; it is a parameter. It
  rewrites a token list in place, may add local variables to the function and to the
  visible local variables of the scope, and may throw. \<open>mExternalAddressType\<close> is the
  compile option of that name.
\<close>

record processing =
  tokenProcessing :: "Token list \<Rightarrow> ScriptFunction \<Rightarrow> LocalVariable list \<Rightarrow> uint32
    \<Rightarrow> DataTypeDefinition option \<Rightarrow> error + (Token list \<times> ScriptFunction \<times> LocalVariable list)"
  mExternalAddressType :: "DataTypeDefinition option"

text \<open>\<^verbatim>\<open>Compiler::processTokens\<close>: token processing in the context of function and scope.\<close>

definition processTokens ::
    "processing \<Rightarrow> Token list \<Rightarrow> ScriptFunction \<Rightarrow> ScopeContext \<Rightarrow> uint32 \<Rightarrow> DataTypeDefinition option
      \<Rightarrow> error + (Token list \<times> ScriptFunction \<times> ScopeContext)" where
  "processTokens p tokens function scopeContext lineNumber resultType =
     (case tokenProcessing p tokens function (mLocalVariables scopeContext) lineNumber resultType of
        Inl e \<Rightarrow> Inl e
      | Inr (tokens1, function1, localVariables) \<Rightarrow>
          Inr (tokens1, function1, scopeContext\<lparr>mLocalVariables := localVariables\<rparr>))"

subsection \<open>The for statement\<close>

text \<open>
  The loop "Split by semicolons": it counts the semicolons between \<open>firstIndex\<close> and
  \<open>endIndex\<close> and records the positions of the first two in \<open>splitPosition\<close>.
\<close>

definition splitBySemicolons :: "Token list \<Rightarrow> nat \<times> nat list" where
  "splitBySemicolons tokens =
     (let firstIndex = 2; endIndex = length tokens - 1 in
      foldl (\<lambda>(numSemicolons, splitPosition) i.
               if isOperator (tokens ! i) SEMICOLON_SEPARATOR then
                 (numSemicolons + 1,
                  if numSemicolons + 1 \<le> 2 then splitPosition[numSemicolons + 1 := i]
                  else splitPosition)
               else (numSemicolons, splitPosition))
        (0, [1, 0, 0, endIndex]) [firstIndex..<endIndex])"

text \<open>
  One round of the loop over the three clauses: the tokens between two split positions
  are processed on their own when there are any, and must leave one statement token.
\<close>

definition forClause ::
    "processing \<Rightarrow> uint32 \<Rightarrow> Token list \<Rightarrow> ScriptFunction \<Rightarrow> ScopeContext
      \<Rightarrow> error + (Token option \<times> ScriptFunction \<times> ScopeContext)" where
  "forClause p lineNumber innerTokenList function scopeContext =
     (if innerTokenList = [] then Inr (None, function, scopeContext)
      else
        (case processTokens p innerTokenList function scopeContext lineNumber None of
           Inl e \<Rightarrow> Inl e
         | Inr (inner, function1, scopeContext1) \<Rightarrow>
             CHECKED (length inner = 1)
               ''Tokens in 'for' loop header do not evaluate to a single statement'' lineNumber
             (CHECKED (isStatement (inner ! 0))
               ''Tokens in 'for' loop header do not evaluate to a statement'' lineNumber
               (Inr (Some (inner ! 0), function1, scopeContext1)))))"

definition clauseTokens :: "Token list \<Rightarrow> nat list \<Rightarrow> nat \<Rightarrow> Token list" where
  "clauseTokens tokens splitPosition i =
     (if splitPosition ! (i + 1) - splitPosition ! i - 1 > 0
      then map (\<lambda>k. tokens ! k) [splitPosition ! i + 1..<splitPosition ! (i + 1)]
      else [])"

definition forKeyword ::
    "processing \<Rightarrow> uint32 \<Rightarrow> Token list \<Rightarrow> ScriptFunction \<Rightarrow> ScopeContext
      \<Rightarrow> error + (NodeKind \<times> ScriptFunction \<times> ScopeContext)" where
  "forKeyword p lineNumber tokens function scopeContext =
     CHECKED (length tokens \<ge> 3) ''Not enough tokens found after 'for' keyword'' lineNumber
     (CHECKED (isOperator (tokens ! 1) PARENTHESIS_LEFT)
        ''Expected opening parenthesis after 'for' keyword'' lineNumber
     (CHECKED (isOperator (last tokens) PARENTHESIS_RIGHT)
        ''Expected closing parenthesis as last token after 'for' keyword'' lineNumber
     (case splitBySemicolons tokens of (numSemicolons, splitPosition) \<Rightarrow>
        CHECKED (numSemicolons = 2) ''Expected exactly two semicolons in 'for' loop header'' lineNumber
        (case forClause p lineNumber (clauseTokens tokens splitPosition 0) function
                (beginScope (Some 2) scopeContext) of
           Inl e \<Rightarrow> Inl e
         | Inr (statement0, function0, scopeContext0) \<Rightarrow>
             (case forClause p lineNumber (clauseTokens tokens splitPosition 1) function0 scopeContext0 of
                Inl e \<Rightarrow> Inl e
              | Inr (statement1, function1, scopeContext1) \<Rightarrow>
                  (case forClause p lineNumber (clauseTokens tokens splitPosition 2) function1
                          scopeContext1 of
                     Inl e \<Rightarrow> Inl e
                   | Inr (statement2, function2, scopeContext2) \<Rightarrow>
                       Inr (ForStatementNode statement0 statement1 statement2 None,
                            function2, scopeContext2)))))))"

subsection \<open>processUndefinedNode\<close>

text \<open>
  The cases that process the tokens first and then expect one statement after the
  keyword: \<^verbatim>\<open>if\<close> and \<^verbatim>\<open>while\<close>.
\<close>

definition conditionKeyword ::
    "processing \<Rightarrow> uint32 \<Rightarrow> Token list \<Rightarrow> ScriptFunction \<Rightarrow> ScopeContext \<Rightarrow> string \<Rightarrow> string
      \<Rightarrow> error + (Token \<times> Token list \<times> ScriptFunction \<times> ScopeContext)" where
  "conditionKeyword p lineNumber tokens function scopeContext message1 message2 =
     (case processTokens p tokens function scopeContext lineNumber None of
        Inl e \<Rightarrow> Inl e
      | Inr (tokens1, function1, scopeContext1) \<Rightarrow>
          CHECKED (length tokens1 = 2) message1 lineNumber
          (CHECKED (isStatement (tokens1 ! 1)) message2 lineNumber
            (Inr (tokens1 ! 1, take 1 tokens1, function1, scopeContext1))))"

definition returnKeyword ::
    "processing \<Rightarrow> uint32 \<Rightarrow> Token list \<Rightarrow> ScriptFunction \<Rightarrow> ScopeContext
      \<Rightarrow> error + (NodeKind option \<times> Token list \<times> ScriptFunction \<times> ScopeContext)" where
  "returnKeyword p lineNumber tokens function scopeContext =
     (case processTokens p tokens function scopeContext lineNumber None of
        Inl e \<Rightarrow> Inl e
      | Inr (tokens1, function1, scopeContext1) \<Rightarrow>
          if length tokens1 > 1 then
            CHECKED (length tokens1 \<le> 2) ''Return can have up to one statement'' lineNumber
            (CHECKED (isStatement (tokens1 ! 1)) ''Token after 'return' must be a statement'' lineNumber
              (Inr (Some (ReturnNode (Some (tokens1 ! 1))), take 1 tokens1, function1, scopeContext1)))
          else Inr (Some (ReturnNode None), tokens1, function1, scopeContext1))"

definition callKeyword ::
    "processing \<Rightarrow> Keyword \<Rightarrow> uint32 \<Rightarrow> Token list \<Rightarrow> ScriptFunction \<Rightarrow> ScopeContext
      \<Rightarrow> error + (NodeKind option \<times> Token list \<times> ScriptFunction \<times> ScopeContext)" where
  "callKeyword p keyword lineNumber tokens function scopeContext =
     (case processTokens p tokens function scopeContext lineNumber (mExternalAddressType p) of
        Inl e \<Rightarrow> Inl e
      | Inr (tokens1, function1, scopeContext1) \<Rightarrow>
          CHECKED (length tokens1 = 2)
            (CHR 0x27 # ''call' and 'jump' need an additional token after them'') lineNumber
          (if isStatement (tokens1 ! 1) then
             Inr (Some (ExternalNode (tokens1 ! 1)
                          (if keyword = CALL then EXTERNAL_CALL else EXTERNAL_JUMP)),
                  take 1 tokens1, function1, scopeContext1)
           else if getType (tokens1 ! 1) = LABEL then
             CHECKED (keyword = JUMP) ''Label is not allowed after 'call' keyword'' lineNumber
               (Inr (Some (JumpNode (tokens1 ! 1)), take 1 tokens1, function1, scopeContext1))
           else Inl (CompilerException
                  ''Token after 'call' and 'jump' must be a statement or a label'' lineNumber)))"

text \<open>
  \<^verbatim>\<open>processUndefinedNode\<close> for the token list of an undefined node of line \<open>lineNumber\<close>.
  The result is the content of the new node (none for the null pointer; the caller gives
  the node its line number), the token list as the function leaves it, and function and
  scope.
\<close>

definition processUndefinedNode ::
    "processing \<Rightarrow> uint32 \<Rightarrow> Token list \<Rightarrow> ScriptFunction \<Rightarrow> ScopeContext
      \<Rightarrow> error + (NodeKind option \<times> Token list \<times> ScriptFunction \<times> ScopeContext)" where
  "processUndefinedNode p lineNumber tokens function scopeContext =
     (if tokens = [] then Inl VectorOutOfRange
      else if getType (tokens ! 0) = KEYWORD then
        (let keyword = mKeyword (tokens ! 0) in
         if keyword = RETURN then returnKeyword p lineNumber tokens function scopeContext
         else if keyword = CALL \<or> keyword = JUMP then
           callKeyword p keyword lineNumber tokens function scopeContext
         else if keyword = BREAK then
           CHECKED (length tokens = 1) ''There must be no token after 'break' keyword'' lineNumber
             (Inr (Some BreakNode, tokens, function, scopeContext))
         else if keyword = CONTINUE then
           CHECKED (length tokens = 1) ''There must be no token after 'continue' keyword'' lineNumber
             (Inr (Some ContinueNode, tokens, function, scopeContext))
         else if keyword = IF then
           (case conditionKeyword p lineNumber tokens function scopeContext
                   ''Expected single statement after 'if' keyword''
                   ''Expected statement after 'if' keyword'' of
              Inl e \<Rightarrow> Inl e
            | Inr (condition, tokens1, function1, scopeContext1) \<Rightarrow>
                Inr (Some (IfStatementNode condition None None), tokens1, function1, scopeContext1))
         else if keyword = ELSE then Inr (Some ElseStatementNode, tokens, function, scopeContext)
         else if keyword = WHILE then
           (case conditionKeyword p lineNumber tokens function scopeContext
                   ''Expected single statement after 'while' keyword''
                   ''Expected statement after 'while' keyword'' of
              Inl e \<Rightarrow> Inl e
            | Inr (condition, tokens1, function1, scopeContext1) \<Rightarrow>
                Inr (Some (WhileStatementNode condition None), tokens1, function1, scopeContext1))
         else if keyword = FOR then
           (case forKeyword p lineNumber tokens function scopeContext of
              Inl e \<Rightarrow> Inl e
            | Inr (node, function1, scopeContext1) \<Rightarrow>
                Inr (Some node, tokens, function1, scopeContext1))
         else Inr (None, tokens, function, scopeContext))
      else if getType (tokens ! 0) = LABEL then
        CHECKED (length tokens = 2) ''Expected only colon after label'' lineNumber
        (CHECKED (isOperator (tokens ! 1) COLON) ''Expected a colon operator after label'' lineNumber
          (Inr (Some (LabelNode (mName (tokens ! 0))), tokens, function, scopeContext)))
      else
        (case processTokens p tokens function scopeContext lineNumber None of
           Inl e \<Rightarrow> Inl e
         | Inr (tokens1, function1, scopeContext1) \<Rightarrow>
             CHECKED (length tokens1 = 1)
               ''Statement contains more than a single token tree root'' lineNumber
             (CHECKED (isStatement (tokens1 ! 0)) ''Statement is no statement?'' lineNumber
               (Inr (Some (StatementNode (tokens1 ! 0)), [], function1, scopeContext1)))))"

subsection \<open>The header of a for statement\<close>

text \<open>The positions in a list at which a predicate holds.\<close>

definition indices :: "('a \<Rightarrow> bool) \<Rightarrow> 'a list \<Rightarrow> nat list" where
  "indices Q xs = filter (\<lambda>j. Q (xs ! j)) [0..<length xs]"

definition isSemicolon :: "Token \<Rightarrow> bool" where
  "isSemicolon token = isOperator token SEMICOLON_SEPARATOR"

lemma upt_shift: "[m..<m + n] = map (\<lambda>j. m + j) [0..<n]"
  by (induction n) simp_all

lemma indices_append:
  "indices Q (xs @ ys) = indices Q xs @ map (\<lambda>j. length xs + j) (indices Q ys)"
proof -
  have split: "[0..<length (xs @ ys)] = [0..<length xs] @ map (\<lambda>j. length xs + j) [0..<length ys]"
    using upt_add_eq_append [of 0 "length xs" "length ys"] upt_shift [of "length xs" "length ys"]
    by simp
  have 1: "filter (\<lambda>j. Q ((xs @ ys) ! j)) [0..<length xs] = filter (\<lambda>j. Q (xs ! j)) [0..<length xs]"
    by (rule filter_cong) (simp_all add: nth_append)
  have 2: "filter (\<lambda>j. Q ((xs @ ys) ! j)) (map (\<lambda>j. length xs + j) [0..<length ys]) =
      map (\<lambda>j. length xs + j) (filter (\<lambda>j. Q (ys ! j)) [0..<length ys])"
    by (simp add: filter_map comp_def)
  have "indices Q (xs @ ys) =
      filter (\<lambda>j. Q ((xs @ ys) ! j)) ([0..<length xs] @ map (\<lambda>j. length xs + j) [0..<length ys])"
    unfolding indices_def split ..
  also have "\<dots> = indices Q xs @ map (\<lambda>j. length xs + j) (indices Q ys)"
    unfolding filter_append 1 2 indices_def ..
  finally show ?thesis .
qed

lemma indices_none: "\<not> (\<exists>x \<in> set xs. Q x) \<Longrightarrow> indices Q xs = []"
  by (auto simp: indices_def filter_empty_conv)

lemma indices_single: "indices Q [x] = (if Q x then [0] else [])"
  by (simp add: indices_def)

lemma length_indices: "length (indices Q xs) = length (filter Q xs)"
proof -
  have "filter Q (map ((!) xs) [0..<length xs]) = map ((!) xs) (indices Q xs)"
    by (simp add: indices_def filter_map comp_def)
  then have "filter Q xs = map ((!) xs) (indices Q xs)"
    by (simp add: map_nth)
  then show ?thesis by simp
qed

lemma indices_inside:
  "filter (\<lambda>i. Q ((pre @ xs @ post) ! i)) [length pre..<length pre + length xs] =
     map (\<lambda>j. length pre + j) (indices Q xs)"
proof -
  have "[length pre..<length pre + length xs] = map (\<lambda>j. length pre + j) [0..<length xs]"
    by (rule upt_shift)
  moreover have "filter (\<lambda>j. Q ((pre @ xs @ post) ! (length pre + j))) [0..<length xs] =
      filter (\<lambda>j. Q (xs ! j)) [0..<length xs]"
    by (rule filter_cong) (auto simp: nth_append)
  ultimately show ?thesis
    by (simp add: indices_def filter_map comp_def)
qed

lemma slice_inside:
  "map (\<lambda>k. (pre @ xs @ post) ! k) [length pre..<length pre + length xs] = xs"
proof -
  have "[length pre..<length pre + length xs] = map (\<lambda>j. length pre + j) [0..<length xs]"
    by (rule upt_shift)
  then have "map (\<lambda>k. (pre @ xs @ post) ! k) [length pre..<length pre + length xs] =
      map (\<lambda>j. (pre @ xs @ post) ! (length pre + j)) [0..<length xs]"
    by (simp add: comp_def)
  also have "\<dots> = map ((!) xs) [0..<length xs]"
    by (rule map_cong) (auto simp: nth_append)
  also have "\<dots> = xs"
    by (rule map_nth)
  finally show ?thesis .
qed

text \<open>The fold of \<open>splitBySemicolons\<close> in terms of the positions it passes.\<close>

lemma semicolon_fold:
  "a \<le> b \<Longrightarrow>
   foldl (\<lambda>(numSemicolons, splitPosition) i.
            if Q i then
              (numSemicolons + 1,
               if numSemicolons + 1 \<le> 2 then splitPosition[numSemicolons + 1 := i]
               else splitPosition)
            else (numSemicolons, splitPosition))
     (0, sp0) [a..<b] =
   (length (filter Q [a..<b]),
    if filter Q [a..<b] = [] then sp0
    else if length (filter Q [a..<b]) = 1 then sp0[1 := filter Q [a..<b] ! 0]
    else sp0[1 := filter Q [a..<b] ! 0, 2 := filter Q [a..<b] ! 1])"
proof (induction b)
  case 0
  then show ?case by simp
next
  case (Suc b)
  show ?case
  proof (cases "a \<le> b")
    case False
    with Suc.prems have "a = Suc b" by simp
    then show ?thesis by simp
  next
    case True
    note IH = Suc.IH [OF True]
    let ?ps = "filter Q [a..<b]"
    consider "?ps = []" | "length ?ps = 1" | "length ?ps \<ge> 2"
      by (cases ?ps; cases "tl ?ps") auto
    then show ?thesis
    proof cases
      case 1
      with True IH show ?thesis by simp
    next
      case 2
      then obtain x where "?ps = [x]" by (cases ?ps) auto
      with True IH show ?thesis by (simp add: numeral_2_eq_2)
    next
      case 3
      then obtain x y zs where "?ps = x # y # zs" by (cases ?ps; cases "tl ?ps") auto
      with True IH show ?thesis by simp
    qed
  qed
qed

lemma indices_header:
  "filter (\<lambda>i. Q ((t0 # t1 # header @ [t2]) ! i)) [2..<2 + length header] =
     map (\<lambda>j. 2 + j) (indices Q header)"
proof -
  have l: "length [t0, t1] = 2" by simp
  show ?thesis
    using indices_inside [of Q "[t0, t1]" header "[t2]"] unfolding l
    by (simp only: append_Cons append_Nil)
qed

lemma indices_two:
  assumes "\<not> (\<exists>t \<in> set c0. Q t)" "\<not> (\<exists>t \<in> set c1. Q t)" "\<not> (\<exists>t \<in> set c2. Q t)" "Q s1" "Q s2"
  shows "indices Q (c0 @ s1 # c1 @ s2 # c2) = [length c0, length c0 + 1 + length c1]"
proof -
  have a: "indices Q (s2 # c2) = [0]"
    using indices_append [of Q "[s2]" c2] assms by (simp add: indices_single indices_none)
  have b: "indices Q (c1 @ s2 # c2) = [length c1]"
    using indices_append [of Q c1 "s2 # c2"] assms by (simp add: a indices_none)
  have c: "indices Q (s1 # c1 @ s2 # c2) = [0, 1 + length c1]"
    using indices_append [of Q "[s1]" "c1 @ s2 # c2"] assms by (simp add: b indices_single)
  show ?thesis
    using indices_append [of Q c0 "s1 # c1 @ s2 # c2"] assms by (simp add: c indices_none)
qed

lemma splitBySemicolons_eq:
  "splitBySemicolons (t0 # t1 # header @ [t2]) =
     (length (indices isSemicolon header),
      if indices isSemicolon header = [] then [1, 0, 0, 2 + length header]
      else if length (indices isSemicolon header) = 1
        then [1, 2 + indices isSemicolon header ! 0, 0, 2 + length header]
      else [1, 2 + indices isSemicolon header ! 0, 2 + indices isSemicolon header ! 1,
            2 + length header])"
proof -
  let ?tokens = "t0 # t1 # header @ [t2]"
  let ?Q = "\<lambda>i. isOperator (?tokens ! i) SEMICOLON_SEPARATOR"
  have len: "length ?tokens - 1 = 2 + length header" by simp
  have range: "filter ?Q [2..<2 + length header] = map (\<lambda>j. 2 + j) (indices isSemicolon header)"
    using indices_header [of isSemicolon t0 t1 header t2] by (simp only: isSemicolon_def)
  have le: "(2::nat) \<le> 2 + length header" by simp
  show ?thesis
    unfolding splitBySemicolons_def Let_def len semicolon_fold [of 2 "2 + length header" ?Q, OF le] range
    by (cases "indices isSemicolon header"; cases "tl (indices isSemicolon header)") simp_all
qed

lemma clauseTokens_slice:
  assumes "tokens = pre @ xs @ post" "pre \<noteq> []"
    "splitPosition ! i = length pre - 1" "splitPosition ! (i + 1) = length pre + length xs"
  shows "clauseTokens tokens splitPosition i = xs"
proof -
  from assms(2) have pre: "length pre - 1 + 1 = length pre" "length pre + length xs - (length pre - 1) - 1 = length xs"
    by (cases pre; simp)+
  show ?thesis
    unfolding clauseTokens_def assms(3,4) pre assms(1)
    by (simp add: slice_inside del: append_assoc)
qed

lemma forKeyword_checks:
  "forKeyword p lineNumber (KeywordToken FOR # OperatorToken PARENTHESIS_LEFT # header
       @ [OperatorToken PARENTHESIS_RIGHT]) function scopeContext =
     (case splitBySemicolons (KeywordToken FOR # OperatorToken PARENTHESIS_LEFT # header
             @ [OperatorToken PARENTHESIS_RIGHT]) of
        (numSemicolons, splitPosition) \<Rightarrow>
          if numSemicolons \<noteq> 2 then
            Inl (CompilerException ''Expected exactly two semicolons in 'for' loop header'' lineNumber)
          else
            (case forClause p lineNumber
                    (clauseTokens (KeywordToken FOR # OperatorToken PARENTHESIS_LEFT # header
                       @ [OperatorToken PARENTHESIS_RIGHT]) splitPosition 0)
                    function (beginScope (Some 2) scopeContext) of
               Inl e \<Rightarrow> Inl e
             | Inr (statement0, function0, scopeContext0) \<Rightarrow>
                 (case forClause p lineNumber
                         (clauseTokens (KeywordToken FOR # OperatorToken PARENTHESIS_LEFT # header
                            @ [OperatorToken PARENTHESIS_RIGHT]) splitPosition 1)
                         function0 scopeContext0 of
                    Inl e \<Rightarrow> Inl e
                  | Inr (statement1, function1, scopeContext1) \<Rightarrow>
                      (case forClause p lineNumber
                              (clauseTokens (KeywordToken FOR # OperatorToken PARENTHESIS_LEFT # header
                                 @ [OperatorToken PARENTHESIS_RIGHT]) splitPosition 2)
                              function1 scopeContext1 of
                         Inl e \<Rightarrow> Inl e
                       | Inr (statement2, function2, scopeContext2) \<Rightarrow>
                           Inr (ForStatementNode statement0 statement1 statement2 None,
                                function2, scopeContext2)))))"
  by (simp add: forKeyword_def split: prod.splits)

text \<open>The three clauses of a header, processed one after the other.\<close>

definition forClauses ::
    "processing \<Rightarrow> uint32 \<Rightarrow> Token list \<Rightarrow> Token list \<Rightarrow> Token list \<Rightarrow> ScriptFunction
      \<Rightarrow> ScopeContext \<Rightarrow> error + (NodeKind \<times> ScriptFunction \<times> ScopeContext)" where
  "forClauses p lineNumber c0 c1 c2 function scopeContext =
     (case forClause p lineNumber c0 function scopeContext of
        Inl e \<Rightarrow> Inl e
      | Inr (statement0, function0, scopeContext0) \<Rightarrow>
          (case forClause p lineNumber c1 function0 scopeContext0 of
             Inl e \<Rightarrow> Inl e
           | Inr (statement1, function1, scopeContext1) \<Rightarrow>
               (case forClause p lineNumber c2 function1 scopeContext1 of
                  Inl e \<Rightarrow> Inl e
                | Inr (statement2, function2, scopeContext2) \<Rightarrow>
                    Inr (ForStatementNode statement0 statement1 statement2 None,
                         function2, scopeContext2))))"

lemma forKeyword_clauses:
  assumes "\<not> (\<exists>t \<in> set c0. isSemicolon t)" "\<not> (\<exists>t \<in> set c1. isSemicolon t)"
    "\<not> (\<exists>t \<in> set c2. isSemicolon t)"
  shows "forKeyword p lineNumber (KeywordToken FOR # OperatorToken PARENTHESIS_LEFT
            # (c0 @ OperatorToken SEMICOLON_SEPARATOR # c1 @ OperatorToken SEMICOLON_SEPARATOR # c2)
            @ [OperatorToken PARENTHESIS_RIGHT]) function scopeContext =
         forClauses p lineNumber c0 c1 c2 function (beginScope (Some 2) scopeContext)"
proof -
  let ?semi = "OperatorToken SEMICOLON_SEPARATOR"
  let ?header = "c0 @ ?semi # c1 @ ?semi # c2"
  let ?tokens = "KeywordToken FOR # OperatorToken PARENTHESIS_LEFT # ?header @ [OperatorToken PARENTHESIS_RIGHT]"
  let ?sp = "[1, 2 + length c0, 2 + (length c0 + 1 + length c1), 2 + length ?header]"
  have semi: "isSemicolon ?semi" by (simp add: isSemicolon_def)
  have idx: "indices isSemicolon ?header = [length c0, length c0 + 1 + length c1]"
    by (rule indices_two [OF assms semi semi])
  have split: "splitBySemicolons ?tokens = (2, ?sp)"
    unfolding splitBySemicolons_eq idx by simp
  have k0: "clauseTokens ?tokens ?sp 0 = c0"
    by (rule clauseTokens_slice [where pre = "[KeywordToken FOR, OperatorToken PARENTHESIS_LEFT]"
          and post = "?semi # c1 @ ?semi # c2 @ [OperatorToken PARENTHESIS_RIGHT]"]) simp_all
  have k1: "clauseTokens ?tokens ?sp 1 = c1"
    by (rule clauseTokens_slice [where pre = "KeywordToken FOR # OperatorToken PARENTHESIS_LEFT # c0 @ [?semi]"
          and post = "?semi # c2 @ [OperatorToken PARENTHESIS_RIGHT]"]) simp_all
  have k2: "clauseTokens ?tokens ?sp 2 = c2"
    by (rule clauseTokens_slice [where pre = "KeywordToken FOR # OperatorToken PARENTHESIS_LEFT # c0 @ ?semi # c1 @ [?semi]"
          and post = "[OperatorToken PARENTHESIS_RIGHT]"]) (simp_all add: numeral_2_eq_2)
  show ?thesis
    unfolding forKeyword_checks split forClauses_def
    by (simp only: k0 k1 k2 prod.case refl if_False not_True_eq_False simp_thms)
qed

text \<open>
  Claim C5. For the tokens \<^verbatim>\<open>for ( header )\<close>: unless the header contains exactly two
  semicolon operators, processing raises "Expected exactly two semicolons in 'for' loop
  header"; and for any token list that starts with \<^verbatim>\<open>for\<close>, processing succeeds only if
  the tokens between the second and the last contain exactly two semicolons. With two
  semicolons, the three clauses that they delimit are processed one after the other, in
  the scope that \<^verbatim>\<open>beginScope(2)\<close> opens. An empty clause is not processed and leaves its
  statement empty; a clause that is not empty is processed on its own and must leave
  exactly one token that is a statement, which becomes the initial, condition or
  iteration statement of the node, in this order.
\<close>

theorem for_header_two_semicolons:
  "(length (filter isSemicolon header) \<noteq> 2 \<longrightarrow>
      processUndefinedNode p lineNumber
        (KeywordToken FOR # OperatorToken PARENTHESIS_LEFT # header @ [OperatorToken PARENTHESIS_RIGHT])
        function scopeContext =
      Inl (CompilerException ''Expected exactly two semicolons in 'for' loop header'' lineNumber))
   \<and> (processUndefinedNode p lineNumber (KeywordToken FOR # rest) function scopeContext = Inr result \<longrightarrow>
        length rest \<ge> 2 \<and> length (filter isSemicolon (butlast (tl rest))) = 2)
   \<and> (\<not> (\<exists>t \<in> set c0. isSemicolon t) \<and> \<not> (\<exists>t \<in> set c1. isSemicolon t)
        \<and> \<not> (\<exists>t \<in> set c2. isSemicolon t) \<longrightarrow>
      processUndefinedNode p lineNumber
        (KeywordToken FOR # OperatorToken PARENTHESIS_LEFT
           # (c0 @ OperatorToken SEMICOLON_SEPARATOR # c1 @ OperatorToken SEMICOLON_SEPARATOR # c2)
           @ [OperatorToken PARENTHESIS_RIGHT]) function scopeContext =
      (case forClauses p lineNumber c0 c1 c2 function (beginScope (Some 2) scopeContext) of
         Inl e \<Rightarrow> Inl e
       | Inr (node, function1, scopeContext1) \<Rightarrow>
           Inr (Some node,
                KeywordToken FOR # OperatorToken PARENTHESIS_LEFT
                  # (c0 @ OperatorToken SEMICOLON_SEPARATOR # c1 @ OperatorToken SEMICOLON_SEPARATOR # c2)
                  @ [OperatorToken PARENTHESIS_RIGHT],
                function1, scopeContext1)))
   \<and> forClause p lineNumber [] function scopeContext = Inr (None, function, scopeContext)
   \<and> (clause \<noteq> [] \<longrightarrow>
        forClause p lineNumber clause function scopeContext =
        (case processTokens p clause function scopeContext lineNumber None of
           Inl e \<Rightarrow> Inl e
         | Inr (inner, function1, scopeContext1) \<Rightarrow>
             if length inner \<noteq> 1 then
               Inl (CompilerException
                 ''Tokens in 'for' loop header do not evaluate to a single statement'' lineNumber)
             else if \<not> isStatement (inner ! 0) then
               Inl (CompilerException
                 ''Tokens in 'for' loop header do not evaluate to a statement'' lineNumber)
             else Inr (Some (inner ! 0), function1, scopeContext1)))"
proof -
  let ?open = "OperatorToken PARENTHESIS_LEFT" and ?close = "OperatorToken PARENTHESIS_RIGHT"
  have pun: "processUndefinedNode p lineNumber (KeywordToken FOR # ts) function scopeContext =
      (case forKeyword p lineNumber (KeywordToken FOR # ts) function scopeContext of
         Inl e \<Rightarrow> Inl e
       | Inr (node, function1, scopeContext1) \<Rightarrow>
           Inr (Some node, KeywordToken FOR # ts, function1, scopeContext1))" for ts
    by (simp add: processUndefinedNode_def)
  have count: "processUndefinedNode p lineNumber (KeywordToken FOR # ?open # header @ [?close])
        function scopeContext =
      Inl (CompilerException ''Expected exactly two semicolons in 'for' loop header'' lineNumber)"
    if "length (filter isSemicolon header) \<noteq> 2"
    unfolding pun forKeyword_checks splitBySemicolons_eq
    using that by (simp add: length_indices)
  have only: "length rest \<ge> 2 \<and> length (filter isSemicolon (butlast (tl rest))) = 2"
    if ok: "processUndefinedNode p lineNumber (KeywordToken FOR # rest) function scopeContext = Inr result"
  proof -
    from ok have fk: "\<exists>r. forKeyword p lineNumber (KeywordToken FOR # rest) function scopeContext = Inr r"
      unfolding pun by (auto split: sum.splits)
    then have len: "length rest \<ge> 2" and op: "isOperator (rest ! 0) PARENTHESIS_LEFT"
      and cl: "isOperator (last rest) PARENTHESIS_RIGHT"
      by (auto simp: forKeyword_def split: if_splits)
    from len obtain a header b where rest: "rest = a # header @ [b]"
      by (cases rest; cases "tl rest" rule: rev_cases) auto
    from op cl rest have a: "a = ?open" and b: "b = ?close"
      by (cases a; simp; cases b; simp)+
    from fk have "length (filter isSemicolon header) = 2"
      unfolding rest a b forKeyword_checks splitBySemicolons_eq
      by (auto simp: length_indices split: if_splits)
    with len show ?thesis by (simp add: rest)
  qed
  have clauses: "processUndefinedNode p lineNumber
        (KeywordToken FOR # ?open
           # (c0 @ OperatorToken SEMICOLON_SEPARATOR # c1 @ OperatorToken SEMICOLON_SEPARATOR # c2)
           @ [?close]) function scopeContext =
      (case forClauses p lineNumber c0 c1 c2 function (beginScope (Some 2) scopeContext) of
         Inl e \<Rightarrow> Inl e
       | Inr (node, function1, scopeContext1) \<Rightarrow>
           Inr (Some node,
                KeywordToken FOR # ?open
                  # (c0 @ OperatorToken SEMICOLON_SEPARATOR # c1 @ OperatorToken SEMICOLON_SEPARATOR # c2)
                  @ [?close],
                function1, scopeContext1))"
    if "\<not> (\<exists>t \<in> set c0. isSemicolon t) \<and> \<not> (\<exists>t \<in> set c1. isSemicolon t)
        \<and> \<not> (\<exists>t \<in> set c2. isSemicolon t)"
  proof -
    from that have eq: "forKeyword p lineNumber (KeywordToken FOR # ?open
            # (c0 @ OperatorToken SEMICOLON_SEPARATOR # c1 @ OperatorToken SEMICOLON_SEPARATOR # c2)
            @ [?close]) function scopeContext =
         forClauses p lineNumber c0 c1 c2 function (beginScope (Some 2) scopeContext)"
      by (intro forKeyword_clauses) simp_all
    show ?thesis unfolding pun eq ..
  qed
  have empty: "forClause p lineNumber [] function scopeContext = Inr (None, function, scopeContext)"
    by (simp add: forClause_def)
  have one: "forClause p lineNumber clause function scopeContext =
        (case processTokens p clause function scopeContext lineNumber None of
           Inl e \<Rightarrow> Inl e
         | Inr (inner, function1, scopeContext1) \<Rightarrow>
             if length inner \<noteq> 1 then
               Inl (CompilerException
                 ''Tokens in 'for' loop header do not evaluate to a single statement'' lineNumber)
             else if \<not> isStatement (inner ! 0) then
               Inl (CompilerException
                 ''Tokens in 'for' loop header do not evaluate to a statement'' lineNumber)
             else Inr (Some (inner ! 0), function1, scopeContext1))"
    if "clause \<noteq> []"
    using that by (auto simp: forClause_def split: sum.splits)
  from count only clauses empty one show ?thesis by blast
qed

text \<open>
  The witness: token processing that folds the tokens after a leading keyword (or all
  tokens) into one statement and rejects the identifier \<open>bad\<close>.
\<close>

definition toy_processing :: processing where
  "toy_processing = \<lparr>tokenProcessing = (\<lambda>tokens function localVariables lineNumber resultType.
       if IdentifierToken ''bad'' \<in> set tokens
       then Inl (CompilerException ''unknown identifier'' lineNumber)
       else (case tokens of
               KeywordToken keyword # rest \<Rightarrow>
                 Inr ([KeywordToken keyword, StatementToken rest], function, localVariables)
             | _ \<Rightarrow> Inr ([StatementToken tokens], function, localVariables))),
     mExternalAddressType = None\<rparr>"

definition toy_function :: ScriptFunction where
  "toy_function = \<lparr>mFunctionName = ''f'', mReturnType = ''void'', mParameters = [],
     mLocalVariablesById = [], mPragmas = [], mSourceFilename = '''', mSourceBaseLineOffset = 0\<rparr>"

definition toy_scope :: ScopeContext where
  "toy_scope = \<lparr>mLocalVariables = [], mScopeStack = []\<rparr>"

theorem for_header_two_semicolons_witness:
  "processUndefinedNode toy_processing 3
     (KeywordToken FOR # OperatorToken PARENTHESIS_LEFT
        # [IdentifierToken ''i'', OperatorToken SEMICOLON_SEPARATOR, IdentifierToken ''j'']
        @ [OperatorToken PARENTHESIS_RIGHT]) toy_function toy_scope =
     Inl (CompilerException ''Expected exactly two semicolons in 'for' loop header'' 3)
   \<and> processUndefinedNode toy_processing 3
     (KeywordToken FOR # OperatorToken PARENTHESIS_LEFT
        # ([IdentifierToken ''i''] @ OperatorToken SEMICOLON_SEPARATOR # [] @ OperatorToken SEMICOLON_SEPARATOR
            # [IdentifierToken ''j'', IdentifierToken ''k''])
        @ [OperatorToken PARENTHESIS_RIGHT]) toy_function toy_scope =
     Inr (Some (ForStatementNode (Some (StatementToken [IdentifierToken ''i''])) None
                  (Some (StatementToken [IdentifierToken ''j'', IdentifierToken ''k''])) None),
          KeywordToken FOR # OperatorToken PARENTHESIS_LEFT
            # ([IdentifierToken ''i''] @ OperatorToken SEMICOLON_SEPARATOR # [] @ OperatorToken SEMICOLON_SEPARATOR
                # [IdentifierToken ''j'', IdentifierToken ''k''])
            @ [OperatorToken PARENTHESIS_RIGHT],
          toy_function, beginScope (Some 2) toy_scope)"
proof -
  have clauses: "forClauses toy_processing 3 [IdentifierToken ''i''] []
      [IdentifierToken ''j'', IdentifierToken ''k''] toy_function (beginScope (Some 2) toy_scope) =
    Inr (ForStatementNode (Some (StatementToken [IdentifierToken ''i''])) None
                  (Some (StatementToken [IdentifierToken ''j'', IdentifierToken ''k''])) None,
         toy_function, beginScope (Some 2) toy_scope)"
    by (simp add: forClauses_def forClause_def processTokens_def toy_processing_def beginScope_def
        toy_scope_def)
  have none: "\<not> (\<exists>t \<in> set [IdentifierToken ''i'']. isSemicolon t)"
    "\<not> (\<exists>t \<in> set []. isSemicolon t)"
    "\<not> (\<exists>t \<in> set [IdentifierToken ''j'', IdentifierToken ''k'']. isSemicolon t)"
    by (simp_all add: isSemicolon_def)
  have one: "length (filter isSemicolon
      [IdentifierToken ''i'', OperatorToken SEMICOLON_SEPARATOR, IdentifierToken ''j'']) \<noteq> 2"
    by (simp add: isSemicolon_def)
  note t = for_header_two_semicolons [of _ toy_processing 3 toy_function toy_scope]
  from t [of "[IdentifierToken ''i'', OperatorToken SEMICOLON_SEPARATOR, IdentifierToken ''j'']"] one
  have first: "processUndefinedNode toy_processing 3
     (KeywordToken FOR # OperatorToken PARENTHESIS_LEFT
        # [IdentifierToken ''i'', OperatorToken SEMICOLON_SEPARATOR, IdentifierToken ''j'']
        @ [OperatorToken PARENTHESIS_RIGHT]) toy_function toy_scope =
     Inl (CompilerException ''Expected exactly two semicolons in 'for' loop header'' 3)"
    by blast
  from t [of "[]" "[]" _ "[IdentifierToken ''i'']" "[]" "[IdentifierToken ''j'', IdentifierToken ''k'']" "[]"]
    none
  have second: "processUndefinedNode toy_processing 3
     (KeywordToken FOR # OperatorToken PARENTHESIS_LEFT
        # ([IdentifierToken ''i''] @ OperatorToken SEMICOLON_SEPARATOR # [] @ OperatorToken SEMICOLON_SEPARATOR
            # [IdentifierToken ''j'', IdentifierToken ''k''])
        @ [OperatorToken PARENTHESIS_RIGHT]) toy_function toy_scope =
      (case forClauses toy_processing 3 [IdentifierToken ''i''] []
              [IdentifierToken ''j'', IdentifierToken ''k''] toy_function (beginScope (Some 2) toy_scope) of
         Inl e \<Rightarrow> Inl e
       | Inr (node, function1, scopeContext1) \<Rightarrow>
           Inr (Some node,
                KeywordToken FOR # OperatorToken PARENTHESIS_LEFT
                  # ([IdentifierToken ''i''] @ OperatorToken SEMICOLON_SEPARATOR # [] @ OperatorToken SEMICOLON_SEPARATOR
                     # [IdentifierToken ''j'', IdentifierToken ''k''])
                  @ [OperatorToken PARENTHESIS_RIGHT],
                function1, scopeContext1))"
    by blast
  show ?thesis
    unfolding first second clauses by simp
qed

section \<open>Shaping statements\<close>

text \<open>\<^verbatim>\<open>NodeList::erase(index, count)\<close>: remove \<open>count\<close> nodes from \<open>index\<close> on.\<close>

definition erase :: "'a list \<Rightarrow> nat \<Rightarrow> nat \<Rightarrow> 'a list" where
  "erase xs index count = take index xs @ drop (index + count) xs"

text \<open>
  \<^verbatim>\<open>formSingleStatement\<close> works on the nodes of a block, in place: it completes the node at
  \<open>index\<close> with the nodes that follow it and erases those. Here it returns the node list.
  A content pointer is set to the node that stands at its index at that moment.
\<close>

function formSingleStatement :: "Node list \<Rightarrow> nat \<Rightarrow> error + Node list" where
  "formSingleStatement nodes index =
     (if \<not> index < length nodes then
        (if nodes = [] then Inl VectorOutOfRange
         else Inl (CompilerException ''Expected another node to form statement of''
                     (getLineNumber (last nodes))))
      else
        (case getKind (nodes ! index) of
           IfStatementNode condition contentIf contentElse \<Rightarrow>
             (case formSingleStatement nodes (index + 1) of
                Inl e \<Rightarrow> Inl e
              | Inr nodes1 \<Rightarrow>
                  if index + 2 < length nodes1 \<and> getKind (nodes1 ! (index + 2)) = ElseStatementNode
                  then
                    (case formSingleStatement nodes1 (index + 3) of
                       Inl e \<Rightarrow> Inl e
                     | Inr nodes2 \<Rightarrow>
                         Inr (erase
                           (nodes2[index := Node (getLineNumber (nodes ! index))
                              (IfStatementNode condition (Some (nodes1 ! (index + 1)))
                                 (Some (nodes2 ! (index + 3))))])
                           (index + 1) 3))
                  else
                    Inr (erase
                      (nodes1[index := Node (getLineNumber (nodes ! index))
                         (IfStatementNode condition (Some (nodes1 ! (index + 1))) contentElse)])
                      (index + 1) 1))
         | ElseStatementNode \<Rightarrow>
             Inl (CompilerException ''Else in wrong location'' (getLineNumber (nodes ! index)))
         | WhileStatementNode condition content \<Rightarrow>
             (case formSingleStatement nodes (index + 1) of
                Inl e \<Rightarrow> Inl e
              | Inr nodes1 \<Rightarrow>
                  Inr (erase
                    (nodes1[index := Node (getLineNumber (nodes ! index))
                       (WhileStatementNode condition (Some (nodes1 ! (index + 1))))])
                    (index + 1) 1))
         | ForStatementNode initial condition iteration content \<Rightarrow>
             (case formSingleStatement nodes (index + 1) of
                Inl e \<Rightarrow> Inl e
              | Inr nodes1 \<Rightarrow>
                  Inr (erase
                    (nodes1[index := Node (getLineNumber (nodes ! index))
                       (ForStatementNode initial condition iteration (Some (nodes1 ! (index + 1))))])
                    (index + 1) 1))
         | _ \<Rightarrow> Inr nodes))"
  by pat_completeness auto

lemma formSingleStatement_shrinks:
  "formSingleStatement_dom (nodes, index) \<Longrightarrow> formSingleStatement nodes index = Inr result \<Longrightarrow>
     length result \<le> length nodes"
proof (induction nodes index arbitrary: result rule: formSingleStatement.pinduct)
  case (1 nodes index)
  note simps = formSingleStatement.psimps [OF "1.hyps"]
  from "1.prems" have in_range: "index < length nodes"
    by (auto simp: simps split: if_splits)
  show ?case
  proof (cases "getKind (nodes ! index)")
    case (IfStatementNode condition contentIf contentElse)
    from "1.prems" in_range IfStatementNode obtain nodes1 where
      first: "formSingleStatement nodes (index + 1) = Inr nodes1"
      by (auto simp: simps split: sum.splits)
    from "1.IH"(1) [OF _ IfStatementNode first] in_range
    have l1: "length nodes1 \<le> length nodes" by simp
    show ?thesis
    proof (cases "index + 2 < length nodes1 \<and> getKind (nodes1 ! (index + 2)) = ElseStatementNode")
      case True
      with "1.prems" in_range IfStatementNode first obtain nodes2 where
        second: "formSingleStatement nodes1 (index + 3) = Inr nodes2"
        and result: "length result \<le> length nodes2"
        by (auto simp: simps erase_def split: sum.splits)
      from "1.IH"(2) [OF _ IfStatementNode first True second] in_range
      have "length nodes2 \<le> length nodes1" by simp
      with l1 result show ?thesis by simp
    next
      case False
      with "1.prems" in_range IfStatementNode first have "length result \<le> length nodes1"
        by (auto simp: simps erase_def split: sum.splits)
      with l1 show ?thesis by simp
    qed
  next
    case (WhileStatementNode condition content)
    from "1.prems" in_range WhileStatementNode obtain nodes1 where
      first: "formSingleStatement nodes (index + 1) = Inr nodes1"
      and result: "length result \<le> length nodes1"
      by (auto simp: simps erase_def split: sum.splits)
    from "1.IH"(3) [OF _ WhileStatementNode first] in_range result show ?thesis by simp
  next
    case (ForStatementNode initial condition iteration content)
    from "1.prems" in_range ForStatementNode obtain nodes1 where
      first: "formSingleStatement nodes (index + 1) = Inr nodes1"
      and result: "length result \<le> length nodes1"
      by (auto simp: simps erase_def split: sum.splits)
    from "1.IH"(4) [OF _ ForStatementNode first] in_range result show ?thesis by simp
  qed (use "1.prems" in_range in \<open>auto simp: simps\<close>)
qed

lemma formSingleStatement_total: "All formSingleStatement_dom"
proof (relation "measure (\<lambda>(nodes, index). length nodes - index)", goal_cases)
  case 1
  show ?case by simp
next
  case (3 nodes index condition contentIf contentElse nodes1)
  then have "length nodes1 \<le> length nodes"
    by (intro formSingleStatement_shrinks) auto
  with 3 show ?case by auto
qed auto

termination formSingleStatement
  by (rule formSingleStatement_total)

declare formSingleStatement.simps [simp del]

lemma formSingleStatement_length:
  "formSingleStatement nodes index = Inr result \<Longrightarrow> length result \<le> length nodes"
  using formSingleStatement_total by (auto intro: formSingleStatement_shrinks)

text \<open>
  The loop "Post-process to merge if, else, while with the according block(s) or
  statement" of \<^verbatim>\<open>processUndefinedNodesInBlock\<close>, from index \<open>i\<close> on.
\<close>

function shapeNodes :: "Node list \<Rightarrow> nat \<Rightarrow> error + Node list" where
  "shapeNodes nodes i =
     (if i < length nodes then
        (case getKind (nodes ! i) of
           IfStatementNode condition contentIf contentElse \<Rightarrow>
             (case formSingleStatement nodes i of
                Inl e \<Rightarrow> Inl e
              | Inr nodes1 \<Rightarrow> shapeNodes nodes1 (i + 1))
         | WhileStatementNode condition content \<Rightarrow>
             (case formSingleStatement nodes i of
                Inl e \<Rightarrow> Inl e
              | Inr nodes1 \<Rightarrow> shapeNodes nodes1 (i + 1))
         | ForStatementNode initial condition iteration content \<Rightarrow>
             (case formSingleStatement nodes i of
                Inl e \<Rightarrow> Inl e
              | Inr nodes1 \<Rightarrow> shapeNodes nodes1 (i + 1))
         | ElseStatementNode \<Rightarrow>
             Inl (CompilerException ''Else in wrong location'' (getLineNumber (nodes ! i)))
         | _ \<Rightarrow> shapeNodes nodes (i + 1))
      else Inr nodes)"
  by pat_completeness auto
termination
  by (relation "measure (\<lambda>(nodes, i). length nodes - i)")
     (auto dest: formSingleStatement_length)

declare shapeNodes.simps [simp del]

subsection \<open>processUndefinedNodesInBlock\<close>








section \<open>Else-if chains\<close>

subsection \<open>Shaping a classified chain\<close>

text \<open>
  A branch of a chain after classification: the line, the condition and the body. A
  plain node is one that \<^verbatim>\<open>formSingleStatement\<close> leaves as it is: a block or a simple
  statement, not an if, else, while or for marker.
\<close>

type_synonym branch = "uint32 \<times> Token \<times> Node"

definition isPlain :: "Node \<Rightarrow> bool" where
  "isPlain node =
     (case getKind node of
        IfStatementNode condition contentIf contentElse \<Rightarrow> False
      | ElseStatementNode \<Rightarrow> False
      | WhileStatementNode condition content \<Rightarrow> False
      | ForStatementNode initial condition iteration content \<Rightarrow> False
      | _ \<Rightarrow> True)"

text \<open>
  The nodes of a chain as classification leaves them: the if marker and its body; for
  every further branch the else marker, the if marker of the same line and the body; and
  the else marker and body of a final else. \<open>nestedIf\<close> is the single node that the
  specification expects for the chain.
\<close>

definition ifNodes :: "branch \<Rightarrow> Node list" where
  "ifNodes b = (case b of (l, condition, body) \<Rightarrow> [Node l (IfStatementNode condition None None), body])"

definition elseIfNodes :: "branch \<Rightarrow> Node list" where
  "elseIfNodes b = Node (fst b) ElseStatementNode # ifNodes b"

definition elseNodes :: "(uint32 \<times> Node) option \<Rightarrow> Node list" where
  "elseNodes final = (case final of None \<Rightarrow> [] | Some (l, body) \<Rightarrow> [Node l ElseStatementNode, body])"

definition chainNodes :: "branch \<Rightarrow> branch list \<Rightarrow> (uint32 \<times> Node) option \<Rightarrow> Node list" where
  "chainNodes first others final = ifNodes first @ concat (map elseIfNodes others) @ elseNodes final"

fun nestedIf :: "branch \<Rightarrow> branch list \<Rightarrow> (uint32 \<times> Node) option \<Rightarrow> Node" where
  "nestedIf (l, condition, body) [] final =
     Node l (IfStatementNode condition (Some body) (map_option snd final))"
| "nestedIf (l, condition, body) (b # bs) final =
     Node l (IfStatementNode condition (Some body) (Some (nestedIf b bs final)))"

lemma formSingleStatement_plain:
  "index < length nodes \<Longrightarrow> isPlain (nodes ! index) \<Longrightarrow> formSingleStatement nodes index = Inr nodes"
  by (subst formSingleStatement.simps) (simp add: isPlain_def split: NodeKind.splits)

lemma erase_after:
  "erase (pre @ a # xs @ post) (length pre + 1) (length xs) = pre @ a # post"
  by (simp add: erase_def)

lemma formSingleStatement_chain:
  assumes "\<forall>b \<in> set (first # others). isPlain (snd (snd b))"
    and "\<forall>f. final = Some f \<longrightarrow> isPlain (snd f)"
    and "post = [] \<or> getKind (hd post) \<noteq> ElseStatementNode"
  shows "formSingleStatement (pre @ chainNodes first others final @ post) (length pre) =
           Inr (pre @ nestedIf first others final # post)"
  using assms(1)
proof (induction others arbitrary: first pre)
  case Nil
  obtain l condition body where first: "first = (l, condition, body)" by (cases first)
  with Nil have body: "isPlain body" by simp
  let ?if = "Node l (IfStatementNode condition None None)"
  show ?case
  proof (cases final)
    case None
    let ?nodes = "pre @ ?if # body # post"
    have nodes: "pre @ chainNodes first [] final @ post = ?nodes"
      by (simp add: chainNodes_def ifNodes_def elseNodes_def first None)
    have body_form: "formSingleStatement ?nodes (Suc (length pre)) = Inr ?nodes"
      using body by (intro formSingleStatement_plain) (simp_all add: nth_append)
    have no_else: "\<not> (length pre + 2 < length ?nodes \<and>
        getKind (?nodes ! (length pre + 2)) = ElseStatementNode)"
      using assms(3) by (cases post) (auto simp: nth_append)
    have "formSingleStatement ?nodes (length pre) =
        Inr (erase (?nodes[length pre := Node l (IfStatementNode condition (Some body) None)])
               (length pre + 1) 1)"
      using no_else
      by (subst formSingleStatement.simps) (auto simp add: body_form nth_append)
    also have "erase (?nodes[length pre := Node l (IfStatementNode condition (Some body) None)])
               (length pre + 1) 1 = pre @ Node l (IfStatementNode condition (Some body) None) # post"
      using erase_after [of pre _ "[body]" post] by (simp add: list_update_append)
    finally show ?thesis
      unfolding nodes by (simp add: first None)
  next
    case (Some f)
    obtain le ebody where f: "f = (le, ebody)" by (cases f)
    with assms(2) Some have ebody: "isPlain ebody" by simp
    let ?else = "Node le ElseStatementNode"
    let ?nodes = "pre @ ?if # body # ?else # ebody # post"
    have nodes: "pre @ chainNodes first [] final @ post = ?nodes"
      by (simp add: chainNodes_def ifNodes_def elseNodes_def first Some f)
    have body_form: "formSingleStatement ?nodes (Suc (length pre)) = Inr ?nodes"
      using body by (intro formSingleStatement_plain) (simp_all add: nth_append)
    have ebody_form: "formSingleStatement ?nodes (length pre + 3) = Inr ?nodes"
      using ebody by (intro formSingleStatement_plain) (simp_all add: nth_append)
    have "formSingleStatement ?nodes (length pre) =
        Inr (erase (?nodes[length pre := Node l (IfStatementNode condition (Some body) (Some ebody))])
               (length pre + 1) 3)"
      by (subst formSingleStatement.simps)
         (simp add: body_form ebody_form nth_append)
    also have "erase (?nodes[length pre := Node l (IfStatementNode condition (Some body) (Some ebody))])
               (length pre + 1) 3 = pre @ Node l (IfStatementNode condition (Some body) (Some ebody)) # post"
      using erase_after [of pre _ "[body, ?else, ebody]" post] by (simp add: list_update_append numeral_3_eq_3)
    finally show ?thesis
      unfolding nodes by (simp add: first Some f)
  qed
next
  case (Cons b bs)
  obtain l condition body where first: "first = (l, condition, body)" by (cases first)
  with Cons.prems have body: "isPlain body" by simp
  from Cons.prems have rest_plain: "\<forall>x \<in> set (b # bs). isPlain (snd (snd x))" by simp
  let ?if = "Node l (IfStatementNode condition None None)"
  let ?else = "Node (fst b) ElseStatementNode"
  let ?tail = "chainNodes b bs final"
  let ?nodes = "pre @ ?if # body # ?else # ?tail @ post"
  let ?inner = "nestedIf b bs final"
  let ?nodes2 = "pre @ ?if # body # ?else # ?inner # post"
  have nodes: "pre @ chainNodes first (b # bs) final @ post = ?nodes"
    by (simp add: chainNodes_def ifNodes_def elseIfNodes_def first)
  have body_form: "formSingleStatement ?nodes (Suc (length pre)) = Inr ?nodes"
    using body by (intro formSingleStatement_plain) (simp_all add: nth_append)
  have "formSingleStatement ((pre @ [?if, body, ?else]) @ ?tail @ post) (length (pre @ [?if, body, ?else])) =
      Inr ((pre @ [?if, body, ?else]) @ ?inner # post)"
    by (rule Cons.IH [OF rest_plain])
  then have inner_form: "formSingleStatement ?nodes (length pre + 3) = Inr ?nodes2"
    by (simp add: numeral_3_eq_3)
  have "formSingleStatement ?nodes (length pre) =
      Inr (erase (?nodes2[length pre := Node l (IfStatementNode condition (Some body) (Some ?inner))])
             (length pre + 1) 3)"
    by (subst formSingleStatement.simps)
       (simp add: body_form inner_form nth_append)
  also have "erase (?nodes2[length pre := Node l (IfStatementNode condition (Some body) (Some ?inner))])
             (length pre + 1) 3 = pre @ Node l (IfStatementNode condition (Some body) (Some ?inner)) # post"
    using erase_after [of pre _ "[body, ?else, ?inner]" post] by (simp add: list_update_append numeral_3_eq_3)
  finally show ?case
    unfolding nodes by (simp add: first)
qed

lemma shapeNodes_chain:
  assumes "\<forall>b \<in> set (first # others). isPlain (snd (snd b))"
    and "\<forall>f. final = Some f \<longrightarrow> isPlain (snd f)"
  shows "shapeNodes (chainNodes first others final) 0 = Inr [nestedIf first others final]"
proof -
  obtain l condition body where first: "first = (l, condition, body)" by (cases first)
  have form: "formSingleStatement (chainNodes first others final) 0 = Inr [nestedIf first others final]"
    using formSingleStatement_chain [OF assms, of "[]" "[]"] by simp
  have head: "chainNodes first others final ! 0 = Node l (IfStatementNode condition None None)"
    "0 < length (chainNodes first others final)" "chainNodes first others final \<noteq> []"
    by (simp_all add: chainNodes_def ifNodes_def first)
  have "shapeNodes (chainNodes first others final) 0 = shapeNodes [nestedIf first others final] (0 + 1)"
    by (subst shapeNodes.simps) (simp add: head form)
  also have "\<dots> = Inr [nestedIf first others final]"
    by (subst shapeNodes.simps) simp
  finally show ?thesis .
qed

subsection \<open>Classifying the lines of a chain\<close>









subsection \<open>The first loop, node by node\<close>










subsection \<open>The lines and bodies of a chain in the first loop\<close>















subsection \<open>Statement shaping in a context\<close>













subsection \<open>The chain as one nested if statement\<close>



end
